(* ===== verification/Prelude.thy ===== *)
theory Prelude
  imports Main "HOL-Library.Word" "HOL-Library.Multiset"
begin

text \<open>
  What every component shares.

  \<^item> Bytes: a \<^verbatim>\<open>Uint8Array\<close> is a list of 8-bit words; \<open>splice\<close> is \<^verbatim>\<open>TypedArray.set\<close> at an
    offset, \<open>slice\<close> is \<^verbatim>\<open>slice\<close>/\<^verbatim>\<open>subarray\<close>.
  \<^item> Results: a TypeScript computation returns, throws or never returns (\<open>res\<close>); a stateful one is a
    \<open>prog\<close>, which hands back the state it reached also when it throws, because an exception does
    not undo what was written before it.
  \<^item> Numbers: little- and big-endian encodings of unsigned integers, decimal and hexadecimal
    renderings, and the rounding of \<^verbatim>\<open>Number(bigint)\<close>.
\<close>

unbundle bit_operations_syntax

named_theorems prog_simps \<open>how a program runs, step by step\<close>
named_theorems splice_simps \<open>reading back what a splice wrote\<close>

section \<open>Types\<close>

type_synonym byte = "8 word"
type_synonym bytes = "byte list"

text \<open>The taxonomy of \<^verbatim>\<open>AccountsDriveError\<close> (\<^verbatim>\<open>accounts-drive/js/src/drive.ts\<close>).\<close>

datatype ErrorKind =
    tableFull | registryFull | overflow | nonceProtected | duplicateToken
  | unknownToken | badWidth | zeroAddress | profileKind

text \<open>The taxonomy of \<^verbatim>\<open>AbiDriveError\<close> (\<^verbatim>\<open>abi-drive/js/src/index.ts\<close>).\<close>

datatype AbiDriveErrorKind =
    badMagic | badVersion | badGeometry | abiRegistryFull | heapFull | duplicate

text \<open>
  What a \<^verbatim>\<open>throw\<close> can carry. \<^verbatim>\<open>RangeError\<close> is what the language raises on a division by zero or on a
  \<^verbatim>\<open>DataView\<close> access out of range.
\<close>

datatype exn =
    AccountsDriveError ErrorKind string
  | InsufficientFunds string
  | AbiDriveError AbiDriveErrorKind string
  | RevertExn bytes string
  | FailExn bytes string
  | Error string
  | RangeError string

datatype 'a res = Ok 'a | Throw exn | Diverge

type_synonym ('s, 'a) prog = "'s \<Rightarrow> 'a res \<times> 's"

section \<open>Programs\<close>

definition ret :: "'a \<Rightarrow> ('s, 'a) prog" where
  "ret a = (\<lambda>s. (Ok a, s))"

definition raise :: "exn \<Rightarrow> ('s, 'a) prog" where
  "raise e = (\<lambda>s. (Throw e, s))"

definition lift :: "'a res \<Rightarrow> ('s, 'a) prog" where
  "lift r = (\<lambda>s. (r, s))"

definition bnd :: "('s, 'a) prog \<Rightarrow> ('a \<Rightarrow> ('s, 'b) prog) \<Rightarrow> ('s, 'b) prog" where
  "bnd m f = (\<lambda>s. case m s of
      (Ok a, s') \<Rightarrow> f a s'
    | (Throw e, s') \<Rightarrow> (Throw e, s')
    | (Diverge, s') \<Rightarrow> (Diverge, s'))"

text \<open>\<^verbatim>\<open>try { m } catch (e) { h }\<close>: a computation that never returns is not caught.\<close>

definition try_catch :: "('s, 'a) prog \<Rightarrow> (exn \<Rightarrow> ('s, 'a) prog) \<Rightarrow> ('s, 'a) prog" where
  "try_catch m h = (\<lambda>s. case m s of
      (Ok a, s') \<Rightarrow> (Ok a, s')
    | (Throw e, s') \<Rightarrow> h e s'
    | (Diverge, s') \<Rightarrow> (Diverge, s'))"

definition gets :: "('s \<Rightarrow> 'a) \<Rightarrow> ('s, 'a) prog" where
  "gets f = (\<lambda>s. (Ok (f s), s))"

definition modify :: "('s \<Rightarrow> 's) \<Rightarrow> ('s, unit) prog" where
  "modify f = (\<lambda>s. (Ok (), f s))"

text \<open>A guard: throw unless the condition holds.\<close>

definition guard :: "bool \<Rightarrow> exn \<Rightarrow> ('s, unit) prog" where
  "guard b e = (if b then ret () else raise e)"

text \<open>Run a program of a component on the part of a larger state that holds it.\<close>

definition zoom :: "('t \<Rightarrow> 's) \<Rightarrow> ('s \<Rightarrow> 't \<Rightarrow> 't) \<Rightarrow> ('s, 'a) prog \<Rightarrow> ('t, 'a) prog" where
  "zoom get put m = (\<lambda>t. case m (get t) of (r, s') \<Rightarrow> (r, put s' t))"

text \<open>The same sequencing for computations without state.\<close>

fun rbind :: "'a res \<Rightarrow> ('a \<Rightarrow> 'b res) \<Rightarrow> 'b res" where
  "rbind (Ok a) f = f a"
| "rbind (Throw e) f = Throw e"
| "rbind Diverge f = Diverge"

lemma ret_run [simp, prog_simps]: "ret a s = (Ok a, s)"
  by (simp add: ret_def)

lemma raise_run [simp, prog_simps]: "raise e s = (Throw e, s)"
  by (simp add: raise_def)

lemma lift_run [simp, prog_simps]: "lift r s = (r, s)"
  by (simp add: lift_def)

lemma gets_run [simp, prog_simps]: "gets f s = (Ok (f s), s)"
  by (simp add: gets_def)

lemma modify_run [simp, prog_simps]: "modify f s = (Ok (), f s)"
  by (simp add: modify_def)

lemma guard_run [simp, prog_simps]: "guard b e s = (if b then Ok () else Throw e, s)"
  by (simp add: guard_def)

lemma bnd_Ok [simp, prog_simps]: "m s = (Ok a, s') \<Longrightarrow> bnd m f s = f a s'"
  by (simp add: bnd_def)

lemma bnd_Throw [simp, prog_simps]: "m s = (Throw e, s') \<Longrightarrow> bnd m f s = (Throw e, s')"
  by (simp add: bnd_def)

lemma bnd_Diverge [simp, prog_simps]: "m s = (Diverge, s') \<Longrightarrow> bnd m f s = (Diverge, s')"
  by (simp add: bnd_def)

lemma try_catch_Ok [simp, prog_simps]: "m s = (Ok a, s') \<Longrightarrow> try_catch m h s = (Ok a, s')"
  by (simp add: try_catch_def)

lemma try_catch_Throw [simp, prog_simps]: "m s = (Throw e, s') \<Longrightarrow> try_catch m h s = h e s'"
  by (simp add: try_catch_def)

lemma try_catch_Diverge [simp, prog_simps]: "m s = (Diverge, s') \<Longrightarrow> try_catch m h s = (Diverge, s')"
  by (simp add: try_catch_def)

lemma bnd_OkE:
  assumes "bnd m f s = (Ok b, t)"
  obtains a s' where "m s = (Ok a, s')" and "f a s' = (Ok b, t)"
  using assms by (auto simp: bnd_def split: prod.splits res.splits)

lemma bnd_cases:
  obtains (Ok) a s' where "m s = (Ok a, s')" and "bnd m f s = f a s'"
  | (Throw) e s' where "m s = (Throw e, s')" and "bnd m f s = (Throw e, s')"
  | (Diverge) s' where "m s = (Diverge, s')" and "bnd m f s = (Diverge, s')"
  by (cases "m s"; cases "fst (m s)") auto

lemma bnd_assoc: "bnd (bnd m f) g = bnd m (\<lambda>a. bnd (f a) g)"
  by (rule ext) (auto simp: bnd_def split: prod.splits res.splits)

lemma bnd_ret [simp]: "bnd (ret a) f = f a"
  by (rule ext) (simp add: bnd_def)

lemma bnd_Pair [simp]:
  "bnd (Pair (Ok a)) f = f a"
  "bnd (Pair (Throw e)) f = Pair (Throw e)"
  "bnd (Pair Diverge) f = Pair Diverge"
  by (simp_all add: bnd_def fun_eq_iff)

lemma bnd_lift [simp]:
  "bnd (lift (Ok a)) f = f a"
  "bnd (lift (Throw e)) f = raise e"
  by (simp_all add: bnd_def lift_def raise_def)

lemma zoom_run [prog_simps]: "m (get t) = (r, s') \<Longrightarrow> zoom get put m t = (r, put s' t)"
  by (simp add: zoom_def)

lemma rbind_eq_Ok [simp]: "rbind r f = Ok b \<longleftrightarrow> (\<exists>a. r = Ok a \<and> f a = Ok b)"
  by (cases r) auto

lemma option_eqI: "(\<And>v. x = Some v \<longleftrightarrow> y = Some v) \<Longrightarrow> x = y"
  by (cases x; cases y) auto

section \<open>Byte arrays\<close>

definition zeros :: "nat \<Rightarrow> bytes" where
  "zeros n = replicate n 0"

definition slice :: "'a list \<Rightarrow> nat \<Rightarrow> nat \<Rightarrow> 'a list" where
  "slice xs off n = take n (drop off xs)"

definition splice :: "'a list \<Rightarrow> nat \<Rightarrow> 'a list \<Rightarrow> 'a list" where
  "splice xs off ys = take off xs @ ys @ drop (off + length ys) xs"

lemma length_zeros [simp]: "length (zeros n) = n"
  by (simp add: zeros_def)

lemma length_slice [simp]: "off + n \<le> length xs \<Longrightarrow> length (slice xs off n) = n"
  by (simp add: slice_def)

lemma length_splice [simp]: "off + length ys \<le> length xs \<Longrightarrow> length (splice xs off ys) = length xs"
  by (simp add: splice_def)

lemma nth_slice: "i < n \<Longrightarrow> off + n \<le> length xs \<Longrightarrow> slice xs off n ! i = xs ! (off + i)"
  by (simp add: slice_def)

lemma nth_splice:
  assumes "off + length ys \<le> length xs" and "i < length xs"
  shows "splice xs off ys ! i =
    (if i < off then xs ! i else if i < off + length ys then ys ! (i - off) else xs ! i)"
  using assms by (auto simp: splice_def nth_append)

lemma slice_splice_same [splice_simps]:
  "off + length ys \<le> length xs \<Longrightarrow> n = length ys \<Longrightarrow> slice (splice xs off ys) off n = ys"
  by (simp add: slice_def splice_def)

lemma slice_splice_disjoint [splice_simps]:
  assumes "off + length ys \<le> length xs" and "p + n \<le> off \<or> off + length ys \<le> p"
  shows "slice (splice xs off ys) p n = slice xs p n"
proof (cases "p + n \<le> off")
  case True
  with assms(1) have "n - (off - p) = 0" and "off \<le> length xs" by auto
  with True show ?thesis by (simp add: slice_def splice_def take_drop min_def)
next
  case False
  with assms(2) have le: "off + length ys \<le> p" by simp
  have "drop p (splice xs off ys) = drop p xs"
    using assms(1) le by (simp add: splice_def min_def)
  then show ?thesis by (simp add: slice_def)
qed

lemma slice_splice_within:
  assumes "off + length ys \<le> length xs" and "off \<le> p" and "p + n \<le> off + length ys"
  shows "slice (splice xs off ys) p n = slice ys (p - off) n"
proof (rule nth_equalityI)
  show "length (slice (splice xs off ys) p n) = length (slice ys (p - off) n)"
    using assms by simp
next
  fix i
  assume "i < length (slice (splice xs off ys) p n)"
  with assms have "i < n" by simp
  with assms show "slice (splice xs off ys) p n ! i = slice ys (p - off) n ! i"
    by (simp add: nth_slice nth_splice)
qed

lemma splice_slice_id: "off + n \<le> length xs \<Longrightarrow> splice xs off (slice xs off n) = xs"
  by (simp add: splice_def slice_def) (metis append_take_drop_id drop_drop add.commute)

lemma splice_undo:
  assumes "off + length ys \<le> length xs"
  shows "splice (splice xs off ys) off (slice xs off (length ys)) = xs"
  using assms by (intro nth_equalityI) (auto simp: nth_splice nth_slice)

lemma slice_0_length [simp]: "slice xs 0 (length xs) = xs"
  by (simp add: slice_def)

lemma slice_zeros: "p + n \<le> m \<Longrightarrow> slice (zeros m) p n = zeros n"
  by (simp add: slice_def zeros_def)

lemma slice_slice: "p + n \<le> m \<Longrightarrow> slice (slice xs off m) p n = slice xs (off + p) n"
  by (simp add: slice_def take_drop drop_drop add.commute min_def)

section \<open>Unsigned integers in bytes\<close>

primrec le_enc :: "nat \<Rightarrow> nat \<Rightarrow> bytes" where
  "le_enc 0 v = []"
| "le_enc (Suc n) v = of_nat (v mod 256) # le_enc n (v div 256)"

primrec le_dec :: "bytes \<Rightarrow> nat" where
  "le_dec [] = 0"
| "le_dec (b # bs) = unat b + 256 * le_dec bs"

lemma unat_byte_less [simp]: "unat (b :: byte) < 256"
  using unsigned_less [of b] by simp

lemma length_le_enc [simp]: "length (le_enc n v) = n"
  by (induction n arbitrary: v) auto

lemma le_dec_le_enc: "le_dec (le_enc n v) = v mod 256 ^ n"
proof (induction n arbitrary: v)
  case 0
  then show ?case by simp
next
  case (Suc n)
  have "unat (of_nat (v mod 256) :: byte) = v mod 256"
    by (simp add: unat_of_nat)
  with Suc show ?case by (simp add: mod_mult2_eq)
qed

lemma le_dec_bound: "le_dec bs < 256 ^ length bs"
proof (induction bs)
  case Nil
  then show ?case by simp
next
  case (Cons b bs)
  then have "256 * (le_dec bs + 1) \<le> 256 * 256 ^ length bs" by (intro mult_le_mono2) simp
  moreover have "unat b < 256" by simp
  ultimately show ?case by (simp del: unat_byte_less)
qed

lemma le_enc_le_dec: "le_enc (length bs) (le_dec bs) = bs"
proof (induction bs)
  case Nil
  then show ?case by simp
next
  case (Cons b bs)
  have "unat b < 256" by simp
  with Cons show ?case by simp
qed

lemma le_dec_zeros [simp]: "le_dec (zeros n) = 0"
  by (induction n) (auto simp: zeros_def)

section \<open>Renderings\<close>

text \<open>The rounding of \<^verbatim>\<open>Number(n)\<close> for an unsigned BigInt: exact up to 53 bits, else to the nearest
  multiple of the unit in the last place, ties to even.\<close>

fun bitlen :: "nat \<Rightarrow> nat" where
  "bitlen n = (if n = 0 then 0 else Suc (bitlen (n div 2)))"

declare bitlen.simps [simp del]

definition toNumber :: "nat \<Rightarrow> nat" where
  "toNumber n = (if n < 2 ^ 53 then n else
     (let u = 2 ^ (bitlen n - 53); q = n div u; r = n mod u in
      if 2 * r < u \<or> (2 * r = u \<and> even q) then q * u else (q + 1) * u))"

lemma toNumber_exact [simp]: "n < 9007199254740992 \<Longrightarrow> toNumber n = n"
  by (simp add: toNumber_def)

definition digit :: "nat \<Rightarrow> char" where
  "digit d = char_of (if d < 10 then 48 + d else 87 + d)"

fun to_base :: "nat \<Rightarrow> nat \<Rightarrow> string" where
  "to_base b n = (if n < b \<or> b < 2 then [digit n] else to_base b (n div b) @ [digit (n mod b)])"

declare to_base.simps [simp del]

abbreviation dec :: "nat \<Rightarrow> string" where
  "dec \<equiv> to_base 10"

definition dec_int :: "int \<Rightarrow> string" where
  "dec_int i = (if i < 0 then ''-'' @ dec (nat (- i)) else dec (nat i))"

definition padStart :: "nat \<Rightarrow> char \<Rightarrow> string \<Rightarrow> string" where
  "padStart n c s = replicate (n - length s) c @ s"

text \<open>\<^verbatim>\<open>String.toLowerCase\<close> up to U+00FF.\<close>

definition lower :: "char \<Rightarrow> char" where
  "lower c = (let n = of_char c :: nat in
     if 65 \<le> n \<and> n \<le> 90 \<or> 192 \<le> n \<and> n \<le> 222 \<and> n \<noteq> 215 then char_of (n + 32) else c)"

definition toLowerCase :: "string \<Rightarrow> string" where
  "toLowerCase s = map lower s"

text \<open>\<^verbatim>\<open>Array.join\<close> and \<^verbatim>\<open>String.split\<close>.\<close>

fun join :: "string \<Rightarrow> string list \<Rightarrow> string" where
  "join sep [] = []"
| "join sep [x] = x"
| "join sep (x # y # zs) = x @ sep @ join sep (y # zs)"

fun split_on :: "'a \<Rightarrow> 'a list \<Rightarrow> 'a list list" where
  "split_on c [] = [[]]"
| "split_on c (x # xs) = (if x = c then [] # split_on c xs else (case split_on c xs of
     [] \<Rightarrow> [[x]] | y # ys \<Rightarrow> (x # y) # ys))"

lemma split_on_plain: "c \<notin> set xs \<Longrightarrow> split_on c xs = [xs]"
  by (induction xs) auto

lemma split_on_cons: "c \<notin> set xs \<Longrightarrow> split_on c (xs @ c # ys) = xs # split_on c ys"
  by (induction xs) auto

lemma split_on_join: "ls \<noteq> [] \<Longrightarrow> list_all (\<lambda>l. c \<notin> set l) ls \<Longrightarrow> split_on c (join [c] ls) = ls"
  by (induction "[c]" ls rule: join.induct) (auto simp: split_on_plain split_on_cons)

end
