(* ===== verification/Drive_Codec.thy ===== *)
theory Drive_Codec
  imports Prelude
begin

text \<open>
  The helpers of \<^verbatim>\<open>accounts-drive/js/src/drive.ts\<close>: hexadecimal text, addresses, the big-endian balances
  and little-endian counters, the home slot of a key and the key of the sparse table. Keccak-256 comes
  from a package, so it is an argument (\<open>H\<close>) wherever a hash is taken.
\<close>

section \<open>Constants\<close>

definition ProfileSingleAsset :: int where "ProfileSingleAsset = 0"
definition ProfileWide :: int where "ProfileWide = 1"
definition ProfileSparse :: int where "ProfileSparse = 2"

definition Magic :: bytes where
  "Magic = [0x63, 0x74, 0x73, 0x69, 0x61, 0x63, 0x63, 0x74]"

definition Version :: nat where "Version = 1"

definition HEADER_SIZE :: nat where "HEADER_SIZE = 4096"

definition OFF_MAGIC :: nat where "OFF_MAGIC = 0x00"
definition OFF_VERSION :: nat where "OFF_VERSION = 0x08"
definition OFF_FLAGS :: nat where "OFF_FLAGS = 0x0c"
definition OFF_CAPACITY :: nat where "OFF_CAPACITY = 0x10"
definition OFF_TABLE_OFFSET :: nat where "OFF_TABLE_OFFSET = 0x18"
definition OFF_LOAD_LIMIT :: nat where "OFF_LOAD_LIMIT = 0x20"
definition OFF_LIVE_COUNT :: nat where "OFF_LIVE_COUNT = 0x28"
definition OFF_SEED :: nat where "OFF_SEED = 0x30"
definition OFF_PROFILE :: nat where "OFF_PROFILE = 0x50"
definition OFF_SLOT_SIZE :: nat where "OFF_SLOT_SIZE = 0x54"
definition OFF_REGISTRY_OFFSET :: nat where "OFF_REGISTRY_OFFSET = 0x58"
definition OFF_REGISTRY_CAP :: nat where "OFF_REGISTRY_CAP = 0x60"
definition OFF_TOKEN_COUNT :: nat where "OFF_TOKEN_COUNT = 0x68"
definition OFF_SPARSE_OFFSET :: nat where "OFF_SPARSE_OFFSET = 0x70"
definition OFF_SPARSE_CAPACITY :: nat where "OFF_SPARSE_CAPACITY = 0x78"
definition OFF_SPARSE_LOAD_LIMIT :: nat where "OFF_SPARSE_LOAD_LIMIT = 0x80"
definition OFF_SPARSE_LIVE_COUNT :: nat where "OFF_SPARSE_LIVE_COUNT = 0x88"
definition OFF_SPARSE_SLOT_SIZE :: nat where "OFF_SPARSE_SLOT_SIZE = 0x90"
definition MIN_REGISTRY_OFFSET :: nat where "MIN_REGISTRY_OFFSET = 0x100"

lemmas header_offsets =
  HEADER_SIZE_def OFF_MAGIC_def OFF_VERSION_def OFF_FLAGS_def OFF_CAPACITY_def OFF_TABLE_OFFSET_def
  OFF_LOAD_LIMIT_def OFF_LIVE_COUNT_def OFF_SEED_def OFF_PROFILE_def OFF_SLOT_SIZE_def
  OFF_REGISTRY_OFFSET_def OFF_REGISTRY_CAP_def OFF_TOKEN_COUNT_def OFF_SPARSE_OFFSET_def
  OFF_SPARSE_CAPACITY_def OFF_SPARSE_LOAD_LIMIT_def OFF_SPARSE_LIVE_COUNT_def
  OFF_SPARSE_SLOT_SIZE_def MIN_REGISTRY_OFFSET_def

lemmas profile_defs = ProfileSingleAsset_def ProfileWide_def ProfileSparse_def

section \<open>Errors\<close>

definition err_tableFull :: "string option \<Rightarrow> exn" where
  "err_tableFull msg = AccountsDriveError tableFull
     (case msg of None \<Rightarrow> ''table at load limit'' | Some m \<Rightarrow> m)"

definition err_registryFull :: exn where
  "err_registryFull = AccountsDriveError registryFull ''token registry full''"

definition err_overflow :: exn where
  "err_overflow = AccountsDriveError overflow ''balance exceeds declared width''"

definition err_zeroAddress :: exn where
  "err_zeroAddress = AccountsDriveError zeroAddress ''zero address is invalid''"

definition err_nonceProtected :: exn where
  "err_nonceProtected = AccountsDriveError nonceProtected
     ''record has nonzero nonce (replay protection); pass force to delete''"

definition err_profile :: exn where
  "err_profile = AccountsDriveError profileKind ''operation not available in this profile''"

definition err_unknownToken :: exn where
  "err_unknownToken = AccountsDriveError unknownToken ''token not registered''"

definition err_duplicateToken :: exn where
  "err_duplicateToken = AccountsDriveError duplicateToken ''token already registered''"

definition err_badWidth :: "string option \<Rightarrow> exn" where
  "err_badWidth msg = AccountsDriveError badWidth
     (case msg of None \<Rightarrow> ''balance width must be 8, 16 or 32'' | Some m \<Rightarrow> m)"

section \<open>Hexadecimal text\<close>

definition hex_val :: "char \<Rightarrow> nat option" where
  "hex_val c = (let n = of_char c in
     if 48 \<le> n \<and> n \<le> 57 then Some (n - 48)
     else if 97 \<le> n \<and> n \<le> 102 then Some (n - 87)
     else if 65 \<le> n \<and> n \<le> 70 then Some (n - 55)
     else None)"

fun hex_pairs :: "string \<Rightarrow> bytes" where
  "hex_pairs (a # b # cs) = of_nat (16 * the (hex_val a) + the (hex_val b)) # hex_pairs cs"
| "hex_pairs _ = []"

text \<open>\<^verbatim>\<open>JSON.stringify\<close> of a string, as it appears in the error message.\<close>

definition json_char :: "char \<Rightarrow> string" where
  "json_char c = (let n = of_char c :: nat in
     if n = 34 then [CHR 0x5c, CHR 0x22]
     else if n = 92 then [CHR 0x5c, CHR 0x5c]
     else if n = 8 then [CHR 0x5c, CHR ''b'']
     else if n = 12 then [CHR 0x5c, CHR ''f'']
     else if n = 10 then [CHR 0x5c, CHR ''n'']
     else if n = 13 then [CHR 0x5c, CHR ''r'']
     else if n = 9 then [CHR 0x5c, CHR ''t'']
     else if n < 32 then CHR 0x5c # ''u'' @ padStart 4 (CHR ''0'') (to_base 16 n)
     else [c])"

definition json_string :: "string \<Rightarrow> string" where
  "json_string s = [CHR 0x22] @ concat (map json_char s) @ [CHR 0x22]"

definition strip0x :: "string \<Rightarrow> string" where
  "strip0x hex = (if take 2 hex = ''0x'' \<or> take 2 hex = ''0X'' then drop 2 hex else hex)"

definition hexToBytes :: "string \<Rightarrow> bytes res" where
  "hexToBytes hex0 = (let hex = strip0x hex0 in
     if length hex mod 2 \<noteq> 0 \<or> list_ex (\<lambda>c. hex_val c = None) hex
     then Throw (Error (''invalid hex string '' @ json_string hex))
     else Ok (hex_pairs hex))"

definition bytesToHex :: "bytes \<Rightarrow> string" where
  "bytesToHex bs = concat (map (\<lambda>b. padStart 2 (CHR ''0'') (to_base 16 (unat b))) bs)"

section \<open>Addresses\<close>

datatype AddressLike = ABytes bytes | AHex string

definition toAddress :: "AddressLike \<Rightarrow> bytes res" where
  "toAddress a =
     rbind (case a of AHex s \<Rightarrow> hexToBytes s | ABytes b \<Rightarrow> Ok b) (\<lambda>b.
       if length b \<noteq> 20 then Throw (Error ''address must be 20 bytes (or 40 hex chars)'') else Ok b)"

definition isZero :: "bytes \<Rightarrow> bool" where
  "isZero b = list_all (\<lambda>x. x = 0) b"

definition bytesEqual :: "bytes \<Rightarrow> bytes \<Rightarrow> bool" where
  "bytesEqual a b = (length a = length b \<and> list_all2 (=) a b)"

section \<open>Integers\<close>

definition isPow2 :: "int \<Rightarrow> bool" where
  "isPow2 n \<longleftrightarrow> n > 0 \<and> (n AND (n - 1)) = 0"

definition readBE :: "bytes \<Rightarrow> nat" where
  "readBE bs = foldl (\<lambda>v b. push_bit 8 v OR unat b) 0 bs"

fun putBE_loop :: "nat \<Rightarrow> int \<Rightarrow> bytes \<Rightarrow> bytes" where
  "putBE_loop 0 v acc = acc"
| "putBE_loop (Suc i) v acc = putBE_loop i (drop_bit 8 v) (of_int (v AND 0xff) # acc)"

text \<open>\<^verbatim>\<open>putBE(buf, v)\<close> for a buffer of \<open>n\<close> bytes: what the buffer holds afterwards.\<close>

definition putBE :: "nat \<Rightarrow> int \<Rightarrow> bytes res" where
  "putBE n v = (if v < 0 \<or> drop_bit (8 * n) v \<noteq> 0 then Throw err_overflow else Ok (putBE_loop n v []))"

definition out_of_view :: exn where
  "out_of_view = RangeError ''Offset is outside the bounds of the DataView''"

definition getLE64 :: "bytes \<Rightarrow> nat \<Rightarrow> nat res" where
  "getLE64 bs off = (if off + 8 \<le> length bs then Ok (le_dec (slice bs off 8)) else Throw out_of_view)"

definition getLE32 :: "bytes \<Rightarrow> nat \<Rightarrow> nat res" where
  "getLE32 bs off = (if off + 4 \<le> length bs then Ok (le_dec (slice bs off 4)) else Throw out_of_view)"

text \<open>\<^verbatim>\<open>DataView.setUint32\<close> and \<^verbatim>\<open>setBigUint64\<close>, little-endian: the value wraps to the width of the field.\<close>

definition setLE :: "nat \<Rightarrow> bytes \<Rightarrow> nat \<Rightarrow> int \<Rightarrow> bytes" where
  "setLE n buf off v = splice buf off (le_enc n (nat (v mod 256 ^ n)))"

section \<open>Keys\<close>

definition home :: "(bytes \<Rightarrow> bytes) \<Rightarrow> bytes \<Rightarrow> bytes \<Rightarrow> nat \<Rightarrow> nat res" where
  "home H seed key capacity =
     rbind (getLE64 (H (seed @ key)) 0) (\<lambda>v.
       if capacity = 0 then Throw (RangeError ''Division by zero'')
       else Ok (toNumber (v mod capacity)))"

definition sparseKey :: "nat \<Rightarrow> bytes \<Rightarrow> bytes" where
  "sparseKey tid addr =
     splice ((zeros 22)[0 := of_nat (tid AND 0xff), 1 := of_nat (drop_bit 8 tid AND 0xff)]) 2 addr"

section \<open>Lemmas\<close>

lemma bytesEqual_iff [simp]: "bytesEqual a b \<longleftrightarrow> a = b"
  by (auto simp: bytesEqual_def list.rel_eq)

lemma isZero_iff: "isZero b \<longleftrightarrow> b = zeros (length b)"
  by (induction b) (auto simp: isZero_def zeros_def)

lemma readBE_step: "push_bit 8 v OR unat (b :: byte) = v * 256 + unat b"
proof -
  have "push_bit 8 v AND unat b = 0"
  proof (rule bit_eqI)
    fix n
    have "bit (unat b) n \<Longrightarrow> n < 8"
      using bit_imp_le_length [of b n] by (simp add: bit_unsigned_iff)
    then show "bit (push_bit 8 v AND unat b) n \<longleftrightarrow> bit (0 :: nat) n"
      by (auto simp: bit_simps)
  qed
  then show ?thesis
    by (simp add: disjunctive_add_eq_or [symmetric] push_bit_eq_mult)
qed

lemma readBE_Nil [simp]: "readBE [] = 0"
  by (simp add: readBE_def)

lemma readBE_snoc: "readBE (bs @ [b]) = readBE bs * 256 + unat b"
  by (simp add: readBE_def readBE_step)

lemma readBE_bound: "readBE bs < 256 ^ length bs"
proof (induction bs rule: rev_induct)
  case Nil
  then show ?case by simp
next
  case (snoc b bs)
  then have "(readBE bs + 1) * 256 \<le> 256 ^ length bs * 256" by (intro mult_le_mono1) simp
  moreover have "unat b < 256" by simp
  ultimately show ?case by (simp add: readBE_snoc del: unat_byte_less)
qed

lemma putBE_loop_acc: "putBE_loop n v acc = putBE_loop n v [] @ acc"
proof (induction n arbitrary: v acc)
  case 0
  then show ?case by simp
next
  case (Suc n)
  have "putBE_loop (Suc n) v acc = putBE_loop n (drop_bit 8 v) [] @ (of_int (v AND 0xff) # acc)"
    using Suc [of "drop_bit 8 v" "of_int (v AND 0xff) # acc"] by simp
  also have "\<dots> = (putBE_loop n (drop_bit 8 v) [] @ [of_int (v AND 0xff)]) @ acc" by simp
  also have "\<dots> = putBE_loop (Suc n) v [] @ acc"
    using Suc [of "drop_bit 8 v" "[of_int (v AND 0xff)]"] by simp
  finally show ?case .
qed

lemma putBE_loop_Suc: "putBE_loop (Suc n) v [] = putBE_loop n (v div 256) [] @ [of_int (v mod 256)]"
proof -
  have "v AND 0xff = v mod 256"
    using take_bit_eq_mask [of 8 v] by (simp add: take_bit_eq_mod mask_eq_exp_minus_1)
  moreover have "drop_bit 8 v = v div 256" by (simp add: drop_bit_eq_div)
  ultimately show ?thesis using putBE_loop_acc [of n "v div 256" "[of_int (v mod 256)]"] by simp
qed

lemma length_putBE_loop [simp]: "length (putBE_loop n v []) = n"
proof (induction n arbitrary: v)
  case 0
  then show ?case by simp
next
  case (Suc n)
  then show ?case unfolding putBE_loop_Suc by simp
qed

lemma readBE_putBE_loop: "0 \<le> v \<Longrightarrow> v < 256 ^ n \<Longrightarrow> int (readBE (putBE_loop n v [])) = v"
proof (induction n arbitrary: v)
  case 0
  then show ?case by simp
next
  case (Suc n)
  have "v div 256 < 256 ^ n"
    using Suc.prems by (simp add: div_less_iff_less_mult mult.commute)
  moreover have "int (unat (of_int (v mod 256) :: byte)) = v mod 256"
    by (simp add: unsigned_of_int take_bit_eq_mod)
  ultimately show ?case
    using Suc unfolding putBE_loop_Suc by (simp add: readBE_snoc pos_imp_zdiv_nonneg_iff)
qed

lemma putBE_loop_readBE: "putBE_loop (length bs) (int (readBE bs)) [] = bs"
proof (induction bs rule: rev_induct)
  case Nil
  then show ?case by simp
next
  case (snoc b bs)
  have "uint b < 2 ^ LENGTH(8)" by (rule unsigned_less)
  then have "0 \<le> uint b" "uint b < 256" by simp_all
  then have "int (readBE (bs @ [b])) div 256 = int (readBE bs)"
    and "int (readBE (bs @ [b])) mod 256 = uint b"
    by (simp_all add: readBE_snoc)
  with snoc show ?case by (simp add: putBE_loop_Suc del: putBE_loop.simps)
qed

lemma fits_iff: "(v < 0 \<or> drop_bit (8 * n) v \<noteq> 0) \<longleftrightarrow> \<not> (0 \<le> v \<and> v < 256 ^ n)" for v :: int
proof (cases "v < 0")
  case True
  then show ?thesis by simp
next
  case False
  have "drop_bit (8 * n) v = v div 256 ^ n"
    by (simp add: drop_bit_eq_div power_mult)
  moreover have "v div 256 ^ n = 0 \<longleftrightarrow> v < 256 ^ n"
    using False zdiv_eq_0_iff [of v "256 ^ n"] by (auto simp: not_less intro: order_less_le_trans)
  ultimately show ?thesis using False by auto
qed

lemma putBE_Ok: "0 \<le> v \<Longrightarrow> v < 256 ^ n \<Longrightarrow> putBE n v = Ok (putBE_loop n v [])"
  using fits_iff [of v n] by (simp add: putBE_def)

lemma putBE_Throw: "\<not> (0 \<le> v \<and> v < 256 ^ n) \<Longrightarrow> putBE n v = Throw err_overflow"
  using fits_iff [of v n] by (simp add: putBE_def)

lemma putBE_eq_Ok: "putBE n v = Ok bs \<longleftrightarrow> length bs = n \<and> v = int (readBE bs)"
proof (cases "0 \<le> v \<and> v < 256 ^ n")
  case True
  then show ?thesis
    using readBE_putBE_loop [of v n] putBE_loop_readBE [of bs] by (auto simp: putBE_Ok)
next
  case False
  have "length bs = n \<Longrightarrow> int (readBE bs) < 256 ^ n"
    using readBE_bound [of bs] by (metis of_nat_less_iff of_nat_numeral of_nat_power)
  with False show ?thesis by (auto simp: putBE_Throw)
qed

lemma putBE_ok_iff: "(\<exists>bs. putBE n v = Ok bs) \<longleftrightarrow> 0 \<le> v \<and> v < 256 ^ n"
  by (cases "0 \<le> v \<and> v < 256 ^ n") (auto simp: putBE_Ok putBE_Throw)

lemma length_setLE [simp]: "off + n \<le> length buf \<Longrightarrow> length (setLE n buf off v) = length buf"
  by (simp add: setLE_def)

lemma length_sparseKey [simp]: "length addr = 20 \<Longrightarrow> length (sparseKey tid addr) = 22"
  by (simp add: sparseKey_def)

subsection \<open>Hexadecimal text round-trips\<close>

definition hex_byte :: "byte \<Rightarrow> string" where
  "hex_byte b = [digit (unat b div 16), digit (unat b mod 16)]"

lemma hex_val_digit [simp]: "d < 16 \<Longrightarrow> hex_val (digit d) = Some d"
  by (auto simp: hex_val_def digit_def Let_def)

lemma padStart_to_base_16: "padStart 2 (CHR ''0'') (to_base 16 (unat b)) = hex_byte b" for b :: byte
proof (cases "unat b < 16")
  case True
  moreover have "CHR ''0'' = digit 0" by code_simp
  ultimately show ?thesis by (simp add: to_base.simps padStart_def hex_byte_def)
next
  case False
  have "unat b div 16 < 16" using unat_byte_less [of b] by (simp add: div_less_iff_less_mult)
  with False show ?thesis
    by (simp add: to_base.simps [of 16 "unat b"] to_base.simps [of 16 "unat b div 16"] padStart_def hex_byte_def)
qed

lemma bytesToHex_Nil [simp]: "bytesToHex [] = []"
  by (simp add: bytesToHex_def)

lemma bytesToHex_Cons: "bytesToHex (b # bs) = hex_byte b @ bytesToHex bs"
  by (simp add: bytesToHex_def padStart_to_base_16)

lemma hex_byte_digits: "unat b div 16 < 16" "unat b mod 16 < 16" for b :: byte
  using unat_byte_less [of b] by (simp_all add: div_less_iff_less_mult)

lemma length_bytesToHex [simp]: "length (bytesToHex bs) = 2 * length bs"
  by (induction bs) (simp_all add: bytesToHex_Cons hex_byte_def)

lemma bytesToHex_hex: "list_all (\<lambda>c. hex_val c \<noteq> None) (bytesToHex bs)"
  by (induction bs) (simp_all add: bytesToHex_Cons hex_byte_def hex_byte_digits)

lemma hex_pairs_bytesToHex [simp]: "hex_pairs (bytesToHex bs) = bs"
proof (induction bs)
  case Nil
  then show ?case by simp
next
  case (Cons b bs)
  have "16 * (unat b div 16) + unat b mod 16 = unat b" by simp
  with Cons show ?case by (simp add: bytesToHex_Cons hex_byte_def hex_byte_digits)
qed

lemma strip0x_bytesToHex [simp]: "strip0x (bytesToHex bs) = bytesToHex bs"
proof -
  have x: "hex_val CHR ''x'' = None" "hex_val CHR ''X'' = None" by (simp_all add: hex_val_def)
  have "take 2 (bytesToHex bs) \<noteq> [CHR ''0'', c]" if "hex_val c = None" for c
  proof
    assume "take 2 (bytesToHex bs) = [CHR ''0'', c]"
    then have "c \<in> set (bytesToHex bs)" by (metis in_set_takeD list.set_intros)
    with bytesToHex_hex [of bs] that show False by (auto simp: list_all_iff)
  qed
  with x show ?thesis by (auto simp: strip0x_def)
qed

lemma strip0x_prefix [simp]: "strip0x (CHR ''0'' # CHR ''x'' # s) = s"
  by (simp add: strip0x_def)

lemma hexToBytes_hex:
  assumes "strip0x s = bytesToHex bs"
  shows "hexToBytes s = Ok bs"
  using assms bytesToHex_hex [of bs]
  by (auto simp: hexToBytes_def Let_def list_all_iff list_ex_iff)

lemma hex_val_less: "hex_val c = Some d \<Longrightarrow> d < 16"
  by (auto simp: hex_val_def Let_def split: if_splits)

lemma length_hex_pairs: "length (hex_pairs s) = length s div 2"
  by (induction s rule: hex_pairs.induct) simp_all

lemma hexToBytes_length: "hexToBytes s = Ok bs \<Longrightarrow> length (strip0x s) = 2 * length bs"
  by (auto simp: hexToBytes_def Let_def length_hex_pairs split: if_splits)

lemma toAddress_length: "toAddress a = Ok b \<Longrightarrow> length b = 20"
  by (auto simp: toAddress_def split: if_splits)

lemma toAddress_ABytes [simp]: "length b = 20 \<Longrightarrow> toAddress (ABytes b) = Ok b"
  by (simp add: toAddress_def)

end
