(* ===== verification/Drive_Config.thy ===== *)
theory Drive_Config
  imports Drive_Codec
begin

text \<open>
  The geometry of an accounts drive (\<^verbatim>\<open>Config\<close>, \<^verbatim>\<open>normalizeConfig\<close>, \<^verbatim>\<open>validateConfig\<close> of
  \<^verbatim>\<open>accounts-drive/js/src/drive.ts\<close>). The numbers of a configuration are JavaScript numbers, taken here
  to be integers, negative ones included. The lemmas show that a validated configuration lays the header,
  the accounts table, the token registry and the sparse table out in disjoint regions of the drive.
\<close>

datatype seedLike = SeedBytes bytes | SeedHex string

record Config =
  c_driveLength :: "int option"
  c_capacity :: "int option"
  c_loadLimit :: "int option"
  c_seed :: "seedLike option"
  c_profile :: "int option"
  c_slotSize :: "int option"
  c_tableOffset :: "int option"
  c_registryOffset :: "int option"
  c_registryCapacity :: "int option"
  c_sparseOffset :: "int option"
  c_sparseCapacity :: "int option"
  c_sparseLoadLimit :: "int option"
  c_sparseSlotSize :: "int option"

record NormalizedConfig =
  driveLength :: int
  capacity :: int
  loadLimit :: int
  seed :: bytes
  profile :: int
  slotSize :: int
  tableOffset :: int
  registryOffset :: int
  registryCapacity :: int
  sparseOffset :: int
  sparseCapacity :: int
  sparseLoadLimit :: int
  sparseSlotSize :: int

definition or0 :: "int option \<Rightarrow> int" where
  "or0 x = (case x of None \<Rightarrow> 0 | Some n \<Rightarrow> n)"

definition config_seed :: "Config \<Rightarrow> bytes res" where
  "config_seed config = (case c_seed config of
       None \<Rightarrow> Ok (zeros 32)
     | Some sd \<Rightarrow>
         rbind (case sd of SeedHex s \<Rightarrow> hexToBytes s | SeedBytes b \<Rightarrow> Ok b) (\<lambda>s.
           if length s \<noteq> 32 then Throw (Error ''seed must be 32 bytes'') else Ok s))"

definition config_defaults :: "NormalizedConfig \<Rightarrow> NormalizedConfig" where
  "config_defaults c0 = (
     let c1 = (if slotSize c0 = 0 then c0\<lparr>slotSize := 64\<rparr> else c0);
         c2 = (if tableOffset c1 = 0 then c1\<lparr>tableOffset := int HEADER_SIZE\<rparr> else c1);
         c3 = (if loadLimit c2 = 0 \<and> capacity c2 > 0
               then c2\<lparr>loadLimit := capacity c2 - capacity c2 div 8\<rparr> else c2)
     in if profile c3 = ProfileSparse then
          (let c4 = (if sparseSlotSize c3 = 0 then c3\<lparr>sparseSlotSize := 64\<rparr> else c3)
           in if sparseLoadLimit c4 = 0 \<and> sparseCapacity c4 > 0
              then c4\<lparr>sparseLoadLimit := sparseCapacity c4 - sparseCapacity c4 div 8\<rparr> else c4)
        else c3)"

definition normalizeConfig :: "Config \<Rightarrow> NormalizedConfig res" where
  "normalizeConfig config =
     rbind (config_seed config) (\<lambda>sd. Ok (config_defaults
       \<lparr>driveLength = or0 (c_driveLength config),
        capacity = or0 (c_capacity config),
        loadLimit = or0 (c_loadLimit config),
        seed = sd,
        profile = or0 (c_profile config),
        slotSize = or0 (c_slotSize config),
        tableOffset = or0 (c_tableOffset config),
        registryOffset = or0 (c_registryOffset config),
        registryCapacity = or0 (c_registryCapacity config),
        sparseOffset = or0 (c_sparseOffset config),
        sparseCapacity = or0 (c_sparseCapacity config),
        sparseLoadLimit = or0 (c_sparseLoadLimit config),
        sparseSlotSize = or0 (c_sparseSlotSize config)\<rparr>))"

record Region =
  r_name :: string
  r_off :: int
  r_len :: int

definition overlaps :: "Region \<Rightarrow> Region \<Rightarrow> bool" where
  "overlaps a b \<longleftrightarrow> r_off a < r_off b + r_len b \<and> r_off b < r_off a + r_len a"

fun region_pairs :: "Region list \<Rightarrow> (Region \<times> Region) list" where
  "region_pairs [] = []"
| "region_pairs (r # rs) = map (Pair r) rs @ region_pairs rs"

definition check_slotSize :: "NormalizedConfig \<Rightarrow> unit res" where
  "check_slotSize c = (let ss = slotSize c in
     if profile c = ProfileWide then
       if ss < 128 \<or> \<not> isPow2 ss
       then Throw (Error (''wide slot size '' @ dec_int ss @ '': want a power of two >= 128''))
       else Ok ()
     else if profile c = ProfileSingleAsset then
       if ss \<noteq> 64 \<and> ss \<noteq> 32
       then Throw (Error (''slot size '' @ dec_int ss @
              '': profile 0 takes 64 (standard record) or 32 (compact record)''))
       else Ok ()
     else if ss \<noteq> 64
       then Throw (Error (''slot size '' @ dec_int ss @ '': must be 64 in the sparse profile''))
     else Ok ())"

definition check_registry :: "NormalizedConfig \<Rightarrow> Region list \<Rightarrow> Region list res" where
  "check_registry c regions = (
     let ro = registryOffset c; rc = registryCapacity c; fin = ro + 32 * rc in
     if profile c \<noteq> ProfileSingleAsset \<and> ro = 0
     then Throw (Error (''profile '' @ dec_int (profile c) @ '' requires a token registry''))
     else if ro \<noteq> 0 then
       if rc = 0 \<or> rc > 65536
       then Throw (Error (''registry capacity '' @ dec_int rc @ '' outside [1, 65536]''))
       else if ro mod 32 \<noteq> 0
       then Throw (Error (''registry offset '' @ dec_int ro @ '' not a multiple of 32''))
       else if ro < int HEADER_SIZE then
         if ro < int MIN_REGISTRY_OFFSET \<or> fin > int HEADER_SIZE
         then Throw (Error (''in-header registry ['' @ dec_int ro @ '','' @ dec_int fin @ '') outside [''
                @ dec MIN_REGISTRY_OFFSET @ '','' @ dec HEADER_SIZE @ '')''))
         else Ok regions
       else Ok (regions @ [\<lparr>r_name = ''registry'', r_off = ro, r_len = 32 * rc\<rparr>])
     else Ok regions)"

definition check_sparse :: "NormalizedConfig \<Rightarrow> Region list \<Rightarrow> Region list res" where
  "check_sparse c regions = (
     if profile c = ProfileSparse then
       let sss = sparseSlotSize c in
       if sss \<noteq> 64 \<and> sss \<noteq> 32
       then Throw (Error (''sparse slot size '' @ dec_int sss @ '': want 64 or 32''))
       else if sparseCapacity c < 2
       then Throw (Error (''sparse capacity '' @ dec_int (sparseCapacity c) @ '' < 2''))
       else if sparseLoadLimit c < 1 \<or> sparseLoadLimit c \<ge> sparseCapacity c
       then Throw (Error (''sparse load limit '' @ dec_int (sparseLoadLimit c) @ '' outside [1, capacity-1]''))
       else if sparseOffset c < int HEADER_SIZE \<or> sparseOffset c mod sss \<noteq> 0
       then Throw (Error (''sparse offset '' @ dec_int (sparseOffset c) @ '': want >= '' @ dec HEADER_SIZE
              @ '' and a multiple of the slot size''))
       else Ok (regions @ [\<lparr>r_name = ''sparse table'', r_off = sparseOffset c, r_len = sparseCapacity c * sss\<rparr>])
     else Ok regions)"

definition check_regions :: "NormalizedConfig \<Rightarrow> Region list \<Rightarrow> unit res" where
  "check_regions c regions = (
     case find (\<lambda>r. r_off r + r_len r > driveLength c) regions of
       Some r \<Rightarrow> Throw (Error (r_name r @ '' ['' @ dec_int (r_off r) @ '','' @ dec_int (r_off r + r_len r)
                   @ '') outside drive of '' @ dec_int (driveLength c) @ '' bytes''))
     | None \<Rightarrow>
        (case find (\<lambda>(a, b). overlaps a b) (region_pairs regions) of
           Some (a, b) \<Rightarrow> Throw (Error (r_name a @ '' overlaps '' @ r_name b))
         | None \<Rightarrow> Ok ()))"

definition validateConfig :: "NormalizedConfig \<Rightarrow> unit res" where
  "validateConfig c = (
     if driveLength c = 0 \<or> \<not> isPow2 (driveLength c)
     then Throw (Error (''drive length '' @ dec_int (driveLength c) @ '' is not a power of two''))
     else if profile c > ProfileSparse \<or> profile c < 0
     then Throw (Error (''unknown profile '' @ dec_int (profile c)))
     else rbind (check_slotSize c) (\<lambda>_.
       if capacity c < 2 then Throw (Error (''capacity '' @ dec_int (capacity c) @ '' < 2''))
       else if loadLimit c < 1 \<or> loadLimit c \<ge> capacity c
       then Throw (Error (''load limit '' @ dec_int (loadLimit c) @ '' outside [1, capacity-1]''))
       else if tableOffset c < int HEADER_SIZE \<or> tableOffset c mod slotSize c \<noteq> 0
       then Throw (Error (''table offset '' @ dec_int (tableOffset c) @ '': want >= '' @ dec HEADER_SIZE
              @ '' and a multiple of the slot size''))
       else
         rbind (check_registry c
            [\<lparr>r_name = ''header'', r_off = 0, r_len = int HEADER_SIZE\<rparr>,
             \<lparr>r_name = ''accounts table'', r_off = tableOffset c, r_len = capacity c * slotSize c\<rparr>])
           (\<lambda>regs. rbind (check_sparse c regs) (check_regions c))))"

section \<open>What validation guarantees\<close>

text \<open>The bytes each part of the drive occupies.\<close>

definition header_bytes :: "int set" where
  "header_bytes = {0 ..< int MIN_REGISTRY_OFFSET}"

definition table_bytes :: "NormalizedConfig \<Rightarrow> int set" where
  "table_bytes c = {tableOffset c ..< tableOffset c + capacity c * slotSize c}"

definition registry_bytes :: "NormalizedConfig \<Rightarrow> int set" where
  "registry_bytes c = (if registryOffset c = 0 then {}
     else {registryOffset c ..< registryOffset c + 32 * registryCapacity c})"

definition sparse_bytes :: "NormalizedConfig \<Rightarrow> int set" where
  "sparse_bytes c = (if profile c = ProfileSparse
     then {sparseOffset c ..< sparseOffset c + sparseCapacity c * sparseSlotSize c} else {})"

lemma find_None_all: "List.find P xs = None \<longleftrightarrow> (\<forall>x\<in>set xs. \<not> P x)"
  by (induction xs) auto

lemma find_Some_sat: "List.find P xs = Some x \<Longrightarrow> x \<in> set xs \<and> P x"
  by (induction xs) (auto split: if_splits)

lemma check_regions_Ok:
  "check_regions c regs = Ok () \<longleftrightarrow>
     (\<forall>r\<in>set regs. r_off r + r_len r \<le> driveLength c) \<and>
     (\<forall>(a, b)\<in>set (region_pairs regs). \<not> overlaps a b)"
proof (cases "List.find (\<lambda>r. r_off r + r_len r > driveLength c) regs")
  case (Some r)
  then show ?thesis using find_Some_sat [OF Some] by (auto simp: check_regions_def not_le intro!: bexI [of _ r])
next
  case None
  note inside = None
  show ?thesis
  proof (cases "List.find (\<lambda>(a, b). overlaps a b) (region_pairs regs)")
    case None
    with inside show ?thesis
      using inside [unfolded find_None_all] None [unfolded find_None_all]
      by (auto simp: check_regions_def not_less)
  next
    case (Some ab)
    then show ?thesis using inside find_Some_sat [OF Some]
      by (cases ab) (auto simp: check_regions_def)
  qed
qed

lemma check_slotSize_Ok:
  "check_slotSize c = Ok () \<longleftrightarrow>
    (if profile c = ProfileWide then 128 \<le> slotSize c \<and> isPow2 (slotSize c)
     else if profile c = ProfileSingleAsset then slotSize c = 64 \<or> slotSize c = 32
     else slotSize c = 64)"
  by (auto simp: check_slotSize_def Let_def)

lemma check_registry_Ok:
  "check_registry c regs = Ok regs' \<longleftrightarrow>
    (profile c \<noteq> ProfileSingleAsset \<longrightarrow> registryOffset c \<noteq> 0) \<and>
    (if registryOffset c = 0 then regs' = regs else
       registryCapacity c \<noteq> 0 \<and> registryCapacity c \<le> 65536 \<and> registryOffset c mod 32 = 0 \<and>
       (if registryOffset c < int HEADER_SIZE
        then int MIN_REGISTRY_OFFSET \<le> registryOffset c \<and>
             registryOffset c + 32 * registryCapacity c \<le> int HEADER_SIZE \<and> regs' = regs
        else regs' = regs @ [\<lparr>r_name = ''registry'', r_off = registryOffset c, r_len = 32 * registryCapacity c\<rparr>]))"
  by (auto simp: check_registry_def Let_def not_le not_less)

lemma check_sparse_Ok:
  "check_sparse c regs = Ok regs' \<longleftrightarrow>
    (if profile c = ProfileSparse then
       (sparseSlotSize c = 64 \<or> sparseSlotSize c = 32) \<and> 2 \<le> sparseCapacity c \<and>
       1 \<le> sparseLoadLimit c \<and> sparseLoadLimit c < sparseCapacity c \<and>
       int HEADER_SIZE \<le> sparseOffset c \<and> sparseOffset c mod sparseSlotSize c = 0 \<and>
       regs' = regs @ [\<lparr>r_name = ''sparse table'', r_off = sparseOffset c,
                       r_len = sparseCapacity c * sparseSlotSize c\<rparr>]
     else regs' = regs)"
  by (auto simp: check_sparse_def Let_def not_le not_less)

text \<open>The layout the drive's operations rely on.\<close>

definition geometry :: "NormalizedConfig \<Rightarrow> bool" where
  "geometry c \<longleftrightarrow>
     0 \<le> profile c \<and> profile c \<le> 2 \<and>
     (if profile c = 1 then 128 \<le> slotSize c
      else if profile c = 0 then slotSize c = 64 \<or> slotSize c = 32 else slotSize c = 64) \<and>
     2 \<le> capacity c \<and> 1 \<le> loadLimit c \<and> loadLimit c < capacity c \<and>
     4096 \<le> tableOffset c \<and> tableOffset c + capacity c * slotSize c \<le> driveLength c \<and>
     (profile c \<noteq> 0 \<longrightarrow> registryOffset c \<noteq> 0) \<and>
     (registryOffset c \<noteq> 0 \<longrightarrow>
        256 \<le> registryOffset c \<and> registryCapacity c \<le> 65536 \<and>
        registryOffset c + 32 * registryCapacity c \<le> driveLength c \<and>
        (registryOffset c + 32 * registryCapacity c \<le> tableOffset c \<or>
         tableOffset c + capacity c * slotSize c \<le> registryOffset c)) \<and>
     (profile c = 2 \<longrightarrow>
        (sparseSlotSize c = 64 \<or> sparseSlotSize c = 32) \<and> 2 \<le> sparseCapacity c \<and>
        1 \<le> sparseLoadLimit c \<and> sparseLoadLimit c < sparseCapacity c \<and> 4096 \<le> sparseOffset c \<and>
        sparseOffset c + sparseCapacity c * sparseSlotSize c \<le> driveLength c \<and>
        (tableOffset c + capacity c * slotSize c \<le> sparseOffset c \<or>
         sparseOffset c + sparseCapacity c * sparseSlotSize c \<le> tableOffset c) \<and>
        (registryOffset c + 32 * registryCapacity c \<le> sparseOffset c \<or>
         sparseOffset c + sparseCapacity c * sparseSlotSize c \<le> registryOffset c))"

lemma validateConfig_Ok:
  assumes "validateConfig c = Ok ()"
  obtains regs regs' where
    "isPow2 (driveLength c)" "0 \<le> profile c" "profile c \<le> 2"
    "check_slotSize c = Ok ()"
    "2 \<le> capacity c" "1 \<le> loadLimit c" "loadLimit c < capacity c"
    "4096 \<le> tableOffset c"
    "check_registry c
       [\<lparr>r_name = ''header'', r_off = 0, r_len = int HEADER_SIZE\<rparr>,
        \<lparr>r_name = ''accounts table'', r_off = tableOffset c, r_len = capacity c * slotSize c\<rparr>] = Ok regs"
    "check_sparse c regs = Ok regs'"
    "check_regions c regs' = Ok ()"
  using assms unfolding validateConfig_def
  by (auto simp: profile_defs HEADER_SIZE_def split: if_splits)

lemma validateConfig_geometry:
  assumes "validateConfig c = Ok ()"
  shows "geometry c"
proof -
  obtain regs regs' where c:
    "isPow2 (driveLength c)" "0 \<le> profile c" "profile c \<le> 2"
    "check_slotSize c = Ok ()"
    "2 \<le> capacity c" "1 \<le> loadLimit c" "loadLimit c < capacity c"
    "4096 \<le> tableOffset c"
    "check_registry c
       [\<lparr>r_name = ''header'', r_off = 0, r_len = int HEADER_SIZE\<rparr>,
        \<lparr>r_name = ''accounts table'', r_off = tableOffset c, r_len = capacity c * slotSize c\<rparr>] = Ok regs"
    "check_sparse c regs = Ok regs'"
    "check_regions c regs' = Ok ()"
    using validateConfig_Ok [OF assms] .
  then show ?thesis
    unfolding check_slotSize_Ok check_registry_Ok check_sparse_Ok check_regions_Ok
    by (simp add: geometry_def profile_defs header_offsets overlaps_def split: if_splits)
      (auto simp: overlaps_def)
qed

lemma geometry_disjoint:
  assumes "geometry c"
  shows "header_bytes \<inter> table_bytes c = {}" "header_bytes \<inter> registry_bytes c = {}"
    "header_bytes \<inter> sparse_bytes c = {}" "table_bytes c \<inter> registry_bytes c = {}"
    "table_bytes c \<inter> sparse_bytes c = {}" "registry_bytes c \<inter> sparse_bytes c = {}"
  using assms
  by (auto simp: geometry_def header_bytes_def table_bytes_def registry_bytes_def sparse_bytes_def
      profile_defs MIN_REGISTRY_OFFSET_def)

lemma geometry_inside:
  assumes "geometry c"
  shows "table_bytes c \<union> registry_bytes c \<union> sparse_bytes c \<subseteq> {0 ..< driveLength c}"
  using assms
  by (auto simp: geometry_def table_bytes_def registry_bytes_def sparse_bytes_def profile_defs)

end
