(* ===== verification/Robin_Hood.thy ===== *)
theory Robin_Hood
  imports Prelude
begin

text \<open>
  Robin-hood linear probing on a list of slots (\<^verbatim>\<open>ACCOUNTS-DRIVE-SPEC\<close> section 6), free of bytes and
  of input/output. The drive's \<^verbatim>\<open>#lookup\<close>, \<^verbatim>\<open>#insert\<close> and \<^verbatim>\<open>#remove\<close> are shown to refine these three
  functions; here they are shown to implement a finite map from keys to records.

  A slot is live or empty (\<open>live\<close>), a live slot has a key (\<open>key\<close>), a key has a home (\<open>hk\<close>). The order
  invariant says that walking one slot on, the distance from home grows by at most one; with it a walk
  that meets an empty slot or a record closer to its home than the walk is long has seen enough.
\<close>

section \<open>The three operations on slots\<close>

definition disp :: "nat \<Rightarrow> nat \<Rightarrow> nat \<Rightarrow> nat" where
  "disp C i h = (i + C - h) mod C"

fun rh_lookup ::
  "('r \<Rightarrow> bool) \<Rightarrow> ('r \<Rightarrow> 'k) \<Rightarrow> ('k \<Rightarrow> nat) \<Rightarrow> 'r list \<Rightarrow> 'k \<Rightarrow> nat \<Rightarrow> nat \<Rightarrow> nat option" where
  "rh_lookup live key hk xs k 0 d = None"
| "rh_lookup live key hk xs k (Suc n) d =
     (let i = (hk k + d) mod length xs; s = xs ! i in
      if \<not> live s then None
      else if key s = k then Some i
      else if disp (length xs) i (hk (key s)) < d then None
      else rh_lookup live key hk xs k n (Suc d))"

fun rh_insert ::
  "('r \<Rightarrow> bool) \<Rightarrow> ('r \<Rightarrow> 'k) \<Rightarrow> ('k \<Rightarrow> nat) \<Rightarrow> 'r list \<Rightarrow> 'r \<Rightarrow> nat \<Rightarrow> nat \<Rightarrow> 'r list option" where
  "rh_insert live key hk xs carry 0 d = None"
| "rh_insert live key hk xs carry (Suc n) d =
     (let i = (hk (key carry) + d) mod length xs; s = xs ! i in
      if \<not> live s then Some (xs[i := carry])
      else let e = disp (length xs) i (hk (key s)) in
        if e < d then rh_insert live key hk (xs[i := carry]) s n (Suc e)
        else rh_insert live key hk xs carry n (Suc d))"

fun rh_remove ::
  "('r \<Rightarrow> bool) \<Rightarrow> ('r \<Rightarrow> 'k) \<Rightarrow> ('k \<Rightarrow> nat) \<Rightarrow> 'r \<Rightarrow> 'r list \<Rightarrow> nat \<Rightarrow> nat \<Rightarrow> 'r list option" where
  "rh_remove live key hk blank xs i 0 = None"
| "rh_remove live key hk blank xs i (Suc n) =
     (let j = Suc i mod length xs; s = xs ! j in
      if \<not> live s \<or> disp (length xs) j (hk (key s)) = 0 then Some (xs[i := blank])
      else rh_remove live key hk blank (xs[i := s]) j n)"

text \<open>The invariant, and the map the slots stand for (a linear scan).\<close>

definition psl :: "('r \<Rightarrow> bool) \<Rightarrow> ('r \<Rightarrow> 'k) \<Rightarrow> ('k \<Rightarrow> nat) \<Rightarrow> 'r list \<Rightarrow> nat \<Rightarrow> nat" where
  "psl live key hk xs i =
     (if live (xs ! i) then Suc (disp (length xs) i (hk (key (xs ! i)))) else 0)"

definition rh_ordered :: "('r \<Rightarrow> bool) \<Rightarrow> ('r \<Rightarrow> 'k) \<Rightarrow> ('k \<Rightarrow> nat) \<Rightarrow> 'r list \<Rightarrow> bool" where
  "rh_ordered live key hk xs \<longleftrightarrow>
     (\<forall>i < length xs. psl live key hk xs (Suc i mod length xs) \<le> Suc (psl live key hk xs i))"

definition keys_distinct :: "('r \<Rightarrow> bool) \<Rightarrow> ('r \<Rightarrow> 'k) \<Rightarrow> 'r list \<Rightarrow> bool" where
  "keys_distinct live key xs \<longleftrightarrow> distinct (map key (filter live xs))"

definition tab_get :: "('r \<Rightarrow> bool) \<Rightarrow> ('r \<Rightarrow> 'k) \<Rightarrow> 'r list \<Rightarrow> 'k \<Rightarrow> 'r option" where
  "tab_get live key xs k = find (\<lambda>s. live s \<and> key s = k) xs"

definition live_recs :: "('r \<Rightarrow> bool) \<Rightarrow> 'r list \<Rightarrow> 'r multiset" where
  "live_recs live xs = filter_mset live (mset xs)"

section \<open>Positions on the circle\<close>

lemma mod_twice: "a < C + C \<Longrightarrow> a mod C = (if a < C then a else a - C)" for a C :: nat
  by (simp add: mod_if)

lemma disp_less [simp]: "0 < C \<Longrightarrow> disp C i h < C"
  by (simp add: disp_def)

lemma disp_add:
  assumes "h < C" and "d < C"
  shows "disp C ((h + d) mod C) h = d"
  using assms by (auto simp: disp_def mod_twice)

lemma add_disp:
  assumes "i < C" and "h < C"
  shows "(h + disp C i h) mod C = i"
  using assms by (auto simp: disp_def mod_twice)

lemma disp_Suc:
  assumes "i < C" and "h < C"
  shows "disp C (Suc i mod C) h = Suc (disp C i h) mod C"
proof (cases "Suc i < C")
  case True
  with assms show ?thesis by (auto simp: disp_def mod_Suc_eq Suc_diff_le)
next
  case False
  with assms have "Suc i = C" by simp
  with assms show ?thesis by (cases "h = 0") (auto simp: disp_def mod_twice)
qed

lemma disp_toward_less:
  assumes "i < C" and "e < C" and "e \<noteq> i"
  shows "disp C e (Suc i mod C) < disp C e i"
  using assms by (cases "Suc i < C") (auto simp: disp_def mod_twice)

lemma Suc_mod_inj:
  assumes "i < C" and "j < C" and "Suc i mod C = Suc j mod C"
  shows "i = j"
  using assms by (cases "Suc i < C"; cases "Suc j < C") (auto simp: mod_twice)

lemma Suc_mod_neq: "2 \<le> C \<Longrightarrow> i < C \<Longrightarrow> Suc i mod C \<noteq> i"
  by (cases "Suc i < C") (auto simp: mod_twice)

section \<open>Slots as a map\<close>

lemma keys_distinct_mset:
  "keys_distinct live key xs \<longleftrightarrow> (\<forall>k. count (image_mset key (live_recs live xs)) k \<le> 1)"
proof -
  have "image_mset key (live_recs live xs) = mset (map key (filter live xs))"
    by (simp add: live_recs_def)
  moreover have "distinct ys \<longleftrightarrow> (\<forall>k. count (mset ys) k \<le> 1)" for ys :: "'b list"
  proof -
    have "count (mset ys) k \<le> 1 \<longleftrightarrow> count (mset ys) k = (if k \<in> set ys then 1 else 0)" for k
    proof (cases "k \<in> set ys")
      case True
      then have "0 < count (mset ys) k" by (simp only: set_mset_mset [symmetric] count_greater_zero_iff)
      with True show ?thesis by (simp only: if_True) arith
    next
      case False
      then have "count (mset ys) k = 0"
        by (simp only: set_mset_mset [symmetric] count_eq_zero_iff not_False_eq_True)
      with False show ?thesis by (simp only: if_False) arith
    qed
    then show ?thesis by (simp add: distinct_count_atmost_1)
  qed
  ultimately show ?thesis by (simp add: keys_distinct_def)
qed

lemma keys_distinct_nth:
  assumes "keys_distinct live key xs" and "i < length xs" and "j < length xs"
    and "live (xs ! i)" and "live (xs ! j)" and "key (xs ! i) = key (xs ! j)"
  shows "i = j"
  using assms
proof (induction xs arbitrary: i j)
  case Nil
  then show ?case by simp
next
  case (Cons x xs)
  have tl: "keys_distinct live key xs"
    using Cons.prems(1) by (auto simp: keys_distinct_def split: if_splits)
  have hd: "live x \<Longrightarrow> n < length xs \<Longrightarrow> live (xs ! n) \<Longrightarrow> key x \<noteq> key (xs ! n)" for n
    using Cons.prems(1) by (force simp: keys_distinct_def in_set_conv_nth)
  show ?case
  proof (cases i)
    case 0
    with Cons.prems hd show ?thesis by (cases j) auto
  next
    case (Suc i')
    show ?thesis
    proof (cases j)
      case 0
      with Suc Cons.prems hd [of i'] show ?thesis by auto
    next
      case (Suc j')
      with \<open>i = Suc i'\<close> Cons.prems Cons.IH [OF tl, of i' j'] show ?thesis by simp
    qed
  qed
qed

lemma tab_get_Some_iff:
  assumes "keys_distinct live key xs"
  shows "tab_get live key xs k = Some s \<longleftrightarrow> s \<in># live_recs live xs \<and> key s = k"
proof -
  have "s \<in> set xs \<Longrightarrow> live s \<Longrightarrow> tab_get live key xs (key s) = Some s"
    using assms
  proof (induction xs)
    case Nil
    then show ?case by simp
  next
    case (Cons x xs)
    have tl: "keys_distinct live key xs"
      using Cons.prems(3) by (auto simp: keys_distinct_def split: if_splits)
    show ?case
    proof (cases "s = x")
      case True
      with Cons.prems show ?thesis by (simp add: tab_get_def)
    next
      case False
      with Cons.prems have mem: "s \<in> set xs" by simp
      have "\<not> (live x \<and> key x = key s)"
        using Cons.prems(2,3) mem by (force simp: keys_distinct_def)
      with Cons.IH [OF mem Cons.prems(2) tl] show ?thesis by (auto simp: tab_get_def)
    qed
  qed
  moreover have "tab_get live key xs k = Some s \<Longrightarrow> s \<in> set xs \<and> live s \<and> key s = k"
    by (auto simp: tab_get_def find_Some_iff)
  ultimately show ?thesis by (auto simp: live_recs_def)
qed

lemma tab_get_None_iff:
  "tab_get live key xs k = None \<longleftrightarrow> k \<notin># image_mset key (live_recs live xs)"
  by (auto simp: tab_get_def find_None_iff live_recs_def)

lemma tab_get_nth:
  assumes "keys_distinct live key xs" and "i < length xs" and "live (xs ! i)"
  shows "tab_get live key xs (key (xs ! i)) = Some (xs ! i)"
  using assms by (simp add: tab_get_Some_iff live_recs_def)

lemma insert_keys_distinct:
  assumes "keys_distinct live key xs" and "tab_get live key xs (key r) = None"
    and "live_recs live ys = add_mset r (live_recs live xs)"
  shows "keys_distinct live key ys"
proof -
  have "count (image_mset key (live_recs live xs)) (key r) = 0"
    using assms(2) by (simp only: tab_get_None_iff not_in_iff)
  with assms(1,3) show ?thesis by (simp add: keys_distinct_mset)
qed

lemma insert_tab_get:
  assumes "keys_distinct live key xs" and "tab_get live key xs (key r) = None"
    and "live_recs live ys = add_mset r (live_recs live xs)"
  shows "tab_get live key ys = (tab_get live key xs)(key r \<mapsto> r)"
proof
  fix k
  have kd: "keys_distinct live key ys" by (rule insert_keys_distinct [OF assms])
  have nin: "\<And>s. s \<in># live_recs live xs \<Longrightarrow> key s \<noteq> key r"
    using assms(2) unfolding tab_get_None_iff by (metis image_eqI set_image_mset)
  show "tab_get live key ys k = ((tab_get live key xs)(key r \<mapsto> r)) k"
  proof (cases "k = key r")
    case True
    with kd assms(3) show ?thesis by (simp add: tab_get_Some_iff)
  next
    case False
    have "tab_get live key ys k = Some s \<longleftrightarrow> tab_get live key xs k = Some s" for s
      using False assms(3) by (auto simp: tab_get_Some_iff [OF kd] tab_get_Some_iff [OF assms(1)])
    with False show ?thesis by (auto intro: option_eqI)
  qed
qed

lemma remove_tab_get:
  assumes "keys_distinct live key xs" and "r \<in># live_recs live xs"
    and "live_recs live ys = live_recs live xs - {#r#}"
  shows "keys_distinct live key ys" and "tab_get live key ys = (tab_get live key xs)(key r := None)"
proof -
  obtain M where M: "live_recs live xs = add_mset r M"
    using assms(2) by (metis insert_DiffM)
  with assms(3) have ys: "live_recs live ys = M" by simp
  have cnt: "count (image_mset key M) k + (if k = key r then 1 else 0) \<le> 1" for k
    using spec [OF assms(1) [unfolded keys_distinct_mset M], of k] by (auto simp: count_eq_zero_iff)
  show kd: "keys_distinct live key ys"
    unfolding keys_distinct_mset ys using cnt by (meson add_leE)
  have none: "tab_get live key ys (key r) = None"
    unfolding tab_get_None_iff ys not_in_iff using cnt [of "key r"] by simp
  show "tab_get live key ys = (tab_get live key xs)(key r := None)"
  proof
    fix k
    show "tab_get live key ys k = ((tab_get live key xs)(key r := None)) k"
    proof (cases "k = key r")
      case True
      with none show ?thesis by simp
    next
      case False
      have "tab_get live key ys k = Some s \<longleftrightarrow> tab_get live key xs k = Some s" for s
        using False by (auto simp: tab_get_Some_iff [OF kd] tab_get_Some_iff [OF assms(1)] ys M)
      with False show ?thesis by (auto intro: option_eqI)
    qed
  qed
qed

lemma live_recs_update:
  assumes "i < length xs"
  shows "live_recs live (xs[i := r]) =
    (live_recs live xs - (if live (xs ! i) then {#xs ! i#} else {#}))
      + (if live r then {#r#} else {#})"
  using assms by (simp add: live_recs_def mset_update filter_diff_mset)

lemma nth_in_live_recs: "i < length xs \<Longrightarrow> live (xs ! i) \<Longrightarrow> xs ! i \<in># live_recs live xs"
  by (simp add: live_recs_def)

lemma size_live_recs: "size (live_recs live xs) = length (filter live xs)"
  by (simp add: live_recs_def) (metis mset_filter size_mset)

lemma exists_empty:
  assumes "length (filter live xs) < length xs"
  shows "\<exists>e < length xs. \<not> live (xs ! e)"
proof (rule ccontr)
  assume "\<not> ?thesis"
  then have "filter live xs = xs" by (auto simp: filter_id_conv in_set_conv_nth)
  with assms show False by simp
qed

section \<open>The operations are correct\<close>

text \<open>What the probing relies on: homes lie in a table of at least two slots, and a blank slot is empty.\<close>

locale robin_hood =
  fixes live :: "'r \<Rightarrow> bool" and key :: "'r \<Rightarrow> 'k" and hk :: "'k \<Rightarrow> nat"
    and C :: nat and blank :: 'r
  assumes hk_less: "hk k < C"
    and two_slots: "2 \<le> C"
    and blank_dead: "\<not> live blank"
begin

lemma C_pos: "0 < C"
  using two_slots by simp

lemma orderedD:
  "rh_ordered live key hk xs \<Longrightarrow> length xs = C \<Longrightarrow> i < C \<Longrightarrow>
    psl live key hk xs (Suc i mod C) \<le> Suc (psl live key hk xs i)"
  by (simp add: rh_ordered_def)

lemma chain:
  assumes "rh_ordered live key hk xs" and "length xs = C" and "i < C" and "live (xs ! i)"
    and "e \<le> disp C i (hk (key (xs ! i)))"
  shows "Suc e \<le> psl live key hk xs ((hk (key (xs ! i)) + e) mod C)"
  using assms(5)
proof (induction rule: inc_induct)
  case base
  with assms show ?case by (simp add: add_disp hk_less psl_def)
next
  case (step n)
  let ?h = "hk (key (xs ! i))"
  have "psl live key hk xs (Suc ((?h + n) mod C) mod C) \<le> Suc (psl live key hk xs ((?h + n) mod C))"
    using assms C_pos by (intro orderedD) auto
  with step.IH show ?case by (simp add: mod_Suc_eq)
qed

lemma lookup_walk:
  assumes ord: "rh_ordered live key hk xs" and kd: "keys_distinct live key xs"
    and len: "length xs = C" and i: "i < C" and lv: "live (xs ! i)" and k: "key (xs ! i) = k"
    and e: "e \<le> disp C i (hk k)"
  shows "rh_lookup live key hk xs k (C - e) e = Some i"
  using e
proof (induction rule: inc_induct)
  case base
  have "C - disp C i (hk k) = Suc (C - Suc (disp C i (hk k)))"
    using C_pos by (simp add: Suc_diff_Suc)
  then show ?case using len i lv k by (simp add: add_disp hk_less Let_def)
next
  case (step n)
  let ?j = "(hk k + n) mod C"
  have nC: "n < C" using step.hyps disp_less [OF C_pos, of i "hk k"] by simp
  then have fuel: "C - n = Suc (C - Suc n)" by (simp add: Suc_diff_Suc)
  have "Suc n \<le> psl live key hk xs ?j"
    using chain [OF ord len i lv, of n] step.hyps k by simp
  then have lj: "live (xs ! ?j)" and dj: "n \<le> disp C ?j (hk (key (xs ! ?j)))"
    using len by (auto simp: psl_def split: if_splits)
  have "?j \<noteq> i" using step.hyps disp_add [OF hk_less [of k] nC] by auto
  then have "key (xs ! ?j) \<noteq> k"
    using keys_distinct_nth [OF kd, of ?j i] len i lv lj k C_pos by auto
  with step.IH lj dj fuel len show ?case by (simp add: Let_def)
qed

lemma lookup_sound:
  "rh_lookup live key hk xs k n d = Some i \<Longrightarrow> length xs = C \<Longrightarrow>
    i < C \<and> live (xs ! i) \<and> key (xs ! i) = k"
proof (induction n arbitrary: d)
  case 0
  then show ?case by simp
next
  case (Suc n)
  have "(hk k + d) mod length xs < C" using Suc.prems(2) C_pos by simp
  with Suc show ?case by (auto simp: Let_def split: if_splits)
qed

text \<open>Probing finds what a linear scan finds.\<close>

lemma lookup_correct:
  assumes "rh_ordered live key hk xs" and kd: "keys_distinct live key xs" and len: "length xs = C"
  shows "map_option ((!) xs) (rh_lookup live key hk xs k C 0) = tab_get live key xs k"
proof (cases "tab_get live key xs k")
  case None
  have "rh_lookup live key hk xs k C 0 = None"
  proof (rule ccontr)
    assume "rh_lookup live key hk xs k C 0 \<noteq> None"
    then obtain i where "i < C" and "live (xs ! i)" and "key (xs ! i) = k"
      using lookup_sound len by blast
    with kd len None show False using tab_get_nth [of live key xs i] by simp
  qed
  with None show ?thesis by simp
next
  case (Some s)
  then have "s \<in># live_recs live xs" and k: "key s = k"
    using tab_get_Some_iff [OF kd] by auto
  then obtain i where i: "i < C" "xs ! i = s" and lv: "live s"
    using len by (auto simp: live_recs_def in_set_conv_nth)
  then have "rh_lookup live key hk xs k (C - 0) 0 = Some i"
    using k by (intro lookup_walk [OF assms(1) kd len]) auto
  with Some i show ?thesis by simp
qed

lemma lookup_Some:
  assumes "rh_ordered live key hk xs" and "keys_distinct live key xs" and "length xs = C"
    and "rh_lookup live key hk xs k C 0 = Some i"
  shows "i < C" and "live (xs ! i)" and "key (xs ! i) = k" and "tab_get live key xs k = Some (xs ! i)"
  using assms lookup_sound [of xs k C 0 i] lookup_correct [of xs k] by auto

lemma lookup_None:
  assumes "rh_ordered live key hk xs" and "keys_distinct live key xs" and "length xs = C"
    and "rh_lookup live key hk xs k C 0 = None"
  shows "tab_get live key xs k = None"
  using assms lookup_correct [of xs k] by auto

text \<open>Displacements are bounded by the distance from any empty slot.\<close>

lemma psl_bound:
  assumes ord: "rh_ordered live key hk xs" and len: "length xs = C" and "e < C" and "\<not> live (xs ! e)"
  shows "psl live key hk xs ((e + n) mod C) \<le> n"
proof (induction n)
  case 0
  with assms show ?case by (simp add: psl_def)
next
  case (Suc n)
  have "psl live key hk xs (Suc ((e + n) mod C) mod C) \<le> Suc (psl live key hk xs ((e + n) mod C))"
    using C_pos by (intro orderedD ord len) simp
  with Suc show ?case by (simp add: mod_Suc_eq)
qed

lemma psl_less:
  assumes "rh_ordered live key hk xs" and "length xs = C" and "e < C" and "\<not> live (xs ! e)" and "i < C"
  shows "psl live key hk xs i < C"
proof -
  have "psl live key hk xs ((e + disp C i e) mod C) \<le> disp C i e"
    by (rule psl_bound [OF assms(1-4)])
  moreover have "(e + disp C i e) mod C = i" using assms by (simp add: add_disp)
  ultimately show ?thesis using disp_less [OF C_pos, of i e] by simp
qed

lemma psl_update:
  assumes "length xs = C" and "i < C" and "p < C"
  shows "psl live key hk (xs[p := r]) i =
    (if i = p then (if live r then Suc (disp C p (hk (key r))) else 0) else psl live key hk xs i)"
  using assms by (simp add: psl_def)

lemma ordered_update:
  assumes ord: "rh_ordered live key hk xs" and len: "length xs = C" and p: "p < C"
    and lo: "psl live key hk xs p \<le> (if live r then Suc (disp C p (hk (key r))) else 0)"
    and hi: "\<And>i. i < C \<Longrightarrow> Suc i mod C = p \<Longrightarrow>
        (if live r then Suc (disp C p (hk (key r))) else 0) \<le> Suc (psl live key hk xs i)"
  shows "rh_ordered live key hk (xs[p := r])"
  unfolding rh_ordered_def
proof (intro allI impI)
  fix i
  assume "i < length (xs[p := r])"
  then have i: "i < C" using len by simp
  have j: "Suc i mod C < C" using C_pos by simp
  have ne: "Suc i mod C \<noteq> i" by (rule Suc_mod_neq [OF two_slots i])
  have old: "psl live key hk xs (Suc i mod C) \<le> Suc (psl live key hk xs i)"
    by (rule orderedD [OF ord len i])
  consider "Suc i mod C = p" | "i = p" | "Suc i mod C \<noteq> p" "i \<noteq> p" by blast
  then show "psl live key hk (xs[p := r]) (Suc i mod length (xs[p := r]))
      \<le> Suc (psl live key hk (xs[p := r]) i)"
  proof cases
    case 1
    with hi [OF i] ne len i j p show ?thesis by (auto simp: psl_update)
  next
    case 2
    with old lo ne len i j p show ?thesis by (auto simp: psl_update)
  next
    case 3
    with old len i j p show ?thesis by (simp add: psl_update)
  qed
qed

text \<open>
  The state of an insertion walk: the carried record stands \<open>d\<close> slots from its home, and the slot before has a record
  at least as far from its own (or the walk has just begun).
\<close>

lemma insert_depth:
  assumes "rh_ordered live key hk xs" and "length xs = C" and "e < C" and "\<not> live (xs ! e)"
    and "d = 0 \<or> d \<le> psl live key hk xs ((h + (d - 1)) mod C)"
  shows "d < C"
proof (cases "d = 0")
  case False
  with assms(5) psl_less [OF assms(1-4), of "(h + (d - 1)) mod C"] C_pos show ?thesis by simp
qed (use C_pos in simp)

lemma insert_put:
  assumes ord: "rh_ordered live key hk xs" and len: "length xs = C" and lc: "live carry" and dC: "d < C"
    and prev: "d = 0 \<or> d \<le> psl live key hk xs ((hk (key carry) + (d - 1)) mod C)"
    and here: "psl live key hk xs ((hk (key carry) + d) mod C) \<le> Suc d"
  shows "rh_ordered live key hk (xs[(hk (key carry) + d) mod C := carry])"
    and "psl live key hk (xs[(hk (key carry) + d) mod C := carry]) ((hk (key carry) + d) mod C) = Suc d"
proof -
  let ?h = "hk (key carry)" and ?i = "(hk (key carry) + d) mod C"
  have i: "?i < C" using C_pos by simp
  have di: "disp C ?i ?h = d" by (rule disp_add [OF hk_less dC])
  have hi: "Suc d \<le> Suc (psl live key hk xs j)" if "j < C" "Suc j mod C = ?i" for j
  proof (cases "d = 0")
    case False
    then have "Suc ((?h + (d - 1)) mod C) mod C = ?i" by (simp add: mod_Suc_eq)
    then have "j = (?h + (d - 1)) mod C"
      using that C_pos by (intro Suc_mod_inj [of j C]) auto
    with False prev show ?thesis by simp
  qed simp
  show "rh_ordered live key hk (xs[?i := carry])"
    using here lc di hi by (intro ordered_update ord len i) auto
  show "psl live key hk (xs[?i := carry]) ?i = Suc d" using len i lc di by (simp add: psl_update)
qed

text \<open>
  Inserting. The carried record sits at distance \<open>d\<close> from its home, and the slot before shows that
  distance is not too long; every step keeps that, moves one slot on, and stops at an empty slot.
\<close>

lemma insert_walk:
  assumes "rh_ordered live key hk xs" and "length xs = C" and "live carry"
    and "d = 0 \<or> d \<le> psl live key hk xs ((hk (key carry) + (d - 1)) mod C)"
    and "e < C" and "\<not> live (xs ! e)" and "disp C e ((hk (key carry) + d) mod C) < n"
  shows "\<exists>ys. rh_insert live key hk xs carry n d = Some ys \<and> length ys = C \<and>
    rh_ordered live key hk ys \<and> live_recs live ys = add_mset carry (live_recs live xs)"
  using assms
proof (induction n arbitrary: xs carry d)
  case 0
  then show ?case by simp
next
  case (Suc n)
  note ord = Suc.prems(1) and len = Suc.prems(2) and lc = Suc.prems(3) and prev = Suc.prems(4)
    and e = Suc.prems(5,6) and fuel = Suc.prems(7)
  let ?h = "hk (key carry)"
  let ?i = "(?h + d) mod C"
  let ?s = "xs ! ?i"
  let ?x = "disp C ?i (hk (key ?s))" and ?ys = "xs[?i := carry]"
  have i: "?i < C" using C_pos by simp
  note put = insert_put [OF ord len lc insert_depth [OF ord len e prev] prev]
  consider "\<not> live ?s" | "live ?s" "?x < d" | "live ?s" "\<not> ?x < d" by blast
  then show ?case
  proof cases
    case 1
    with put(1) len lc i show ?thesis by (auto simp: Let_def live_recs_update psl_def)
  next
    case 2
    have si: "(hk (key ?s) + ?x) mod C = ?i" by (rule add_disp [OF i hk_less])
    then have pos: "(hk (key ?s) + Suc ?x) mod C = Suc ?i mod C" by (metis add_Suc_right mod_Suc_eq)
    from 2 len have "psl live key hk xs ?i \<le> Suc d" by (simp add: psl_def)
    note put = put [OF this]
    have "e \<noteq> ?i" using e 2 by auto
    then have "\<not> live (?ys ! e)" "disp C e ((hk (key ?s) + Suc ?x) mod C) < n"
      using e disp_toward_less [OF i e(1)] fuel pos by simp_all
    then obtain zs where zs: "rh_insert live key hk ?ys ?s n (Suc ?x) = Some zs" "length zs = C"
        "rh_ordered live key hk zs" "live_recs live zs = add_mset ?s (live_recs live ?ys)"
      using Suc.IH [of ?ys ?s "Suc ?x"] put len si 2 e(1) by auto
    have "?s \<in># live_recs live xs" using len i 2 by (simp add: nth_in_live_recs)
    then have "live_recs live zs = add_mset carry (live_recs live xs)"
      using zs(4) len i lc 2 by (simp add: live_recs_update)
    with zs 2 len show ?thesis by (simp add: Let_def)
  next
    case 3
    then have "Suc d \<le> psl live key hk xs ((?h + (Suc d - 1)) mod C)"
      using len by (simp add: psl_def)
    moreover have "e \<noteq> ?i" using e 3 by auto
    then have "disp C e ((?h + Suc d) mod C) < n"
      using disp_toward_less [OF i e(1)] fuel by (simp add: mod_Suc_eq)
    ultimately show ?thesis
      using Suc.IH [of xs carry "Suc d"] ord len lc e 3 by (auto simp: Let_def)
  qed
qed

lemma insert_correct:
  assumes "rh_ordered live key hk xs" and "keys_distinct live key xs" and "length xs = C"
    and "live r" and "tab_get live key xs (key r) = None" and "length (filter live xs) < C"
  obtains ys where "rh_insert live key hk xs r C 0 = Some ys" and "length ys = C"
    and "rh_ordered live key hk ys" and "keys_distinct live key ys"
    and "live_recs live ys = add_mset r (live_recs live xs)"
    and "tab_get live key ys = (tab_get live key xs)(key r \<mapsto> r)"
proof -
  obtain e where "e < C" and "\<not> live (xs ! e)"
    using exists_empty [of live xs] assms by auto
  then obtain ys where ys: "rh_insert live key hk xs r C 0 = Some ys" "length ys = C"
      "rh_ordered live key hk ys" "live_recs live ys = add_mset r (live_recs live xs)"
    using insert_walk [of xs r 0 e C] assms C_pos by auto
  with that insert_keys_distinct [OF assms(2,5)] insert_tab_get [OF assms(2,5)] show ?thesis by blast
qed

text \<open>
  Removing. Slot \<open>i\<close> is a hole: its record is stale, and the order holds everywhere but around it. Each
  step fills the hole with the next record, one closer to its home, and the hole moves one slot on.
\<close>

lemma hole_filled:
  assumes len: "length xs = C" and i: "i < C" and C2: "j = Suc i mod C"
    and ord: "\<And>m. m < C \<Longrightarrow> m \<noteq> i \<Longrightarrow> Suc m mod C \<noteq> i \<Longrightarrow>
        psl live key hk xs (Suc m mod C) \<le> Suc (psl live key hk xs m)"
    and le1: "psl live key hk xs j \<le> 1"
  shows "rh_ordered live key hk (xs[i := blank])"
  unfolding rh_ordered_def
proof (intro allI impI)
  fix m
  assume "m < length (xs[i := blank])"
  then have m: "m < C" using len by simp
  have sm: "Suc m mod C < C" using C_pos by simp
  have ne: "Suc m mod C \<noteq> m" by (rule Suc_mod_neq [OF two_slots m])
  consider "m = i" | "Suc m mod C = i" | "m \<noteq> i" "Suc m mod C \<noteq> i" by blast
  then show "psl live key hk (xs[i := blank]) (Suc m mod length (xs[i := blank]))
      \<le> Suc (psl live key hk (xs[i := blank]) m)"
  proof cases
    case 1
    with le1 C2 len m sm ne blank_dead show ?thesis by (simp add: psl_update)
  next
    case 2
    with len m sm blank_dead show ?thesis by (simp add: psl_update)
  next
    case 3
    with ord [OF m] len m sm i show ?thesis by (simp add: psl_update)
  qed
qed

lemma psl_moved_back:
  assumes "length xs = C" and "i < C" and "j = Suc i mod C" and "live (xs ! j)"
    and "disp C j (hk (key (xs ! j))) \<noteq> 0"
  shows "psl live key hk xs j = Suc (Suc (disp C i (hk (key (xs ! j)))))"
proof -
  let ?h = "hk (key (xs ! j))"
  have "disp C j ?h = Suc (disp C i ?h) mod C"
    unfolding assms(3) by (rule disp_Suc [OF assms(2) hk_less])
  moreover have "Suc (disp C i ?h) < C \<or> Suc (disp C i ?h) = C"
    using disp_less [OF C_pos, of i ?h] by linarith
  ultimately have "disp C j ?h = Suc (disp C i ?h)" using assms(5) by auto
  with assms show ?thesis by (simp add: psl_def)
qed

text \<open>
  Backward-shift deletion moves a hole along the run: away from the hole the table stays ordered, and the records on
  its two sides are ordered with the hole's own distance in between.
\<close>

lemma hole_moved:
  assumes len: "length xs = C" and i: "i < C"
    and live: "live (xs ! (Suc i mod C))" and away: "disp C (Suc i mod C) (hk (key (xs ! (Suc i mod C)))) \<noteq> 0"
    and ord: "\<And>m. m < C \<Longrightarrow> m \<noteq> i \<Longrightarrow> Suc m mod C \<noteq> i \<Longrightarrow>
        psl live key hk xs (Suc m mod C) \<le> Suc (psl live key hk xs m)"
    and around: "\<And>m. m < C \<Longrightarrow> Suc m mod C = i \<Longrightarrow>
        psl live key hk xs (Suc i mod C) \<le> Suc (Suc (psl live key hk xs m))"
  defines "ys \<equiv> xs[i := xs ! (Suc i mod C)]"
  shows "m < C \<Longrightarrow> m \<noteq> Suc i mod C \<Longrightarrow> Suc m mod C \<noteq> Suc i mod C \<Longrightarrow>
      psl live key hk ys (Suc m mod C) \<le> Suc (psl live key hk ys m)"
    and "m < C \<Longrightarrow> Suc m mod C = Suc i mod C \<Longrightarrow>
      psl live key hk ys (Suc (Suc i mod C) mod C) \<le> Suc (Suc (psl live key hk ys m))"
proof -
  let ?j = "Suc i mod C"
  have j: "?j < C" and ji: "?j \<noteq> i" using C_pos Suc_mod_neq [OF two_slots i] by simp_all
  have "psl live key hk xs ?j = Suc (Suc (disp C i (hk (key (xs ! ?j)))))"
    using live away by (intro psl_moved_back [OF len i refl]) auto
  then have pi: "Suc (psl live key hk ys i) = psl live key hk xs ?j"
    using len i live by (simp add: psl_update ys_def)
  show "psl live key hk ys (Suc m mod C) \<le> Suc (psl live key hk ys m)"
    if m: "m < C" "m \<noteq> ?j" "Suc m mod C \<noteq> ?j"
  proof -
    have mi: "m \<noteq> i" using m(3) by auto
    have sm: "Suc m mod C < C" using C_pos by simp
    show ?thesis
    proof (cases "Suc m mod C = i")
      case True
      with around [OF m(1)] pi mi len i m show ?thesis by (simp add: psl_update ys_def)
    next
      case False
      with ord [OF m(1) mi] mi len i m sm show ?thesis by (simp add: psl_update ys_def)
    qed
  qed
  show "psl live key hk ys (Suc ?j mod C) \<le> Suc (Suc (psl live key hk ys m))" if m: "m < C" "Suc m mod C = ?j"
  proof -
    have "m = i" using Suc_mod_inj [OF m(1) i] m(2) by simp
    moreover have "Suc ?j mod C \<noteq> i \<Longrightarrow> psl live key hk xs (Suc ?j mod C) \<le> Suc (psl live key hk xs ?j)"
      using ord [OF j ji] by simp
    ultimately show ?thesis using pi len i C_pos by (cases "Suc ?j mod C = i") (auto simp: psl_update ys_def)
  qed
qed

lemma remove_walk:
  assumes "length xs = C" and "i < C" and "live (xs ! i)"
    and "\<And>m. m < C \<Longrightarrow> m \<noteq> i \<Longrightarrow> Suc m mod C \<noteq> i \<Longrightarrow>
        psl live key hk xs (Suc m mod C) \<le> Suc (psl live key hk xs m)"
    and "\<And>m. m < C \<Longrightarrow> Suc m mod C = i \<Longrightarrow>
        psl live key hk xs (Suc i mod C) \<le> Suc (Suc (psl live key hk xs m))"
    and "e < C" and "\<not> live (xs ! e)" and "disp C e i \<le> n"
  shows "\<exists>ys. rh_remove live key hk blank xs i n = Some ys \<and> length ys = C \<and>
    rh_ordered live key hk ys \<and> live_recs live ys = live_recs live xs - {#xs ! i#}"
  using assms
proof (induction n arbitrary: xs i)
  case 0
  then have "disp C e i = 0" by simp
  then have "e = i" using add_disp [of e C i] 0 by simp
  with 0 show ?case by simp
next
  case (Suc n)
  note len = Suc.prems(1) and i = Suc.prems(2) and li = Suc.prems(3) and ord = Suc.prems(4)
    and around = Suc.prems(5) and e = Suc.prems(6,7) and fuel = Suc.prems(8)
  let ?j = "Suc i mod C"
  let ?s = "xs ! ?j"
  have j: "?j < C" using C_pos by simp
  have ji: "?j \<noteq> i" by (rule Suc_mod_neq [OF two_slots i])
  have ei: "e \<noteq> i" using e li by auto
  show ?case
  proof (cases "\<not> live ?s \<or> disp C ?j (hk (key ?s)) = 0")
    case True
    then have "psl live key hk xs ?j \<le> 1" using len by (auto simp: psl_def)
    then have "rh_ordered live key hk (xs[i := blank])"
      by (intro hole_filled [OF len i refl] ord)
    with True len i li blank_dead show ?thesis by (auto simp: Let_def live_recs_update)
  next
    case False
    let ?ys = "xs[i := ?s]"
    have len': "length ?ys = C" and sj: "?ys ! ?j = ?s" using len ji by simp_all
    have moved: "live ?s" "disp C ?j (hk (key ?s)) \<noteq> 0" using False by auto
    have hole: "m < C \<Longrightarrow> m \<noteq> ?j \<Longrightarrow> Suc m mod C \<noteq> ?j \<Longrightarrow> psl live key hk ?ys (Suc m mod C) \<le> Suc (psl live key hk ?ys m)"
      "m < C \<Longrightarrow> Suc m mod C = ?j \<Longrightarrow> psl live key hk ?ys (Suc ?j mod C) \<le> Suc (Suc (psl live key hk ?ys m))" for m
      by (rule hole_moved [OF len i moved]; use ord around in blast)+
    have "disp C e ?j \<le> n" using disp_toward_less [OF i e(1) ei] fuel by simp
    moreover have "live (?ys ! ?j)" using sj False by simp
    moreover have "\<not> live (?ys ! e)" using e ei by simp
    ultimately have "\<exists>zs. rh_remove live key hk blank ?ys ?j n = Some zs \<and> length zs = C \<and>
        rh_ordered live key hk zs \<and> live_recs live zs = live_recs live ?ys - {#?ys ! ?j#}"
      using hole e(1) by (intro Suc.IH [OF len' j]) auto
    then obtain zs where zs: "rh_remove live key hk blank ?ys ?j n = Some zs" "length zs = C"
        "rh_ordered live key hk zs" "live_recs live zs = live_recs live ?ys - {#?ys ! ?j#}"
      by blast
    have "live_recs live zs = live_recs live xs - {#xs ! i#}"
      using zs(4) len i li False sj by (simp add: live_recs_update)
    with zs False len show ?thesis by (simp add: Let_def)
  qed
qed

lemma remove_correct:
  assumes "rh_ordered live key hk xs" and "keys_distinct live key xs" and "length xs = C"
    and "i < C" and "live (xs ! i)" and "length (filter live xs) < C"
  obtains ys where "rh_remove live key hk blank xs i C = Some ys" and "length ys = C"
    and "rh_ordered live key hk ys" and "keys_distinct live key ys"
    and "live_recs live ys = live_recs live xs - {#xs ! i#}"
    and "tab_get live key ys = (tab_get live key xs)(key (xs ! i) := None)"
proof -
  obtain e where e: "e < C" "\<not> live (xs ! e)"
    using exists_empty [of live xs] assms by auto
  have ord: "psl live key hk xs (Suc m mod C) \<le> Suc (psl live key hk xs m)" if "m < C" for m
    using that by (rule orderedD [OF assms(1,3)])
  have around: "psl live key hk xs (Suc i mod C) \<le> Suc (Suc (psl live key hk xs m))"
    if "m < C" "Suc m mod C = i" for m
    using ord [OF that(1)] ord [OF assms(4)] that(2) by simp
  have "disp C e i \<le> C" using disp_less [OF C_pos, of e i] by simp
  then have "\<exists>ys. rh_remove live key hk blank xs i C = Some ys \<and> length ys = C \<and>
      rh_ordered live key hk ys \<and> live_recs live ys = live_recs live xs - {#xs ! i#}"
    using ord around by (intro remove_walk [OF assms(3-5) _ _ e]) simp_all
  then obtain ys where ys: "rh_remove live key hk blank xs i C = Some ys" "length ys = C"
      "rh_ordered live key hk ys" "live_recs live ys = live_recs live xs - {#xs ! i#}"
    by blast
  have mem: "xs ! i \<in># live_recs live xs" using assms(3-5) by (simp add: nth_in_live_recs)
  show ?thesis by (rule that [OF ys(1-3) remove_tab_get(1) [OF assms(2) mem ys(4)] ys(4)
      remove_tab_get(2) [OF assms(2) mem ys(4)]])
qed

text \<open>Writing a record in place, under the same key.\<close>

lemma update_correct:
  assumes "rh_ordered live key hk xs" and "keys_distinct live key xs" and "length xs = C"
    and "i < C" and "live (xs ! i)" and "live r" and "key r = key (xs ! i)"
  shows "rh_ordered live key hk (xs[i := r])" and "keys_distinct live key (xs[i := r])"
    and "tab_get live key (xs[i := r]) = (tab_get live key xs)(key r \<mapsto> r)"
    and "length (filter live (xs[i := r])) = length (filter live xs)"
proof -
  let ?ys = "xs[i := r]"
  have same: "psl live key hk ?ys m = psl live key hk xs m" if "m < C" for m
    using assms that by (simp add: psl_update) (simp add: psl_def)
  then show "rh_ordered live key hk ?ys"
    using assms(1,3) C_pos by (simp add: rh_ordered_def)
  have mem: "xs ! i \<in># live_recs live xs" using assms(3-5) by (simp add: nth_in_live_recs)
  have recs: "live_recs live ?ys = add_mset r (live_recs live xs - {#xs ! i#})"
    using assms by (simp add: live_recs_update)
  let ?zs = "xs[i := blank]"
  have zs: "live_recs live ?zs = live_recs live xs - {#xs ! i#}"
    using assms(3-5) blank_dead by (simp add: live_recs_update)
  note rem = remove_tab_get [OF assms(2) mem zs]
  have none: "tab_get live key ?zs (key r) = None" by (simp only: rem(2) assms(7) fun_upd_same)
  have ys: "live_recs live ?ys = add_mset r (live_recs live ?zs)" by (simp only: recs zs)
  show "keys_distinct live key ?ys" by (rule insert_keys_distinct [OF rem(1) none ys])
  show "tab_get live key ?ys = (tab_get live key xs)(key r \<mapsto> r)"
    by (simp only: insert_tab_get [OF rem(1) none ys] rem(2) assms(7) fun_upd_upd)
  have "size (live_recs live ?ys) = size (live_recs live xs)"
    using recs mem by (simp add: size_Suc_Diff1)
  then show "length (filter live ?ys) = length (filter live xs)" by (simp only: size_live_recs)
qed

end

end
