(* ===== verification/Store.thy ===== *)
theory Store
  imports Prelude
begin

text \<open>
  The byte stores of \<^verbatim>\<open>accounts-drive/js/src/store.ts\<close>: the \<^verbatim>\<open>Store\<close> interface as a record of two
  programs over the store's own state, and its three implementations. \<^verbatim>\<open>MemStore\<close> holds the image;
  \<^verbatim>\<open>FileStore\<close> goes through a file handle of the platform, which is a parameter, and retries short
  transfers; \<^verbatim>\<open>MachineStore\<close> reads through a machine client, also a parameter, and refuses to write.

  What the drive relies on is the locale \<open>byte_store\<close>: inside the image a read returns the bytes and
  changes nothing, and a write replaces exactly the bytes it names.
\<close>

record 's store =
  readAt :: "int \<Rightarrow> int \<Rightarrow> ('s, bytes) prog"
  writeAt :: "int \<Rightarrow> bytes \<Rightarrow> ('s, unit) prog"

section \<open>MemStore\<close>

definition isSafeInteger :: "int \<Rightarrow> bool" where
  "isSafeInteger i \<longleftrightarrow> \<bar>i\<bar> \<le> 2 ^ 53 - 1"

text \<open>The constructor: a zeroed length to allocate, or an existing image.\<close>

datatype lengthOrBytes = OfLength nat | OfBytes bytes

fun MemStore_new :: "lengthOrBytes \<Rightarrow> bytes" where
  "MemStore_new (OfLength n) = zeros n"
| "MemStore_new (OfBytes bs) = bs"

definition MemStore_bounds :: "int \<Rightarrow> int \<Rightarrow> (bytes, unit) prog" where
  "MemStore_bounds off n = (\<lambda>bs.
     if \<not> isSafeInteger off \<or> off < 0 \<or> \<not> isSafeInteger n \<or> n < 0 \<or> int (length bs) < off + n
     then raise (Error (''access ['' @ dec_int off @ '','' @ dec_int (off + n) @
            '') outside drive of '' @ dec (length bs) @ '' bytes'')) bs
     else ret () bs)"

definition MemStore_readAt :: "int \<Rightarrow> int \<Rightarrow> (bytes, bytes) prog" where
  "MemStore_readAt off len =
     bnd (MemStore_bounds off len) (\<lambda>_. gets (\<lambda>bs. slice bs (nat off) (nat len)))"

definition MemStore_writeAt :: "int \<Rightarrow> bytes \<Rightarrow> (bytes, unit) prog" where
  "MemStore_writeAt off bytes =
     bnd (MemStore_bounds off (int (length bytes))) (\<lambda>_. modify (\<lambda>bs. splice bs (nat off) bytes))"

definition MemStore :: "bytes store" where
  "MemStore = \<lparr>readAt = MemStore_readAt, writeAt = MemStore_writeAt\<rparr>"

section \<open>FileStore\<close>

text \<open>
  The file handle of \<^verbatim>\<open>node:fs/promises\<close>: a read returns some bytes at a position, a write says how many
  bytes it wrote there.
\<close>

record 'f handle =
  h_read :: "nat \<Rightarrow> nat \<Rightarrow> ('f, bytes) prog"
  h_write :: "bytes \<Rightarrow> nat \<Rightarrow> ('f, nat) prog"
  h_datasync :: "('f, unit) prog"
  h_close :: "('f, unit) prog"

text \<open>The read loop: \<open>fuel\<close> counts iterations; every iteration that does not throw moves on by at least
  one byte, so the length of the buffer is enough.\<close>

fun FileStore_read_loop :: "'f handle \<Rightarrow> nat \<Rightarrow> nat \<Rightarrow> nat \<Rightarrow> bytes \<Rightarrow> nat \<Rightarrow> ('f, bytes) prog" where
  "FileStore_read_loop h off len fuel buf got =
     (if got < len then
        (case fuel of
           0 \<Rightarrow> lift Diverge
         | Suc fuel' \<Rightarrow>
             bnd (h_read h (len - got) (off + got)) (\<lambda>chunk.
               if chunk = [] then
                 raise (Error (''short read at '' @ dec off @ '': got '' @ dec got @ '' of '' @ dec len @ '' bytes''))
               else FileStore_read_loop h off len fuel' (splice buf got chunk) (got + length chunk)))
      else ret buf)"

fun FileStore_write_loop :: "'f handle \<Rightarrow> nat \<Rightarrow> bytes \<Rightarrow> nat \<Rightarrow> nat \<Rightarrow> ('f, unit) prog" where
  "FileStore_write_loop h off bytes fuel put =
     (if put < length bytes then
        (case fuel of
           0 \<Rightarrow> lift Diverge
         | Suc fuel' \<Rightarrow>
             bnd (h_write h (drop put bytes) (off + put)) (\<lambda>written.
               if written = 0 then raise (Error (''short write at '' @ dec off))
               else FileStore_write_loop h off bytes fuel' (put + written)))
      else ret ())"

declare FileStore_read_loop.simps [simp del] FileStore_write_loop.simps [simp del]

definition FileStore_readAt :: "'f handle \<Rightarrow> int \<Rightarrow> int \<Rightarrow> ('f, bytes) prog" where
  "FileStore_readAt h off len =
     FileStore_read_loop h (nat off) (nat len) (nat len) (zeros (nat len)) 0"

definition FileStore_writeAt :: "'f handle \<Rightarrow> int \<Rightarrow> bytes \<Rightarrow> ('f, unit) prog" where
  "FileStore_writeAt h off bytes = FileStore_write_loop h (nat off) bytes (length bytes) 0"

definition FileStore_sync :: "'f handle \<Rightarrow> ('f, unit) prog" where
  "FileStore_sync h = h_datasync h"

definition FileStore_close :: "'f handle \<Rightarrow> ('f, unit) prog" where
  "FileStore_close h = h_close h"

definition FileStore :: "'f handle \<Rightarrow> 'f store" where
  "FileStore h = \<lparr>readAt = FileStore_readAt h, writeAt = FileStore_writeAt h\<rparr>"

section \<open>MachineStore\<close>

definition MachineStore_readAt ::
  "(int \<Rightarrow> int \<Rightarrow> ('m, bytes) prog) \<Rightarrow> int \<Rightarrow> int \<Rightarrow> int \<Rightarrow> ('m, bytes) prog" where
  "MachineStore_readAt readMemory base off len =
     bnd (readMemory (base + off) len) (\<lambda>data.
       if int (length data) \<noteq> len
       then raise (Error (''read_memory returned '' @ dec (length data) @ '' bytes, want '' @ dec_int len))
       else ret data)"

definition MachineStore_writeAt :: "int \<Rightarrow> bytes \<Rightarrow> ('m, unit) prog" where
  "MachineStore_writeAt off bytes = raise (Error ''store is read-only'')"

definition MachineStore :: "(int \<Rightarrow> int \<Rightarrow> ('m, bytes) prog) \<Rightarrow> int \<Rightarrow> 'm store" where
  "MachineStore readMemory base =
     \<lparr>readAt = MachineStore_readAt readMemory base, writeAt = MachineStore_writeAt\<rparr>"

section \<open>What a client may rely on\<close>

text \<open>The state a write leaves behind.\<close>

definition written :: "'s store \<Rightarrow> 's \<Rightarrow> nat \<Rightarrow> bytes \<Rightarrow> 's" where
  "written S s off bs = snd (writeAt S (int off) bs s)"

locale readable_store =
  fixes S :: "'s store" and contents :: "'s \<Rightarrow> bytes" and ok :: "'s \<Rightarrow> bool"
  assumes read: "ok s \<Longrightarrow> off + n \<le> length (contents s) \<Longrightarrow>
      readAt S (int off) (int n) s = (Ok (slice (contents s) off n), s)"

locale byte_store = readable_store +
  assumes write_ok: "ok s \<Longrightarrow> off + length bs \<le> length (contents s) \<Longrightarrow>
      fst (writeAt S (int off) bs s) = Ok ()"
    and write_keeps: "ok s \<Longrightarrow> off + length bs \<le> length (contents s) \<Longrightarrow> ok (written S s off bs)"
    and write_contents: "ok s \<Longrightarrow> off + length bs \<le> length (contents s) \<Longrightarrow>
      contents (written S s off bs) = splice (contents s) off bs"
begin

lemma write_runs:
  "ok s \<Longrightarrow> off + length bs \<le> length (contents s) \<Longrightarrow>
    writeAt S (int off) bs s = (Ok (), written S s off bs)"
  using write_ok [of s off bs] by (simp add: written_def prod_eq_iff)

lemma read_after_write:
  assumes "ok s" and "off + length bs \<le> length (contents s)"
  shows "bnd (writeAt S (int off) bs) (\<lambda>_. readAt S (int off) (int (length bs))) s
    = (Ok bs, written S s off bs)"
  using assms write_keeps write_contents
  by (simp add: write_runs read splice_simps)

end

section \<open>The three stores meet the contract\<close>

definition mem_ok :: "bytes \<Rightarrow> bool" where
  "mem_ok bs \<longleftrightarrow> length bs < 2 ^ 53"

lemma MemStore_bounds_within:
  assumes "mem_ok bs" and "off + n \<le> length bs"
  shows "MemStore_bounds (int off) (int n) bs = (Ok (), bs)"
  using assms by (simp add: MemStore_bounds_def mem_ok_def isSafeInteger_def)

interpretation mstore: byte_store MemStore "\<lambda>bs. bs" mem_ok
proof unfold_locales
  fix s :: bytes and off n
  assume "mem_ok s" and "off + n \<le> length s"
  then show "readAt MemStore (int off) (int n) s = (Ok (slice s off n), s)"
    by (simp add: MemStore_def MemStore_readAt_def MemStore_bounds_within)
next
  fix s :: bytes and off and bs :: bytes
  assume "mem_ok s" and "off + length bs \<le> length s"
  then have run: "writeAt MemStore (int off) bs s = (Ok (), splice s off bs)"
    by (simp add: MemStore_def MemStore_writeAt_def MemStore_bounds_within)
  then show "fst (writeAt MemStore (int off) bs s) = Ok ()" by simp
  from run show "written MemStore s off bs = splice s off bs" by (simp add: written_def)
  with \<open>mem_ok s\<close> \<open>off + length bs \<le> length s\<close> show "mem_ok (written MemStore s off bs)"
    by (simp add: mem_ok_def)
qed

text \<open>
  What the platform documents of a file handle over an image: a read inside the image returns at least one
  byte and at most as many as asked for, the bytes at that position; a write inside the image writes at
  least one byte and at most those given.
\<close>

definition handle_ok :: "'f handle \<Rightarrow> ('f \<Rightarrow> bytes) \<Rightarrow> bool" where
  "handle_ok h img \<longleftrightarrow>
     (\<forall>f n pos. 0 < n \<longrightarrow> pos + n \<le> length (img f) \<longrightarrow>
        (\<exists>m. 0 < m \<and> m \<le> n \<and> h_read h n pos f = (Ok (slice (img f) pos m), f))) \<and>
     (\<forall>f bs pos. bs \<noteq> [] \<longrightarrow> pos + length bs \<le> length (img f) \<longrightarrow>
        (\<exists>m f'. 0 < m \<and> m \<le> length bs \<and> h_write h bs pos f = (Ok m, f') \<and>
           img f' = splice (img f) pos (take m bs)))"

lemma FileStore_read_loop_runs:
  assumes h: "handle_ok h img"
  shows "off + len \<le> length (img f) \<Longrightarrow> got \<le> len \<Longrightarrow> length buf = len \<Longrightarrow>
    take got buf = slice (img f) off got \<Longrightarrow> len - got \<le> fuel \<Longrightarrow>
    FileStore_read_loop h off len fuel buf got f = (Ok (slice (img f) off len), f)"
proof (induction fuel arbitrary: buf got)
  case 0
  then show ?case by (simp add: FileStore_read_loop.simps)
next
  case (Suc fuel)
  show ?case
  proof (cases "got < len")
    case False
    with Suc.prems show ?thesis by (simp add: FileStore_read_loop.simps)
  next
    case True
    then obtain m where m: "0 < m" "m \<le> len - got"
        and rd: "h_read h (len - got) (off + got) f = (Ok (slice (img f) (off + got) m), f)"
      using h Suc.prems(1) unfolding handle_ok_def by (metis add_diff_inverse_nat add.assoc
          less_or_eq_imp_le linorder_not_less zero_less_diff)
    let ?c = "slice (img f) (off + got) m"
    have lc: "length ?c = m" using m True Suc.prems(1) by simp
    then have ne: "?c \<noteq> []" using m(1) by auto
    let ?b = "splice buf got ?c"
    have "take (got + m) ?b = take got buf @ ?c"
      using lc True m Suc.prems(3) by (simp add: splice_def)
    also have "\<dots> = slice (img f) off (got + m)"
      using Suc.prems(4) by (simp add: slice_def take_add add.commute)
    finally have "FileStore_read_loop h off len fuel ?b (got + m) f = (Ok (slice (img f) off len), f)"
      using Suc.prems m True lc by (intro Suc.IH) auto
    with rd ne lc True show ?thesis by (simp add: FileStore_read_loop.simps [of h off len "Suc fuel"])
  qed
qed

lemma FileStore_write_loop_runs:
  assumes h: "handle_ok h img"
  shows "off + length bs \<le> length (img f) \<Longrightarrow> put \<le> length bs \<Longrightarrow>
    length bs - put \<le> fuel \<Longrightarrow>
    \<exists>f'. FileStore_write_loop h off bs fuel put f = (Ok (), f') \<and>
      img f' = splice (img f) (off + put) (drop put bs)"
proof (induction fuel arbitrary: put f)
  case 0
  then show ?case by (simp add: FileStore_write_loop.simps splice_def)
next
  case (Suc fuel)
  show ?case
  proof (cases "put < length bs")
    case False
    with Suc.prems show ?thesis by (simp add: FileStore_write_loop.simps splice_def)
  next
    case True
    then have "drop put bs \<noteq> []" and "off + put + length (drop put bs) \<le> length (img f)"
      using Suc.prems(1) by auto
    then obtain m f' where m: "0 < m" "m \<le> length (drop put bs)"
        and wr: "h_write h (drop put bs) (off + put) f = (Ok m, f')"
        and im: "img f' = splice (img f) (off + put) (take m (drop put bs))"
      using h unfolding handle_ok_def by blast
    have len: "length (img f') = length (img f)"
      using im m True Suc.prems(1) by simp
    obtain f'' where fin: "FileStore_write_loop h off bs fuel (put + m) f' = (Ok (), f'')"
        and im2: "img f'' = splice (img f') (off + (put + m)) (drop (put + m) bs)"
      using Suc.IH [of f' "put + m"] Suc.prems m True len by fastforce
    have "img f'' = splice (img f) (off + put) (drop put bs)"
      unfolding im2 im using m True Suc.prems(1)
      by (intro nth_equalityI) (auto simp: nth_splice nth_append)
    with wr fin m True show ?thesis by (simp add: FileStore_write_loop.simps [of h off bs "Suc fuel"])
  qed
qed

interpretation fstore: byte_store "FileStore h" img "\<lambda>_. handle_ok h img" for h :: "'f handle" and img
proof unfold_locales
  fix s off n
  assume "handle_ok h img" and "off + n \<le> length (img s)"
  then show "readAt (FileStore h) (int off) (int n) s = (Ok (slice (img s) off n), s)"
    by (simp add: FileStore_def FileStore_readAt_def FileStore_read_loop_runs slice_def)
next
  fix s off and bs :: bytes
  assume h: "handle_ok h img" and "off + length bs \<le> length (img s)"
  then obtain s' where "FileStore_write_loop h off bs (length bs) 0 s = (Ok (), s')"
      and "img s' = splice (img s) off bs"
    using FileStore_write_loop_runs [OF h, of off bs s 0 "length bs"] by auto
  then show "fst (writeAt (FileStore h) (int off) bs s) = Ok ()"
    and "img (written (FileStore h) s off bs) = splice (img s) off bs"
    by (simp_all add: FileStore_def FileStore_writeAt_def written_def)
qed

text \<open>What the machine client documents of \<^verbatim>\<open>read_memory\<close>, for the range that holds the drive.\<close>

definition machine_ok ::
  "(int \<Rightarrow> int \<Rightarrow> ('m, bytes) prog) \<Rightarrow> int \<Rightarrow> ('m \<Rightarrow> bytes) \<Rightarrow> 'm \<Rightarrow> bool" where
  "machine_ok readMemory base drive m \<longleftrightarrow>
     (\<forall>off n. off + n \<le> length (drive m) \<longrightarrow>
        readMemory (base + int off) (int n) m = (Ok (slice (drive m) off n), m))"

interpretation machstore: readable_store "MachineStore readMemory base" drive "machine_ok readMemory base drive"
  for readMemory base drive
  by unfold_locales (simp add: MachineStore_def MachineStore_readAt_def machine_ok_def)

end
