(* ===== verification/Drive_Table.thy ===== *)
theory Drive_Table
  imports Drive_Config Robin_Hood Store
begin

text \<open>
  The probing code of \<^verbatim>\<open>accounts-drive/js/src/drive.ts\<close> (\<^verbatim>\<open>Table\<close>, \<^verbatim>\<open>#counter\<close>, \<^verbatim>\<open>#readSlot\<close>, \<^verbatim>\<open>#lookup\<close>,
  \<^verbatim>\<open>#insert\<close>, \<^verbatim>\<open>#remove\<close>), over any store and for either table. It is shown to refine the slot-list
  functions of Robin_Hood, and so to keep a finite map from keys to slots in the bytes of the store.

  The endless loops of \<^verbatim>\<open>#insert\<close> and \<^verbatim>\<open>#remove\<close> get \<open>capacity\<close> iterations and then give \<open>Diverge\<close>: a walk
  that has passed every slot without leaving the loop has met no empty slot. The lemmas show that they
  return whenever the table has one, which the load limit guarantees.
\<close>

section \<open>Tables\<close>

record Table =
  t_base :: nat
  t_capacity :: nat
  t_slotSize :: nat
  t_countOff :: nat
  t_limit :: nat
  t_keyOf :: "bytes \<Rightarrow> bytes"
  t_liveOff :: nat

definition drive_counter :: "'s store \<Rightarrow> nat \<Rightarrow> ('s, nat) prog" where
  "drive_counter S off = bnd (readAt S (int off) 8) (\<lambda>b. lift (getLE64 b 0))"

definition drive_setCounter :: "'s store \<Rightarrow> nat \<Rightarrow> int \<Rightarrow> ('s, unit) prog" where
  "drive_setCounter S off v = writeAt S (int off) (setLE 8 (zeros 8) 0 v)"

definition readSlot :: "'s store \<Rightarrow> Table \<Rightarrow> nat \<Rightarrow> ('s, bytes) prog" where
  "readSlot S t i = readAt S (int (t_base t + t_slotSize t * i)) (int (t_slotSize t))"

definition writeSlot :: "'s store \<Rightarrow> Table \<Rightarrow> nat \<Rightarrow> bytes \<Rightarrow> ('s, unit) prog" where
  "writeSlot S t i s = writeAt S (int (t_base t + t_slotSize t * i)) s"

definition slot_live :: "Table \<Rightarrow> bytes \<Rightarrow> bool" where
  "slot_live t slot = (\<not> isZero (slice slot (t_liveOff t) 20))"

definition displacement :: "(bytes \<Rightarrow> bytes) \<Rightarrow> bytes \<Rightarrow> Table \<Rightarrow> bytes \<Rightarrow> nat \<Rightarrow> nat res" where
  "displacement H sd t slot at =
     rbind (home H sd (t_keyOf t slot) (t_capacity t)) (\<lambda>h. Ok ((at + t_capacity t - h) mod t_capacity t))"

fun lookup_loop :: "(bytes \<Rightarrow> bytes) \<Rightarrow> bytes \<Rightarrow> 's store \<Rightarrow> Table \<Rightarrow> bytes \<Rightarrow> nat \<Rightarrow> nat \<Rightarrow> nat
    \<Rightarrow> ('s, (nat \<times> bytes) option) prog" where
  "lookup_loop H sd S t key h 0 dist = ret None"
| "lookup_loop H sd S t key h (Suc n) dist =
     (let i = (h + dist) mod t_capacity t in
      bnd (readSlot S t i) (\<lambda>slot.
        if \<not> slot_live t slot then ret None
        else if bytesEqual (t_keyOf t slot) key then ret (Some (i, slot))
        else bnd (lift (displacement H sd t slot i)) (\<lambda>d.
          if d < dist then ret None
          else lookup_loop H sd S t key h n (Suc dist))))"

definition drive_lookup :: "(bytes \<Rightarrow> bytes) \<Rightarrow> bytes \<Rightarrow> 's store \<Rightarrow> Table \<Rightarrow> bytes
    \<Rightarrow> ('s, (nat \<times> bytes) option) prog" where
  "drive_lookup H sd S t key =
     bnd (lift (home H sd key (t_capacity t))) (\<lambda>h. lookup_loop H sd S t key h (t_capacity t) 0)"

fun insert_loop :: "(bytes \<Rightarrow> bytes) \<Rightarrow> bytes \<Rightarrow> 's store \<Rightarrow> Table \<Rightarrow> bytes \<Rightarrow> nat \<Rightarrow> nat \<Rightarrow> nat
    \<Rightarrow> ('s, unit) prog" where
  "insert_loop H sd S t carry h 0 dist = lift Diverge"
| "insert_loop H sd S t carry h (Suc fuel) dist =
     (let i = (h + dist) mod t_capacity t in
      bnd (readSlot S t i) (\<lambda>slot.
        if \<not> slot_live t slot then
          bnd (writeSlot S t i carry) (\<lambda>_.
          bnd (drive_counter S (t_countOff t)) (\<lambda>n.
          drive_setCounter S (t_countOff t) (int n + 1)))
        else
          bnd (lift (displacement H sd t slot i)) (\<lambda>d.
            if d < dist then
              bnd (writeSlot S t i carry) (\<lambda>_.
              bnd (lift (home H sd (t_keyOf t slot) (t_capacity t))) (\<lambda>h'.
              insert_loop H sd S t slot h' fuel (Suc d)))
            else insert_loop H sd S t carry h fuel (Suc dist))))"

definition drive_insert :: "(bytes \<Rightarrow> bytes) \<Rightarrow> bytes \<Rightarrow> 's store \<Rightarrow> Table \<Rightarrow> bytes \<Rightarrow> ('s, unit) prog" where
  "drive_insert H sd S t rec =
     bnd (lift (home H sd (t_keyOf t rec) (t_capacity t))) (\<lambda>h.
       insert_loop H sd S t rec h (t_capacity t) 0)"

fun remove_loop :: "(bytes \<Rightarrow> bytes) \<Rightarrow> bytes \<Rightarrow> 's store \<Rightarrow> Table \<Rightarrow> nat \<Rightarrow> nat \<Rightarrow> ('s, unit) prog" where
  "remove_loop H sd S t i 0 = lift Diverge"
| "remove_loop H sd S t i (Suc fuel) =
     (let j = (i + 1) mod t_capacity t in
      bnd (readSlot S t j) (\<lambda>nxt.
      bnd (if \<not> slot_live t nxt then ret True
           else bnd (lift (displacement H sd t nxt j)) (\<lambda>d. ret (d = 0))) (\<lambda>stop.
        if stop then
          bnd (writeSlot S t i (zeros (t_slotSize t))) (\<lambda>_.
          bnd (drive_counter S (t_countOff t)) (\<lambda>n.
          drive_setCounter S (t_countOff t) (int n - 1)))
        else
          bnd (writeSlot S t i nxt) (\<lambda>_. remove_loop H sd S t j fuel))))"

definition drive_remove :: "(bytes \<Rightarrow> bytes) \<Rightarrow> bytes \<Rightarrow> 's store \<Rightarrow> Table \<Rightarrow> nat \<Rightarrow> ('s, unit) prog" where
  "drive_remove H sd S t i = remove_loop H sd S t i (t_capacity t)"

section \<open>The slots of a byte image\<close>

definition slots :: "Table \<Rightarrow> bytes \<Rightarrow> bytes list" where
  "slots t bs = map (\<lambda>i. slice bs (t_base t + t_slotSize t * i) (t_slotSize t)) [0..<t_capacity t]"

definition with_slots :: "Table \<Rightarrow> bytes \<Rightarrow> bytes list \<Rightarrow> bytes" where
  "with_slots t bs ys = splice bs (t_base t) (concat ys)"

definition rows :: "Table \<Rightarrow> bytes list \<Rightarrow> bool" where
  "rows t ys \<longleftrightarrow> length ys = t_capacity t \<and> (\<forall>y\<in>set ys. length y = t_slotSize t)"

definition tab_count :: "Table \<Rightarrow> bytes \<Rightarrow> nat" where
  "tab_count t bs = le_dec (slice bs (t_countOff t) 8)"

definition with_count :: "Table \<Rightarrow> bytes \<Rightarrow> nat \<Rightarrow> bytes" where
  "with_count t bs n = splice bs (t_countOff t) (le_enc 8 n)"

definition table_ok :: "Table \<Rightarrow> bool" where
  "table_ok t \<longleftrightarrow> 2 \<le> t_capacity t \<and> t_capacity t \<le> 2 ^ 53 \<and> t_limit t < t_capacity t \<and>
     t_countOff t + 8 \<le> t_base t \<and> t_liveOff t + 20 \<le> t_slotSize t"

definition table_in :: "Table \<Rightarrow> bytes \<Rightarrow> bool" where
  "table_in t bs \<longleftrightarrow> t_base t + t_slotSize t * t_capacity t \<le> length bs"

lemma length_concat_rows: "(\<forall>y\<in>set ys. length y = w) \<Longrightarrow> length (concat ys) = w * length ys"
  by (induction ys) simp_all

lemma slice_concat:
  "(\<forall>y\<in>set ys. length y = w) \<Longrightarrow> i < length ys \<Longrightarrow> slice (concat ys) (w * i) w = ys ! i"
proof (induction ys arbitrary: i)
  case Nil
  then show ?case by simp
next
  case (Cons y ys)
  then show ?case by (cases i) (simp_all add: slice_def)
qed

lemma splice_concat:
  "(\<forall>y\<in>set ys. length y = w) \<Longrightarrow> i < length ys \<Longrightarrow> length r = w \<Longrightarrow>
    splice (concat ys) (w * i) r = concat (ys[i := r])"
proof (induction ys arbitrary: i)
  case Nil
  then show ?case by simp
next
  case (Cons y ys)
  show ?case
  proof (cases i)
    case 0
    with Cons show ?thesis by (simp add: splice_def)
  next
    case (Suc j)
    with Cons have "splice (concat ys) (w * j) r = concat (ys[j := r])" by simp
    with Cons.prems Suc show ?thesis by (simp add: splice_def add.assoc)
  qed
qed

lemma slot_range: "i < C \<Longrightarrow> w * i + w \<le> w * C" for i C w :: nat
  by (metis Suc_leI mult_Suc_right mult_le_mono2 add.commute)

lemma rows_concat [simp]: "rows t ys \<Longrightarrow> length (concat ys) = t_slotSize t * t_capacity t"
  using length_concat_rows [of ys "t_slotSize t"] by (simp add: rows_def)

lemma rows_update: "rows t ys \<Longrightarrow> length r = t_slotSize t \<Longrightarrow> rows t (ys[i := r])"
  by (auto simp: rows_def dest: subsetD [OF set_update_subset_insert])

lemma rows_nth [simp]: "rows t ys \<Longrightarrow> i < t_capacity t \<Longrightarrow> length (ys ! i) = t_slotSize t"
  by (simp add: rows_def)

lemma rows_length: "rows t ys \<Longrightarrow> length ys = t_capacity t"
  by (simp add: rows_def)

lemma length_slots [simp]: "length (slots t bs) = t_capacity t"
  by (simp add: slots_def)

lemma nth_slots: "i < t_capacity t \<Longrightarrow>
    slots t bs ! i = slice bs (t_base t + t_slotSize t * i) (t_slotSize t)"
  by (simp add: slots_def)

lemma rows_slots [simp]: "table_in t bs \<Longrightarrow> rows t (slots t bs)"
proof -
  assume fits: "table_in t bs"
  have "length (slice bs (t_base t + t_slotSize t * i) (t_slotSize t)) = t_slotSize t"
    if "i < t_capacity t" for i
    using slot_range [OF that, of "t_slotSize t"] fits by (intro length_slice) (simp add: table_in_def)
  then show ?thesis by (auto simp: rows_def slots_def)
qed

lemma length_with_slots [simp]:
  "rows t ys \<Longrightarrow> table_in t bs \<Longrightarrow> length (with_slots t bs ys) = length bs"
  by (simp add: with_slots_def table_in_def)

lemma table_in_length: "length bs' = length bs \<Longrightarrow> table_in t bs' \<longleftrightarrow> table_in t bs"
  by (simp add: table_in_def)

lemma slice_with_slots:
  assumes "rows t ys" and "table_in t bs" and "i < t_capacity t"
  shows "slice (with_slots t bs ys) (t_base t + t_slotSize t * i) (t_slotSize t) = ys ! i"
proof -
  have "slice (with_slots t bs ys) (t_base t) (t_slotSize t * t_capacity t) = concat ys"
    using assms slice_splice_same [of "t_base t" "concat ys" bs]
    by (simp add: with_slots_def table_in_def)
  then have "slice (concat ys) (t_slotSize t * i) (t_slotSize t)
      = slice (with_slots t bs ys) (t_base t + t_slotSize t * i) (t_slotSize t)"
    using slice_slice [of "t_slotSize t * i" "t_slotSize t" "t_slotSize t * t_capacity t"
        "with_slots t bs ys" "t_base t"] slot_range [OF assms(3), of "t_slotSize t"] by simp
  then show ?thesis using assms slice_concat [of ys "t_slotSize t" i] by (simp add: rows_def)
qed

lemma slots_with_slots [simp]: "rows t ys \<Longrightarrow> table_in t bs \<Longrightarrow> slots t (with_slots t bs ys) = ys"
  by (rule nth_equalityI) (simp_all add: rows_length nth_slots slice_with_slots)

lemma slice_append: "slice bs b (m + n) = slice bs b m @ slice bs (b + m) n"
  by (simp add: slice_def take_add add.commute)

lemma concat_slices: "concat (map (\<lambda>i. slice bs (b + w * i) w) [0..<n]) = slice bs b (w * n)"
proof (induction n)
  case 0
  then show ?case by (simp add: slice_def)
next
  case (Suc n)
  then show ?case using slice_append [of bs b "w * n" w] by (simp add: add.commute)
qed

lemma with_slots_slots [simp]: "table_in t bs \<Longrightarrow> with_slots t bs (slots t bs) = bs"
  by (simp add: with_slots_def slots_def concat_slices splice_slice_id table_in_def)

lemma splice_splice_within:
  assumes "off + length ys \<le> length bs" and "p + length r \<le> length ys"
  shows "splice (splice bs off ys) (off + p) r = splice bs off (splice ys p r)"
  using assms by (intro nth_equalityI) (auto simp: nth_splice)

lemma with_slots_put:
  assumes "rows t ys" and "table_in t bs" and "i < t_capacity t" and "length r = t_slotSize t"
  shows "splice (with_slots t bs ys) (t_base t + t_slotSize t * i) r = with_slots t bs (ys[i := r])"
proof -
  have "splice (with_slots t bs ys) (t_base t + t_slotSize t * i) r
      = splice bs (t_base t) (splice (concat ys) (t_slotSize t * i) r)"
    unfolding with_slots_def
    using assms slot_range [OF assms(3), of "t_slotSize t"]
    by (intro splice_splice_within) (simp_all add: table_in_def)
  also have "splice (concat ys) (t_slotSize t * i) r = concat (ys[i := r])"
    using assms splice_concat [of ys "t_slotSize t" i r] by (simp add: rows_def)
  finally show ?thesis by (simp add: with_slots_def)
qed

lemma tab_count_with_slots [simp]:
  "table_ok t \<Longrightarrow> table_in t bs \<Longrightarrow> rows t ys \<Longrightarrow> tab_count t (with_slots t bs ys) = tab_count t bs"
  by (simp add: tab_count_def with_slots_def table_ok_def table_in_def splice_simps)

lemma count_inside: "table_ok t \<Longrightarrow> table_in t bs \<Longrightarrow> t_countOff t + 8 \<le> length bs"
  by (simp add: table_ok_def table_in_def)

lemma length_with_count [simp]:
  "table_ok t \<Longrightarrow> table_in t bs \<Longrightarrow> length (with_count t bs n) = length bs"
  by (simp add: with_count_def count_inside)

lemma table_in_with_count [simp]:
  "table_ok t \<Longrightarrow> table_in t bs \<Longrightarrow> table_in t (with_count t bs n)"
  by (simp add: table_in_length [OF length_with_count])

lemma table_in_with_slots [simp]: "rows t ys \<Longrightarrow> table_in t bs \<Longrightarrow> table_in t (with_slots t bs ys)"
  by (simp add: table_in_length [OF length_with_slots])

lemma tab_count_with_count:
  "table_ok t \<Longrightarrow> table_in t bs \<Longrightarrow> n < 2 ^ 64 \<Longrightarrow> tab_count t (with_count t bs n) = n"
  by (simp add: tab_count_def with_count_def count_inside splice_simps le_dec_le_enc)

lemma slots_with_count [simp]:
  assumes "table_ok t" and "table_in t bs"
  shows "slots t (with_count t bs n) = slots t bs"
proof (rule nth_equalityI)
  fix i
  assume "i < length (slots t (with_count t bs n))"
  then show "slots t (with_count t bs n) ! i = slots t bs ! i"
    using assms by (simp add: nth_slots with_count_def count_inside table_ok_def slice_splice_disjoint)
qed simp

definition homeOf :: "(bytes \<Rightarrow> bytes) \<Rightarrow> bytes \<Rightarrow> nat \<Rightarrow> bytes \<Rightarrow> nat" where
  "homeOf H sd C k = le_dec (slice (H (sd @ k)) 0 8) mod C"

text \<open>The invariant of a table, the map it holds, and what an operation on it may touch.\<close>

definition tget :: "Table \<Rightarrow> bytes \<Rightarrow> bytes \<Rightarrow> bytes option" where
  "tget t bs = tab_get (slot_live t) (t_keyOf t) (slots t bs)"

definition table_inv :: "(bytes \<Rightarrow> bytes) \<Rightarrow> bytes \<Rightarrow> Table \<Rightarrow> bytes \<Rightarrow> bool" where
  "table_inv H sd t bs \<longleftrightarrow> table_in t bs \<and>
     rh_ordered (slot_live t) (t_keyOf t) (homeOf H sd (t_capacity t)) (slots t bs) \<and>
     keys_distinct (slot_live t) (t_keyOf t) (slots t bs) \<and>
     tab_count t bs = length (filter (slot_live t) (slots t bs)) \<and>
     tab_count t bs \<le> t_limit t"

definition touches :: "Table \<Rightarrow> bytes \<Rightarrow> bytes \<Rightarrow> bool" where
  "touches t bs bs' \<longleftrightarrow> (\<exists>ys n. rows t ys \<and> bs' = with_count t (with_slots t bs ys) n)"

definition table_post ::
  "(bytes \<Rightarrow> bytes) \<Rightarrow> bytes \<Rightarrow> Table \<Rightarrow> bytes \<Rightarrow> bytes \<Rightarrow> (bytes \<Rightarrow> bytes option) \<Rightarrow> nat \<Rightarrow> bool" where
  "table_post H sd t bs bs' m n \<longleftrightarrow>
     touches t bs bs' \<and> table_inv H sd t bs' \<and> tget t bs' = m \<and> tab_count t bs' = n"

lemma with_count_same: "table_ok t \<Longrightarrow> table_in t bs \<Longrightarrow> with_count t bs (tab_count t bs) = bs"
  using le_enc_le_dec [of "slice bs (t_countOff t) 8"]
  by (simp add: with_count_def tab_count_def count_inside splice_slice_id)

lemma touches_slots: "table_ok t \<Longrightarrow> table_in t bs \<Longrightarrow> rows t ys \<Longrightarrow> touches t bs (with_slots t bs ys)"
  unfolding touches_def using with_count_same [of t "with_slots t bs ys"]
  by (intro exI [of _ ys] exI [of _ "tab_count t (with_slots t bs ys)"]) simp

lemma touches_length: "table_ok t \<Longrightarrow> table_in t bs \<Longrightarrow> touches t bs bs' \<Longrightarrow> length bs' = length bs"
  by (auto simp: touches_def)

lemma touches_slice:
  assumes "table_ok t" and "table_in t bs" and "touches t bs bs'"
    and "p + n \<le> t_countOff t \<or> t_countOff t + 8 \<le> p"
    and "p + n \<le> t_base t \<or> t_base t + t_slotSize t * t_capacity t \<le> p"
  shows "slice bs' p n = slice bs p n"
proof -
  obtain ys m where ys: "rows t ys" and bs': "bs' = with_count t (with_slots t bs ys) m"
    using assms(3) by (auto simp: touches_def)
  have "slice bs' p n = slice (with_slots t bs ys) p n"
    unfolding bs' with_count_def
    using assms(1,2,4) ys by (intro slice_splice_disjoint) (simp_all add: count_inside)
  also have "\<dots> = slice bs p n"
    unfolding with_slots_def
    using assms(2,5) ys by (intro slice_splice_disjoint) (simp_all add: table_in_def)
  finally show ?thesis .
qed

section \<open>The interface of a table\<close>

context byte_store
begin

lemma counter_runs:
  assumes "ok s" and "off + 8 \<le> length (contents s)"
  shows "drive_counter S off s = (Ok (le_dec (slice (contents s) off 8)), s)"
proof -
  have "readAt S (int off) 8 s = (Ok (slice (contents s) off 8), s)"
    using read [OF assms] by simp
  then show ?thesis using assms slice_slice [of 0 8 8 "contents s" off]
    by (simp add: drive_counter_def getLE64_def)
qed

lemma setCounter_runs:
  assumes "ok s" and "off + 8 \<le> length (contents s)" and "v < 2 ^ 64"
  obtains s' where "drive_setCounter S off (int v) s = (Ok (), s')" and "ok s'"
    and "contents s' = splice (contents s) off (le_enc 8 v)"
proof -
  have "setLE 8 (zeros 8) 0 (int v) = le_enc 8 v"
    using assms(3) by (simp add: setLE_def splice_def nat_mod_as_int [symmetric])
  with assms that show ?thesis
    using write_runs [of s off "le_enc 8 v"] write_keeps [of s off "le_enc 8 v"]
      write_contents [of s off "le_enc 8 v"] by (simp add: drive_setCounter_def)
qed

end

text \<open>
  A table in a byte store. The digest is a law of the hash the store's user supplies; \<open>table_ok\<close> is what
  a validated geometry gives.
\<close>

locale drive_table = byte_store S contents ok
  for S :: "'s store" and contents :: "'s \<Rightarrow> bytes" and ok :: "'s \<Rightarrow> bool" +
  fixes H :: "bytes \<Rightarrow> bytes" and sd :: bytes and t :: Table
  assumes digest: "ok s \<Longrightarrow> 8 \<le> length (H x)"
    and table: "table_ok t"

sublocale drive_table \<subseteq> rh: robin_hood "slot_live t" "t_keyOf t" "homeOf H sd (t_capacity t)"
  "t_capacity t" "zeros (t_slotSize t)"
proof
  show "homeOf H sd (t_capacity t) k < t_capacity t" for k
    using table by (simp add: homeOf_def table_ok_def)
  show "2 \<le> t_capacity t" using table by (simp add: table_ok_def)
  show "\<not> slot_live t (zeros (t_slotSize t))"
    using table by (simp add: slot_live_def slice_zeros table_ok_def isZero_iff)
qed

context drive_table
begin

abbreviation hk where "hk \<equiv> homeOf H sd (t_capacity t)"

lemma cap_pos: "0 < t_capacity t"
  using table by (simp add: table_ok_def)

lemma home_runs: "ok s \<Longrightarrow> home H sd k (t_capacity t) = Ok (hk k)"
proof -
  assume "ok s"
  moreover have "le_dec (slice (H (sd @ k)) 0 8) mod t_capacity t < 2 ^ 53"
    using table by (intro order_less_le_trans [OF mod_less_divisor]) (simp_all add: table_ok_def)
  ultimately show ?thesis
    using cap_pos digest [of s "sd @ k"] by (simp add: home_def getLE64_def homeOf_def)
qed

lemma displacement_runs:
  "ok s \<Longrightarrow> displacement H sd t slot i = Ok (disp (t_capacity t) i (hk (t_keyOf t slot)))"
  by (simp add: displacement_def home_runs disp_def)

lemma readSlot_runs:
  assumes "ok s" and "table_in t (contents s)" and "i < t_capacity t"
  shows "readSlot S t i s = (Ok (slots t (contents s) ! i), s)"
  unfolding readSlot_def nth_slots [OF assms(3)]
  using assms slot_range [OF assms(3), of "t_slotSize t"] by (intro read) (simp_all add: table_in_def)

lemma writeSlot_runs:
  assumes "ok s" and "contents s = with_slots t b xs" and "rows t xs" and "table_in t b"
    and "i < t_capacity t" and "length r = t_slotSize t"
  obtains s' where "writeSlot S t i r s = (Ok (), s')" and "ok s'"
    and "contents s' = with_slots t b (xs[i := r])"
proof -
  have "t_base t + t_slotSize t * i + length r \<le> length (contents s)"
    using assms slot_range [OF assms(5), of "t_slotSize t"] by (simp add: table_in_def)
  note w = assms(1) this
  show ?thesis
  proof (rule that)
    show "writeSlot S t i r s = (Ok (), written S s (t_base t + t_slotSize t * i) r)"
      unfolding writeSlot_def by (rule write_runs [OF w])
    show "ok (written S s (t_base t + t_slotSize t * i) r)" by (rule write_keeps [OF w])
    show "contents (written S s (t_base t + t_slotSize t * i) r) = with_slots t b (xs[i := r])"
      unfolding write_contents [OF w] assms(2) by (rule with_slots_put [OF assms(3-6)])
  qed
qed

lemma lookup_loop_runs:
  assumes "ok s" and "table_in t (contents s)"
  shows "lookup_loop H sd S t k (hk k) n d s =
    (Ok (map_option (\<lambda>i. (i, slots t (contents s) ! i))
       (rh_lookup (slot_live t) (t_keyOf t) hk (slots t (contents s)) k n d)), s)"
proof (induction n arbitrary: d)
  case 0
  then show ?case by simp
next
  case (Suc n)
  have "(hk k + d) mod t_capacity t < t_capacity t" using cap_pos by simp
  with Suc show ?case
    using assms by (simp add: Let_def readSlot_runs displacement_runs)
qed

lemma lookup_runs:
  assumes "ok s" and "table_in t (contents s)"
  shows "drive_lookup H sd S t k s =
    (Ok (map_option (\<lambda>i. (i, slots t (contents s) ! i))
       (rh_lookup (slot_live t) (t_keyOf t) hk (slots t (contents s)) k (t_capacity t) 0)), s)"
  using assms by (simp add: drive_lookup_def home_runs lookup_loop_runs)

lemma count_up:
  assumes "ok s" and "contents s = with_slots t b ys" and "rows t ys" and "table_in t b"
    and "int (tab_count t b) + v = int n" and "n < 2 ^ 64"
  obtains s' where
    "bnd (drive_counter S (t_countOff t)) (\<lambda>m. drive_setCounter S (t_countOff t) (int m + v)) s = (Ok (), s')"
    "ok s'" "contents s' = with_count t (with_slots t b ys) n"
proof -
  have len: "t_countOff t + 8 \<le> length (contents s)"
    using assms table by (simp add: count_inside)
  have "le_dec (slice (contents s) (t_countOff t) 8) = tab_count t b"
    using assms table by (simp add: tab_count_def [symmetric])
  with counter_runs [OF assms(1) len] have cnt:
      "drive_counter S (t_countOff t) s = (Ok (tab_count t b), s)" by simp
  obtain s' where "drive_setCounter S (t_countOff t) (int n) s = (Ok (), s')" and "ok s'"
      and "contents s' = with_count t (with_slots t b ys) n"
    using setCounter_runs [OF assms(1) len assms(6)] assms(2) unfolding with_count_def by metis
  with that cnt assms(5) show ?thesis by simp
qed

lemma insert_loop_runs:
  assumes "ok s" and "contents s = with_slots t b xs" and "rows t xs" and "table_in t b"
    and "length carry = t_slotSize t" and "tab_count t b + 1 < 2 ^ 64"
    and "rh_insert (slot_live t) (t_keyOf t) hk xs carry n d = Some ys"
  shows "\<exists>s'. insert_loop H sd S t carry (hk (t_keyOf t carry)) n d s = (Ok (), s') \<and> ok s' \<and>
    contents s' = with_count t (with_slots t b ys) (tab_count t b + 1) \<and> rows t ys"
  using assms
proof (induction n arbitrary: s xs carry d)
  case 0
  then show ?case by simp
next
  case (Suc n)
  let ?i = "(hk (t_keyOf t carry) + d) mod t_capacity t"
  have i: "?i < t_capacity t" using cap_pos by simp
  have rd: "readSlot S t ?i s = (Ok (xs ! ?i), s)"
    using Suc.prems i by (simp add: readSlot_runs)
  have len: "length xs = t_capacity t" using Suc.prems by (simp add: rows_length)
  let ?e = "disp (t_capacity t) ?i (hk (t_keyOf t (xs ! ?i)))"
  obtain s1 where s1: "writeSlot S t ?i carry s = (Ok (), s1)" "ok s1"
      "contents s1 = with_slots t b (xs[?i := carry])"
    using writeSlot_runs [OF Suc.prems(1-4) i Suc.prems(5)] .
  have rows1: "rows t (xs[?i := carry])" using Suc.prems by (simp add: rows_update)
  consider "\<not> slot_live t (xs ! ?i)" | "slot_live t (xs ! ?i)" "?e < d" | "slot_live t (xs ! ?i)" "\<not> ?e < d"
    by blast
  then show ?case
  proof cases
    case 1
    then have ys: "ys = xs[?i := carry]" using Suc.prems(7) len by (simp add: Let_def)
    obtain s2 where "bnd (drive_counter S (t_countOff t))
          (\<lambda>m. drive_setCounter S (t_countOff t) (int m + 1)) s1 = (Ok (), s2)"
        "ok s2" "contents s2 = with_count t (with_slots t b ys) (tab_count t b + 1)"
      using count_up [of s1 b ys 1 "tab_count t b + 1"] s1 rows1 ys Suc.prems by auto
    with 1 rd s1 rows1 ys show ?thesis by (simp add: Let_def)
  next
    case 2
    then have "rh_insert (slot_live t) (t_keyOf t) hk (xs[?i := carry]) (xs ! ?i) n (Suc ?e) = Some ys"
      using Suc.prems(7) len by (simp add: Let_def)
    moreover have "length (xs ! ?i) = t_slotSize t" using Suc.prems i by simp
    ultimately show ?thesis
      using Suc.IH [OF s1(2,3) rows1 Suc.prems(4) _ Suc.prems(6)] 2 rd s1 Suc.prems(1)
      by (simp add: Let_def displacement_runs home_runs)
  next
    case 3
    then have "rh_insert (slot_live t) (t_keyOf t) hk xs carry n (Suc d) = Some ys"
      using Suc.prems(7) len by (simp add: Let_def)
    then show ?thesis
      using Suc.IH [OF Suc.prems(1-6)] 3 rd Suc.prems(1) by (simp add: Let_def displacement_runs)
  qed
qed

lemma remove_loop_runs:
  assumes "ok s" and "contents s = with_slots t b xs" and "rows t xs" and "table_in t b"
    and "i < t_capacity t" and "0 < tab_count t b" and "tab_count t b < 2 ^ 64"
    and "rh_remove (slot_live t) (t_keyOf t) hk (zeros (t_slotSize t)) xs i n = Some ys"
  shows "\<exists>s'. remove_loop H sd S t i n s = (Ok (), s') \<and> ok s' \<and>
    contents s' = with_count t (with_slots t b ys) (tab_count t b - 1) \<and> rows t ys"
  using assms
proof (induction n arbitrary: s xs i)
  case 0
  then show ?case by simp
next
  case (Suc n)
  let ?j = "Suc i mod t_capacity t"
  have j: "?j < t_capacity t" using cap_pos by simp
  have rd: "readSlot S t ?j s = (Ok (xs ! ?j), s)"
    using Suc.prems j by (simp add: readSlot_runs)
  have len: "length xs = t_capacity t" using Suc.prems by (simp add: rows_length)
  let ?e = "disp (t_capacity t) ?j (hk (t_keyOf t (xs ! ?j)))"
  show ?case
  proof (cases "\<not> slot_live t (xs ! ?j) \<or> ?e = 0")
    case True
    then have ys: "ys = xs[i := zeros (t_slotSize t)]" using Suc.prems(8) len by (simp add: Let_def)
    obtain s1 where s1: "writeSlot S t i (zeros (t_slotSize t)) s = (Ok (), s1)" "ok s1"
        "contents s1 = with_slots t b ys"
      using writeSlot_runs [OF Suc.prems(1-5), of "zeros (t_slotSize t)"] ys by auto
    have rows1: "rows t ys" using Suc.prems ys by (simp add: rows_update)
    have down: "int (tab_count t b) + - 1 = int (tab_count t b - 1)" "tab_count t b - 1 < 2 ^ 64"
      using Suc.prems(6,7) by simp_all
    obtain s2 where "bnd (drive_counter S (t_countOff t))
          (\<lambda>m. drive_setCounter S (t_countOff t) (int m - 1)) s1 = (Ok (), s2)"
        "ok s2" "contents s2 = with_count t (with_slots t b ys) (tab_count t b - 1)"
      using count_up [OF s1(2,3) rows1 Suc.prems(4) down(1,2)] by auto
    with True rd s1 rows1 Suc.prems(1) show ?thesis
      by (cases "slot_live t (xs ! ?j)") (simp_all add: Let_def displacement_runs)
  next
    case False
    then have "rh_remove (slot_live t) (t_keyOf t) hk (zeros (t_slotSize t)) (xs[i := xs ! ?j]) ?j n = Some ys"
      using Suc.prems(8) len by (simp add: Let_def)
    moreover have lj: "length (xs ! ?j) = t_slotSize t" using Suc.prems j by simp
    moreover obtain s1 where s1: "writeSlot S t i (xs ! ?j) s = (Ok (), s1)" "ok s1"
        "contents s1 = with_slots t b (xs[i := xs ! ?j])"
      using writeSlot_runs [OF Suc.prems(1-5) lj] .
    moreover have "rows t (xs[i := xs ! ?j])" using Suc.prems(3) lj by (simp add: rows_update)
    ultimately show ?thesis
      using Suc.IH [OF s1(2,3) _ Suc.prems(4) j Suc.prems(6,7)] False rd Suc.prems(1)
      by (simp add: Let_def displacement_runs)
  qed
qed

lemma lookup_absent:
  assumes "ok s" and inv: "table_inv H sd t (contents s)" and "tget t (contents s) k = None"
  shows "drive_lookup H sd S t k s = (Ok None, s)"
proof -
  have "map_option ((!) (slots t (contents s)))
      (rh_lookup (slot_live t) (t_keyOf t) hk (slots t (contents s)) k (t_capacity t) 0) = None"
    using inv assms(3) by (simp add: rh.lookup_correct table_inv_def tget_def)
  with assms show ?thesis by (simp add: lookup_runs table_inv_def)
qed

lemma lookup_found:
  assumes "ok s" and inv: "table_inv H sd t (contents s)" and "tget t (contents s) k = Some sl"
  obtains i where "drive_lookup H sd S t k s = (Ok (Some (i, sl)), s)" and "i < t_capacity t"
    and "slots t (contents s) ! i = sl" and "slot_live t sl" and "t_keyOf t sl = k"
proof -
  let ?r = "rh_lookup (slot_live t) (t_keyOf t) hk (slots t (contents s)) k (t_capacity t) 0"
  have tab: "rh_ordered (slot_live t) (t_keyOf t) hk (slots t (contents s))"
    "keys_distinct (slot_live t) (t_keyOf t) (slots t (contents s))" "table_in t (contents s)"
    using inv by (simp_all add: table_inv_def)
  have "map_option ((!) (slots t (contents s))) ?r = Some sl"
    using tab assms(3) by (simp add: rh.lookup_correct tget_def)
  then obtain i where i: "?r = Some i" "slots t (contents s) ! i = sl" by auto
  with that rh.lookup_Some [OF tab(1,2) length_slots i(1)] lookup_runs [OF assms(1) tab(3), of k]
  show ?thesis by simp
qed

lemma table_post_counted:
  assumes "table_in t b" and "rows t ys" and "n \<le> t_limit t" and "n = length (filter (slot_live t) ys)"
    and "rh_ordered (slot_live t) (t_keyOf t) hk ys" and "keys_distinct (slot_live t) (t_keyOf t) ys"
  shows "table_post H sd t b (with_count t (with_slots t b ys) n) (tab_get (slot_live t) (t_keyOf t) ys) n"
proof -
  have "n < 2 ^ 64" using assms(3) table by (simp add: table_ok_def)
  then show ?thesis
    using assms table
    by (auto simp: table_post_def touches_def table_inv_def tget_def tab_count_with_count)
qed

lemma insert_ok:
  assumes "ok s" and inv: "table_inv H sd t (contents s)" and "length r = t_slotSize t" and "slot_live t r"
    and "tget t (contents s) (t_keyOf t r) = None" and room: "tab_count t (contents s) < t_limit t"
  obtains s' where "drive_insert H sd S t r s = (Ok (), s')" and "ok s'"
    and "table_post H sd t (contents s) (contents s') ((tget t (contents s))(t_keyOf t r \<mapsto> r))
      (tab_count t (contents s) + 1)"
proof -
  let ?xs = "slots t (contents s)"
  have tab: "table_in t (contents s)" "rh_ordered (slot_live t) (t_keyOf t) hk ?xs"
    "keys_distinct (slot_live t) (t_keyOf t) ?xs"
    and cnt: "tab_count t (contents s) = length (filter (slot_live t) ?xs)"
    using inv by (simp_all add: table_inv_def)
  have "length (filter (slot_live t) ?xs) < t_capacity t"
    using room cnt table by (simp add: table_ok_def)
  then obtain ys where ys: "rh_insert (slot_live t) (t_keyOf t) hk ?xs r (t_capacity t) 0 = Some ys"
      "rh_ordered (slot_live t) (t_keyOf t) hk ys" "keys_distinct (slot_live t) (t_keyOf t) ys"
      "live_recs (slot_live t) ys = add_mset r (live_recs (slot_live t) ?xs)"
      "tab_get (slot_live t) (t_keyOf t) ys = (tab_get (slot_live t) (t_keyOf t) ?xs)(t_keyOf t r \<mapsto> r)"
    using rh.insert_correct [OF tab(2,3) length_slots assms(4)] assms(5) unfolding tget_def by metis
  have n: "tab_count t (contents s) + 1 = length (filter (slot_live t) ys)"
    using ys(4) cnt size_live_recs [of "slot_live t" ys] size_live_recs [of "slot_live t" ?xs] by simp
  have "tab_count t (contents s) + 1 < 2 ^ 64" using room table by (simp add: table_ok_def)
  then obtain s' where s': "drive_insert H sd S t r s = (Ok (), s')" "ok s'" "rows t ys"
      "contents s' = with_count t (with_slots t (contents s) ys) (tab_count t (contents s) + 1)"
    using insert_loop_runs [OF assms(1) _ _ tab(1) assms(3) _ ys(1)] tab(1) assms(1)
    by (auto simp: drive_insert_def home_runs)
  have "tab_count t (contents s) + 1 \<le> t_limit t" using room by simp
  from table_post_counted [OF tab(1) s'(3) this n ys(2,3)] that s' ys(5) show ?thesis
    by (simp add: tget_def)
qed

lemma update_ok:
  assumes "ok s" and inv: "table_inv H sd t (contents s)" and "i < t_capacity t"
    and "slot_live t (slots t (contents s) ! i)" and "slot_live t r" and "length r = t_slotSize t"
    and "t_keyOf t r = t_keyOf t (slots t (contents s) ! i)"
  obtains s' where "writeSlot S t i r s = (Ok (), s')" and "ok s'"
    and "table_post H sd t (contents s) (contents s') ((tget t (contents s))(t_keyOf t r \<mapsto> r))
      (tab_count t (contents s))"
proof -
  let ?xs = "slots t (contents s)"
  have tab: "table_in t (contents s)" "rh_ordered (slot_live t) (t_keyOf t) hk ?xs"
    "keys_distinct (slot_live t) (t_keyOf t) ?xs"
    using inv by (simp_all add: table_inv_def)
  note up = rh.update_correct [OF tab(2,3) length_slots assms(3,4,5,7)]
  have rs: "rows t (?xs[i := r])" using tab(1) assms(6) by (simp add: rows_update)
  obtain s' where s': "writeSlot S t i r s = (Ok (), s')" "ok s'"
      "contents s' = with_slots t (contents s) (?xs[i := r])"
    using writeSlot_runs [OF assms(1) _ _ tab(1) assms(3,6), of ?xs] tab(1) by auto
  have "table_post H sd t (contents s) (contents s') ((tget t (contents s))(t_keyOf t r \<mapsto> r))
      (tab_count t (contents s))"
    using inv up rs tab(1) table touches_slots [OF table tab(1) rs]
    by (simp add: table_post_def table_inv_def tget_def s'(3))
  with that s' show ?thesis by blast
qed

lemma remove_ok:
  assumes "ok s" and inv: "table_inv H sd t (contents s)" and "i < t_capacity t"
    and live: "slot_live t (slots t (contents s) ! i)"
  obtains s' where "drive_remove H sd S t i s = (Ok (), s')" and "ok s'"
    and "table_post H sd t (contents s) (contents s')
      ((tget t (contents s))(t_keyOf t (slots t (contents s) ! i) := None)) (tab_count t (contents s) - 1)"
proof -
  let ?xs = "slots t (contents s)"
  have tab: "table_in t (contents s)" "rh_ordered (slot_live t) (t_keyOf t) hk ?xs"
    "keys_distinct (slot_live t) (t_keyOf t) ?xs"
    and cnt: "tab_count t (contents s) = length (filter (slot_live t) ?xs)"
    and lim: "tab_count t (contents s) \<le> t_limit t"
    using inv by (simp_all add: table_inv_def)
  have "length (filter (slot_live t) ?xs) < t_capacity t"
    using lim cnt table by (simp add: table_ok_def)
  then obtain ys where ys:
      "rh_remove (slot_live t) (t_keyOf t) hk (zeros (t_slotSize t)) ?xs i (t_capacity t) = Some ys"
      "rh_ordered (slot_live t) (t_keyOf t) hk ys" "keys_distinct (slot_live t) (t_keyOf t) ys"
      "live_recs (slot_live t) ys = live_recs (slot_live t) ?xs - {#?xs ! i#}"
      "tab_get (slot_live t) (t_keyOf t) ys = (tab_get (slot_live t) (t_keyOf t) ?xs)(t_keyOf t (?xs ! i) := None)"
    using rh.remove_correct [OF tab(2,3) length_slots assms(3) live] by metis
  have mem: "?xs ! i \<in># live_recs (slot_live t) ?xs" using live assms(3) by (simp add: nth_in_live_recs)
  have n: "tab_count t (contents s) - 1 = length (filter (slot_live t) ys)"
    using ys(4) mem cnt size_live_recs [of "slot_live t" ys] size_live_recs [of "slot_live t" ?xs]
    by (simp add: size_Diff_singleton)
  have "?xs ! i \<in> set (filter (slot_live t) ?xs)" using live assms(3) by simp
  then have pos: "0 < tab_count t (contents s)" using cnt by (auto simp del: set_filter)
  have "tab_count t (contents s) < 2 ^ 64" using lim table by (simp add: table_ok_def)
  then obtain s' where s': "drive_remove H sd S t i s = (Ok (), s')" "ok s'" "rows t ys"
      "contents s' = with_count t (with_slots t (contents s) ys) (tab_count t (contents s) - 1)"
    using remove_loop_runs [OF assms(1) _ _ tab(1) assms(3) pos _ ys(1)] tab(1)
    by (auto simp: drive_remove_def)
  have "tab_count t (contents s) - 1 \<le> t_limit t" using lim by simp
  from table_post_counted [OF tab(1) s'(3) this n ys(2,3)] that s' ys(5) show ?thesis
    by (simp add: tget_def)
qed

end

end
