(* ===== verification/Drive.thy ===== *)
theory Drive
  imports Drive_Table
begin

text \<open>
  The accounts drive (\<^verbatim>\<open>accounts-drive/js/src/drive.ts\<close>, class \<^verbatim>\<open>Drive\<close>, \<^verbatim>\<open>format\<close>, \<^verbatim>\<open>open\<close>): accounts, the
  token registry and token balances in a byte store. An open drive is its cached geometry and registry
  (\<open>Drive\<close>); its operations are programs over the pair of the store's state and the drive. \<open>S\<close> is the
  store, \<open>H\<close> is keccak-256.
\<close>

section \<open>Data\<close>

record Token =
  tok_address :: bytes
  tok_width :: nat

record Account =
  acc_address :: bytes
  acc_nonce :: nat
  acc_balance :: nat

record Drive =
  d_cfg :: NormalizedConfig
  d_tokens :: "Token list"
  colOff :: "nat list"

definition on_store :: "('s, 'a) prog \<Rightarrow> ('s \<times> 'd, 'a) prog" where
  "on_store m = zoom fst (\<lambda>s sd. (s, snd sd)) m"

definition on_drive :: "('d \<Rightarrow> 'd) \<Rightarrow> ('s \<times> 'd, unit) prog" where
  "on_drive f = modify (\<lambda>(s, d). (s, f d))"

text \<open>\<^verbatim>\<open>buf.set(src, off)\<close>, and \<^verbatim>\<open>putBE\<close> into the view \<^verbatim>\<open>buf.subarray(off, off + w)\<close>.\<close>

definition arr_set :: "bytes \<Rightarrow> nat \<Rightarrow> bytes \<Rightarrow> bytes res" where
  "arr_set buf off src = (if off + length src \<le> length buf then Ok (splice buf off src)
     else Throw (RangeError ''offset is out of bounds''))"

definition putBE_sub :: "bytes \<Rightarrow> nat \<Rightarrow> nat \<Rightarrow> int \<Rightarrow> bytes res" where
  "putBE_sub buf off w v =
     rbind (putBE (length (slice buf off w)) v) (\<lambda>b. Ok (if b = [] then buf else splice buf off b))"

section \<open>Tables\<close>

definition accountsTable :: "NormalizedConfig \<Rightarrow> Table" where
  "accountsTable c =
     \<lparr>t_base = nat (tableOffset c), t_capacity = nat (capacity c), t_slotSize = nat (slotSize c),
      t_countOff = OFF_LIVE_COUNT, t_limit = nat (loadLimit c),
      t_keyOf = (\<lambda>s. slice s 0 20), t_liveOff = 0\<rparr>"

definition sparseTable :: "NormalizedConfig \<Rightarrow> Table" where
  "sparseTable c =
     \<lparr>t_base = nat (sparseOffset c), t_capacity = nat (sparseCapacity c), t_slotSize = nat (sparseSlotSize c),
      t_countOff = OFF_SPARSE_LIVE_COUNT, t_limit = nat (sparseLoadLimit c),
      t_keyOf = (\<lambda>s. splice (splice (zeros 22) 0 (slice s 0 2)) 2 (slice s 4 20)), t_liveOff = 4\<rparr>"

definition liveCount :: "'s store \<Rightarrow> ('s \<times> Drive, nat) prog" where
  "liveCount S = on_store (drive_counter S OFF_LIVE_COUNT)"

definition sparseLiveCount :: "'s store \<Rightarrow> ('s \<times> Drive, nat) prog" where
  "sparseLiveCount S = on_store (drive_counter S OFF_SPARSE_LIVE_COUNT)"

definition tokenCount :: "'s store \<Rightarrow> ('s \<times> Drive, nat) prog" where
  "tokenCount S = on_store (drive_counter S OFF_TOKEN_COUNT)"

section \<open>The registry cache\<close>

fun reload_loop :: "'s store \<Rightarrow> NormalizedConfig \<Rightarrow> nat \<Rightarrow> nat \<Rightarrow> nat \<Rightarrow> ('s \<times> Drive, unit) prog" where
  "reload_loop S c 0 i col = ret ()"
| "reload_loop S c (Suc n) i col =
     bnd (on_store (readAt S (registryOffset c + 32 * int i) 32)) (\<lambda>e.
       let width = unat (e ! 20) in
       if width \<noteq> 8 \<and> width \<noteq> 16 \<and> width \<noteq> 32
       then raise (err_badWidth (Some (''registry entry '' @ dec i @
              '': balance width must be 8, 16 or 32 ('' @ dec width @ '')'')))
       else
         bnd (on_drive (\<lambda>d. d\<lparr>d_tokens := d_tokens d @ [\<lparr>tok_address = slice e 0 20, tok_width = width\<rparr>],
                             colOff := colOff d @ [col]\<rparr>)) (\<lambda>_.
         reload_loop S c n (Suc i) (col + width)))"

definition reloadRegistry :: "'s store \<Rightarrow> ('s \<times> Drive, unit) prog" where
  "reloadRegistry S =
     bnd (on_drive (\<lambda>d. d\<lparr>d_tokens := [], colOff := []\<rparr>)) (\<lambda>_.
     bnd (gets (d_cfg \<circ> snd)) (\<lambda>c.
       if registryOffset c = 0 then ret ()
       else
         bnd (on_store (drive_counter S OFF_TOKEN_COUNT)) (\<lambda>cnt.
           let n = toNumber cnt in
           if int n > registryCapacity c
           then raise (Error (''token count '' @ dec n @ '' exceeds registry capacity '' @ dec_int (registryCapacity c)))
           else reload_loop S c n 0 64)))"

section \<open>Accounts\<close>

definition compact :: "NormalizedConfig \<Rightarrow> bool" where
  "compact c \<longleftrightarrow> profile c = ProfileSingleAsset \<and> slotSize c = 32"

definition decodeAccount :: "NormalizedConfig \<Rightarrow> bytes \<Rightarrow> (nat \<times> nat) res" where
  "decodeAccount c slot =
     (if compact c then rbind (getLE32 slot 20) (\<lambda>n. Ok (n, readBE (slice slot 24 8)))
      else rbind (getLE64 slot 24) (\<lambda>n. Ok (n, readBE (slice slot 32 32))))"

definition encodeAccount :: "NormalizedConfig \<Rightarrow> bytes \<Rightarrow> int \<Rightarrow> int \<Rightarrow> bytes res" where
  "encodeAccount c addr nonce balance =
     (if compact c then
        if nonce > 0xffffffff then Throw err_overflow
        else putBE_sub (setLE 4 (splice (zeros 32) 0 addr) 20 nonce) 24 8 balance
      else putBE_sub (setLE 8 (splice (zeros 64) 0 addr) 24 nonce) 32 32 balance)"

definition checked_address :: "AddressLike \<Rightarrow> ('s, bytes) prog" where
  "checked_address addr =
     bnd (lift (toAddress addr)) (\<lambda>address. if isZero address then raise err_zeroAddress else ret address)"

definition getAccount :: "(bytes \<Rightarrow> bytes) \<Rightarrow> 's store \<Rightarrow> AddressLike \<Rightarrow> ('s \<times> Drive, Account option) prog" where
  "getAccount H S addr =
     bnd (checked_address addr) (\<lambda>address.
     bnd (gets (d_cfg \<circ> snd)) (\<lambda>c.
     bnd (on_store (drive_lookup H (seed c) S (accountsTable c) address)) (\<lambda>found.
       case found of
         None \<Rightarrow> ret None
       | Some (_, slot) \<Rightarrow>
           bnd (lift (decodeAccount c slot)) (\<lambda>(nonce, balance).
             ret (Some \<lparr>acc_address = address, acc_nonce = nonce, acc_balance = balance\<rparr>)))))"

definition setAccount :: "(bytes \<Rightarrow> bytes) \<Rightarrow> 's store \<Rightarrow> AddressLike \<Rightarrow> int \<Rightarrow> int \<Rightarrow> ('s \<times> Drive, unit) prog" where
  "setAccount H S addr nonce balance =
     bnd (checked_address addr) (\<lambda>address.
     bnd (gets (d_cfg \<circ> snd)) (\<lambda>c.
     bnd (lift (encodeAccount c address nonce balance)) (\<lambda>rec.
       let t = accountsTable c in
       bnd (on_store (drive_lookup H (seed c) S t address)) (\<lambda>found.
         case found of
           Some (i, slot) \<Rightarrow>
             bnd (lift (arr_set slot 0 rec)) (\<lambda>slot'. on_store (writeSlot S t i slot'))
         | None \<Rightarrow>
             bnd (on_store (drive_counter S (t_countOff t))) (\<lambda>n.
               if n \<ge> t_limit t then raise (err_tableFull None)
               else
                 bnd (lift (arr_set (zeros (t_slotSize t)) 0 rec)) (\<lambda>full.
                   on_store (drive_insert H (seed c) S t full)))))))"

definition deleteAccount :: "(bytes \<Rightarrow> bytes) \<Rightarrow> 's store \<Rightarrow> AddressLike \<Rightarrow> bool \<Rightarrow> ('s \<times> Drive, bool) prog" where
  "deleteAccount H S addr force =
     bnd (checked_address addr) (\<lambda>address.
     bnd (gets (d_cfg \<circ> snd)) (\<lambda>c.
       let t = accountsTable c in
       bnd (on_store (drive_lookup H (seed c) S t address)) (\<lambda>found.
         case found of
           None \<Rightarrow> ret False
         | Some (i, slot) \<Rightarrow>
             bnd (lift (decodeAccount c slot)) (\<lambda>(nonce, _).
               if \<not> force \<and> nonce \<noteq> 0 then raise err_nonceProtected
               else bnd (on_store (drive_remove H (seed c) S t i)) (\<lambda>_. ret True)))))"

section \<open>The token registry\<close>

fun token_index :: "bytes \<Rightarrow> Token list \<Rightarrow> nat \<Rightarrow> (nat \<times> Token) option" where
  "token_index address [] i = None"
| "token_index address (k # ks) i =
     (if bytesEqual (tok_address k) address then Some (i, k) else token_index address ks (Suc i))"

definition tokenByAddress :: "AddressLike \<Rightarrow> ('s \<times> Drive, (nat \<times> Token) option) prog" where
  "tokenByAddress addr =
     bnd (lift (toAddress addr)) (\<lambda>address. gets (\<lambda>(_, d). token_index address (d_tokens d) 0))"

text \<open>The refusals of \<^verbatim>\<open>registerToken\<close>, in the order of the code, then its writes.\<close>

definition register_check :: "NormalizedConfig \<Rightarrow> Token list \<Rightarrow> bytes \<Rightarrow> nat \<Rightarrow> unit res" where
  "register_check c ks address width = (
     let n = length ks; sum = 64 + sum_list (map tok_width ks) in
     if registryOffset c = 0 then Throw err_profile
     else if width \<noteq> 8 \<and> width \<noteq> 16 \<and> width \<noteq> 32 then Throw (err_badWidth None)
     else if token_index address ks 0 \<noteq> None then Throw err_duplicateToken
     else if int n \<ge> registryCapacity c then Throw err_registryFull
     else if profile c = ProfileWide \<and> int (sum + width) > slotSize c
     then Throw (err_tableFull (Some (''columns would need '' @ dec (sum + width) @ '' bytes in a ''
            @ dec_int (slotSize c) @ ''-byte slot'')))
     else if profile c = ProfileSparse \<and> sparseSlotSize c = 32 \<and> width \<noteq> 8
     then Throw (err_badWidth (Some ''32-byte sparse slots require width 8''))
     else if compact c \<and> width \<noteq> 8
     then Throw (err_badWidth (Some ''the compact account record requires width 8''))
     else Ok ())"

definition registerToken :: "'s store \<Rightarrow> AddressLike \<Rightarrow> nat \<Rightarrow> ('s \<times> Drive, nat) prog" where
  "registerToken S addr width =
     bnd (lift (toAddress addr)) (\<lambda>address.
     bnd (gets snd) (\<lambda>d. let c = d_cfg d; n = length (d_tokens d) in
     bnd (lift (register_check c (d_tokens d) address width)) (\<lambda>_.
       let e = (splice (zeros 32) 0 address)[20 := of_nat width] in
       bnd (on_store (writeAt S (registryOffset c + 32 * int n) e)) (\<lambda>_.
       bnd (on_store (drive_setCounter S OFF_TOKEN_COUNT (int (n + 1)))) (\<lambda>_.
       let col = (if colOff d \<noteq> [] then last (colOff d) + tok_width (last (d_tokens d)) else 64) in
       bnd (on_drive (\<lambda>d. d\<lparr>d_tokens := d_tokens d @ [\<lparr>tok_address = address, tok_width = width\<rparr>],
                           colOff := colOff d @ [col]\<rparr>)) (\<lambda>_.
       ret n))))))"

section \<open>Token balances\<close>

definition getTokenBalance :: "(bytes \<Rightarrow> bytes) \<Rightarrow> 's store \<Rightarrow> AddressLike \<Rightarrow> int \<Rightarrow> ('s \<times> Drive, nat) prog" where
  "getTokenBalance H S addr tid =
     bnd (checked_address addr) (\<lambda>address.
     bnd (gets snd) (\<lambda>d. let c = d_cfg d in
       if \<not> (tid \<ge> 0 \<and> tid < int (length (d_tokens d))) then raise err_unknownToken
       else if profile c = ProfileWide then
         bnd (on_store (drive_lookup H (seed c) S (accountsTable c) address)) (\<lambda>found.
           case found of None \<Rightarrow> ret 0
           | Some (_, slot) \<Rightarrow>
               ret (readBE (slice slot (colOff d ! nat tid) (tok_width (d_tokens d ! nat tid)))))
       else if profile c = ProfileSparse then
         bnd (on_store (drive_lookup H (seed c) S (sparseTable c) (sparseKey (nat tid) address))) (\<lambda>found.
           case found of None \<Rightarrow> ret 0
           | Some (_, slot) \<Rightarrow>
               if sparseSlotSize c = 32 then ret (readBE (slice slot 24 8))
               else ret (readBE (slice slot 32 32)))
       else raise err_profile))"

definition putSparseBalance :: "NormalizedConfig \<Rightarrow> bytes \<Rightarrow> int \<Rightarrow> bytes res" where
  "putSparseBalance c slot v =
     (if sparseSlotSize c = 32 then putBE_sub slot 24 8 v else putBE_sub slot 32 32 v)"

definition setTokenBalance ::
  "(bytes \<Rightarrow> bytes) \<Rightarrow> 's store \<Rightarrow> AddressLike \<Rightarrow> int \<Rightarrow> int \<Rightarrow> ('s \<times> Drive, unit) prog" where
  "setTokenBalance H S addr tid v =
     bnd (checked_address addr) (\<lambda>address.
     bnd (gets snd) (\<lambda>d. let c = d_cfg d in
       if \<not> (tid \<ge> 0 \<and> tid < int (length (d_tokens d))) then raise err_unknownToken
       else let width = tok_width (d_tokens d ! nat tid) in
       if v < 0 \<or> drop_bit (8 * width) v \<noteq> 0 then raise err_overflow
       else if profile c = ProfileWide then
         let t = accountsTable c; off = colOff d ! nat tid in
         bnd (on_store (drive_lookup H (seed c) S t address)) (\<lambda>found.
           case found of
             None \<Rightarrow>
               if v = 0 then ret ()
               else bnd (on_store (drive_counter S (t_countOff t))) (\<lambda>n.
                 if n \<ge> t_limit t then raise (err_tableFull None)
                 else bnd (lift (arr_set (zeros (t_slotSize t)) 0 address)) (\<lambda>full.
                   bnd (lift (putBE_sub full off width v)) (\<lambda>full'.
                     on_store (drive_insert H (seed c) S t full'))))
           | Some (i, slot) \<Rightarrow>
               bnd (lift (putBE_sub slot off width v)) (\<lambda>slot'. on_store (writeSlot S t i slot')))
       else if profile c = ProfileSparse then
         let t = sparseTable c; key = sparseKey (nat tid) address in
         bnd (on_store (drive_lookup H (seed c) S t key)) (\<lambda>found.
           if v = 0 then
             (case found of None \<Rightarrow> ret () | Some (i, _) \<Rightarrow> on_store (drive_remove H (seed c) S t i))
           else case found of
             Some (i, slot) \<Rightarrow>
               bnd (lift (putSparseBalance c slot v)) (\<lambda>slot'. on_store (writeSlot S t i slot'))
           | None \<Rightarrow>
               bnd (on_store (drive_counter S (t_countOff t))) (\<lambda>n.
                 if n \<ge> t_limit t then raise (err_tableFull None)
                 else
                   let rec0 = (zeros (t_slotSize t))
                         [0 := of_nat (nat tid AND 0xff), 1 := of_nat (drop_bit 8 (nat tid) AND 0xff)] in
                   bnd (lift (arr_set rec0 4 address)) (\<lambda>rec1.
                   bnd (lift (putSparseBalance c rec1 v)) (\<lambda>rec.
                     on_store (drive_insert H (seed c) S t rec)))))
       else raise err_profile))"

section \<open>Opening and formatting\<close>

definition header_config :: "bytes \<Rightarrow> NormalizedConfig res" where
  "header_config h =
     (if \<not> bytesEqual (slice h OFF_MAGIC 8) Magic then Throw (Error ''not an accounts drive (bad magic)'')
      else
        rbind (getLE32 h OFF_VERSION) (\<lambda>version.
        if version \<noteq> Version
        then Throw (Error (''unsupported accounts drive version: '' @ dec version))
        else rbind (getLE32 h OFF_FLAGS) (\<lambda>flags.
        if flags \<noteq> 0
        then Throw (Error (''unsupported accounts drive version: nonzero flags 0x'' @ to_base 16 flags))
        else
        rbind (getLE64 h OFF_CAPACITY) (\<lambda>cap.
        rbind (getLE64 h OFF_TABLE_OFFSET) (\<lambda>toff.
        rbind (getLE64 h OFF_LOAD_LIMIT) (\<lambda>lim.
        rbind (getLE32 h OFF_PROFILE) (\<lambda>prof.
        rbind (getLE32 h OFF_SLOT_SIZE) (\<lambda>ss.
        rbind (getLE64 h OFF_REGISTRY_OFFSET) (\<lambda>roff.
        rbind (getLE64 h OFF_REGISTRY_CAP) (\<lambda>rcap.
        rbind (getLE64 h OFF_SPARSE_OFFSET) (\<lambda>soff.
        rbind (getLE64 h OFF_SPARSE_CAPACITY) (\<lambda>scap.
        rbind (getLE64 h OFF_SPARSE_LOAD_LIMIT) (\<lambda>slim.
        rbind (getLE32 h OFF_SPARSE_SLOT_SIZE) (\<lambda>sss.
          Ok \<lparr>driveLength = 0,
              capacity = int (toNumber cap),
              loadLimit = int (toNumber lim),
              seed = slice h OFF_SEED 32,
              profile = int prof,
              slotSize = (if ss = 0 then 64 else int ss),
              tableOffset = int (toNumber toff),
              registryOffset = int (toNumber roff),
              registryCapacity = int (toNumber rcap),
              sparseOffset = int (toNumber soff),
              sparseCapacity = int (toNumber scap),
              sparseLoadLimit = int (toNumber slim),
              sparseSlotSize = int sss\<rparr>))))))))))))))"

text \<open>\<^verbatim>\<open>await d.reloadRegistry(); return d\<close>, on a new drive over the store.\<close>

definition new_drive :: "'s store \<Rightarrow> NormalizedConfig \<Rightarrow> ('s, Drive) prog" where
  "new_drive S c s =
     (case reloadRegistry S (s, \<lparr>d_cfg = c, d_tokens = [], colOff = []\<rparr>) of
        (Ok _, (s', d)) \<Rightarrow> (Ok d, s')
      | (Throw e, (s', _)) \<Rightarrow> (Throw e, s')
      | (Diverge, (s', _)) \<Rightarrow> (Diverge, s'))"

definition open_drive :: "'s store \<Rightarrow> ('s, Drive) prog" where
  "open_drive S =
     bnd (readAt S 0 (int HEADER_SIZE)) (\<lambda>h. bnd (lift (header_config h)) (new_drive S))"

definition header_of :: "NormalizedConfig \<Rightarrow> bytes" where
  "header_of c = (
     let h = splice (zeros HEADER_SIZE) OFF_MAGIC Magic;
         h = setLE 4 h OFF_VERSION (int Version);
         h = setLE 8 h OFF_CAPACITY (capacity c);
         h = setLE 8 h OFF_TABLE_OFFSET (tableOffset c);
         h = setLE 8 h OFF_LOAD_LIMIT (loadLimit c);
         h = splice h OFF_SEED (seed c);
         h = setLE 4 h OFF_PROFILE (profile c);
         h = setLE 4 h OFF_SLOT_SIZE (slotSize c);
         h = setLE 8 h OFF_REGISTRY_OFFSET (registryOffset c);
         h = setLE 8 h OFF_REGISTRY_CAP (registryCapacity c)
     in if profile c = ProfileSparse then
          let h = setLE 8 h OFF_SPARSE_OFFSET (sparseOffset c);
              h = setLE 8 h OFF_SPARSE_CAPACITY (sparseCapacity c);
              h = setLE 8 h OFF_SPARSE_LOAD_LIMIT (sparseLoadLimit c)
          in setLE 4 h OFF_SPARSE_SLOT_SIZE (sparseSlotSize c)
        else h)"

definition format :: "'s store \<Rightarrow> Config \<Rightarrow> ('s, Drive) prog" where
  "format S config =
     bnd (lift (normalizeConfig config)) (\<lambda>c.
     bnd (lift (validateConfig c)) (\<lambda>_.
     bnd (writeAt S 0 (header_of c)) (\<lambda>_. open_drive S)))"

end
