(* ===== verification/Drive_Spec.thy ===== *)
theory Drive_Spec
  imports Drive
begin

text \<open>
  What an accounts drive promises: a map from addresses to nonce and balance, a list of tokens, and a
  balance for every token and address (\<open>Abs\<close>), with one specification per operation of \<^verbatim>\<open>Drive\<close>. The
  invariant \<open>drive_inv\<close> of the bytes and the cache is kept by every operation, and each operation refines
  its specification, errors included (\<open>drive_refines\<close>). Refinement composes along \<open>bnd\<close>, so that what is
  built from drive operations is verified against their specifications.
\<close>

section \<open>The invariant\<close>

text \<open>The one fact used about keccak-256: its digest has 32 bytes.\<close>

definition keccak_digest :: "(bytes \<Rightarrow> bytes) \<Rightarrow> bool" where
  "keccak_digest H \<longleftrightarrow> (\<forall>x. length (H x) = 32)"

definition sparse_val :: "NormalizedConfig \<Rightarrow> bytes \<Rightarrow> nat" where
  "sparse_val c slot = (if sparseSlotSize c = 32 then readBE (slice slot 24 8) else readBE (slice slot 32 32))"

definition columns :: "nat list \<Rightarrow> nat list" where
  "columns ws = map (\<lambda>i. 64 + sum_list (take i ws)) [0..<length ws]"

definition token_ok :: "NormalizedConfig \<Rightarrow> Token \<Rightarrow> bool" where
  "token_ok c k \<longleftrightarrow> length (tok_address k) = 20 \<and> tok_width k \<in> {8, 16, 32} \<and>
     (profile c = ProfileSparse \<and> sparseSlotSize c = 32 \<or> compact c \<longrightarrow> tok_width k = 8)"

definition entry_holds :: "NormalizedConfig \<Rightarrow> bytes \<Rightarrow> nat \<Rightarrow> Token \<Rightarrow> bool" where
  "entry_holds c bs i k \<longleftrightarrow>
     (let e = slice bs (nat (registryOffset c) + 32 * i) 32 in
      slice e 0 20 = tok_address k \<and> unat (e ! 20) = tok_width k)"

definition registry_inv :: "bytes \<Rightarrow> Drive \<Rightarrow> bool" where
  "registry_inv bs d \<longleftrightarrow> (let c = d_cfg d; ks = d_tokens d in
     int (length ks) \<le> (if registryOffset c = 0 then 0 else registryCapacity c) \<and>
     (registryOffset c \<noteq> 0 \<longrightarrow> le_dec (slice bs OFF_TOKEN_COUNT 8) = length ks) \<and>
     (\<forall>i < length ks. entry_holds c bs i (ks ! i)) \<and>
     list_all (token_ok c) ks \<and> distinct (map tok_address ks) \<and>
     colOff d = columns (map tok_width ks) \<and>
     (profile c = ProfileWide \<longrightarrow> 64 + sum_list (map tok_width ks) \<le> nat (slotSize c)))"

definition drive_geometry :: "NormalizedConfig \<Rightarrow> nat \<Rightarrow> bool" where
  "drive_geometry c n \<longleftrightarrow>
     geometry (c\<lparr>driveLength := int n\<rparr>) \<and> n < 2 ^ 53 \<and> 0 \<le> registryOffset c \<and> 0 \<le> registryCapacity c"

text \<open>No balance precedes its token: the columns past the registered ones are zero, and no sparse record
  carries an unregistered id.\<close>

definition columns_end :: "Drive \<Rightarrow> nat" where
  "columns_end d = 64 + sum_list (map tok_width (d_tokens d))"

definition tail_zero :: "Drive \<Rightarrow> bytes \<Rightarrow> bool" where
  "tail_zero d sl \<longleftrightarrow> (\<forall>p n. columns_end d \<le> p \<longrightarrow> p + n \<le> length sl \<longrightarrow> slice sl p n = zeros n)"

definition fresh_ids :: "Drive \<Rightarrow> bytes \<Rightarrow> bool" where
  "fresh_ids d bs \<longleftrightarrow> (\<forall>tid addr. length (d_tokens d) \<le> tid \<longrightarrow> tid < 65536 \<longrightarrow> length addr = 20 \<longrightarrow>
     tget (sparseTable (d_cfg d)) bs (sparseKey tid addr) = None)"

definition drive_inv :: "(bytes \<Rightarrow> bytes) \<Rightarrow> bytes \<Rightarrow> Drive \<Rightarrow> bool" where
  "drive_inv H bs d \<longleftrightarrow> (let c = d_cfg d in
     drive_geometry c (length bs) \<and>
     table_inv H (seed c) (accountsTable c) bs \<and>
     (profile c = ProfileSparse \<longrightarrow> table_inv H (seed c) (sparseTable c) bs \<and>
        (\<forall>k sl. tget (sparseTable c) bs k = Some sl \<longrightarrow> sparse_val c sl \<noteq> 0) \<and> fresh_ids d bs) \<and>
     (profile c = ProfileWide \<longrightarrow> (\<forall>k sl. tget (accountsTable c) bs k = Some sl \<longrightarrow> tail_zero d sl)) \<and>
     registry_inv bs d \<and> header_config (slice bs 0 HEADER_SIZE) = Ok c)"

section \<open>The specification\<close>

record Abs =
  a_acct :: "bytes \<Rightarrow> (nat \<times> nat) option"
  a_bal :: "nat \<Rightarrow> bytes \<Rightarrow> nat"
  a_toks :: "Token list"
  a_live :: nat
  a_sparse :: nat

definition acct_dec :: "NormalizedConfig \<Rightarrow> bytes \<Rightarrow> nat \<times> nat" where
  "acct_dec c slot =
     (if compact c then (le_dec (slice slot 20 4), readBE (slice slot 24 8))
      else (le_dec (slice slot 24 8), readBE (slice slot 32 32)))"

definition bal_of :: "Drive \<Rightarrow> bytes \<Rightarrow> nat \<Rightarrow> bytes \<Rightarrow> nat" where
  "bal_of d bs tid addr = (let c = d_cfg d in
     if length (d_tokens d) \<le> tid \<or> length addr \<noteq> 20 then 0
     else if profile c = ProfileWide then
       (case tget (accountsTable c) bs addr of None \<Rightarrow> 0
        | Some sl \<Rightarrow> readBE (slice sl (colOff d ! tid) (tok_width (d_tokens d ! tid))))
     else if profile c = ProfileSparse then
       (case tget (sparseTable c) bs (sparseKey tid addr) of None \<Rightarrow> 0 | Some sl \<Rightarrow> sparse_val c sl)
     else 0)"

definition abs_drive :: "Drive \<Rightarrow> bytes \<Rightarrow> Abs" where
  "abs_drive d bs =
     \<lparr>a_acct = (\<lambda>addr. map_option (acct_dec (d_cfg d)) (tget (accountsTable (d_cfg d)) bs addr)),
      a_bal = bal_of d bs, a_toks = d_tokens d,
      a_live = tab_count (accountsTable (d_cfg d)) bs,
      a_sparse = (if profile (d_cfg d) = ProfileSparse then tab_count (sparseTable (d_cfg d)) bs else 0)\<rparr>"

definition nonce_bytes :: "NormalizedConfig \<Rightarrow> nat" where
  "nonce_bytes c = (if compact c then 4 else 8)"

definition balance_bytes :: "NormalizedConfig \<Rightarrow> nat" where
  "balance_bytes c = (if compact c then 8 else 32)"

definition spec_getAccount :: "NormalizedConfig \<Rightarrow> bytes \<Rightarrow> (Abs, Account option) prog" where
  "spec_getAccount c addr =
     (if isZero addr then raise err_zeroAddress
      else gets (\<lambda>a. map_option
        (\<lambda>(n, b). \<lparr>acc_address = addr, acc_nonce = n, acc_balance = b\<rparr>) (a_acct a addr)))"

definition spec_setAccount :: "NormalizedConfig \<Rightarrow> bytes \<Rightarrow> int \<Rightarrow> int \<Rightarrow> (Abs, unit) prog" where
  "spec_setAccount c addr nonce balance a =
     (if isZero addr then (Throw err_zeroAddress, a)
      else if (compact c \<and> nonce > 0xffffffff) \<or> \<not> (0 \<le> balance \<and> balance < 256 ^ balance_bytes c)
      then (Throw err_overflow, a)
      else if a_acct a addr = None \<and> a_live a \<ge> nat (loadLimit c) then (Throw (err_tableFull None), a)
      else (Ok (), a\<lparr>a_acct := (a_acct a)(addr \<mapsto> (nat (nonce mod 256 ^ nonce_bytes c), nat balance)),
                    a_live := (if a_acct a addr = None then a_live a + 1 else a_live a)\<rparr>))"

definition spec_deleteAccount :: "NormalizedConfig \<Rightarrow> bytes \<Rightarrow> bool \<Rightarrow> (Abs, bool) prog" where
  "spec_deleteAccount c addr force a =
     (if isZero addr then (Throw err_zeroAddress, a)
      else case a_acct a addr of
        None \<Rightarrow> (Ok False, a)
      | Some (nonce, _) \<Rightarrow>
          if \<not> force \<and> nonce \<noteq> 0 then (Throw err_nonceProtected, a)
          else (Ok True, a\<lparr>a_acct := (a_acct a)(addr := None), a_live := a_live a - 1,
                  a_bal := (if profile c = ProfileWide then (\<lambda>tid. (a_bal a tid)(addr := 0)) else a_bal a)\<rparr>))"

definition spec_getTokenBalance :: "NormalizedConfig \<Rightarrow> bytes \<Rightarrow> int \<Rightarrow> (Abs, nat) prog" where
  "spec_getTokenBalance c addr tid a =
     (if isZero addr then (Throw err_zeroAddress, a)
      else if \<not> (0 \<le> tid \<and> tid < int (length (a_toks a))) then (Throw err_unknownToken, a)
      else if profile c = ProfileSingleAsset then (Throw err_profile, a)
      else (Ok (a_bal a (nat tid) addr), a))"

definition spec_setTokenBalance :: "NormalizedConfig \<Rightarrow> bytes \<Rightarrow> int \<Rightarrow> int \<Rightarrow> (Abs, unit) prog" where
  "spec_setTokenBalance c addr tid v a =
     (if isZero addr then (Throw err_zeroAddress, a)
      else if \<not> (0 \<le> tid \<and> tid < int (length (a_toks a))) then (Throw err_unknownToken, a)
      else if \<not> (0 \<le> v \<and> v < 256 ^ tok_width (a_toks a ! nat tid)) then (Throw err_overflow, a)
      else let t = nat tid; bal' = (a_bal a)(t := (a_bal a t)(addr := nat v)) in
        if profile c = ProfileWide then
          if a_acct a addr \<noteq> None then (Ok (), a\<lparr>a_bal := bal'\<rparr>)
          else if v = 0 then (Ok (), a)
          else if a_live a \<ge> nat (loadLimit c) then (Throw (err_tableFull None), a)
          else (Ok (), a\<lparr>a_bal := bal', a_acct := (a_acct a)(addr \<mapsto> (0, 0)), a_live := a_live a + 1\<rparr>)
        else if profile c = ProfileSparse then
          if a_bal a t addr \<noteq> 0
          then (Ok (), a\<lparr>a_bal := bal', a_sparse := (if v = 0 then a_sparse a - 1 else a_sparse a)\<rparr>)
          else if v = 0 then (Ok (), a)
          else if a_sparse a \<ge> nat (sparseLoadLimit c) then (Throw (err_tableFull None), a)
          else (Ok (), a\<lparr>a_bal := bal', a_sparse := a_sparse a + 1\<rparr>)
        else (Throw err_profile, a))"

definition spec_registerToken :: "NormalizedConfig \<Rightarrow> bytes \<Rightarrow> nat \<Rightarrow> (Abs, nat) prog" where
  "spec_registerToken c addr width a =
     (case register_check c (a_toks a) addr width of
        Ok _ \<Rightarrow> (Ok (length (a_toks a)), a\<lparr>a_toks := a_toks a @ [\<lparr>tok_address = addr, tok_width = width\<rparr>]\<rparr>)
      | Throw e \<Rightarrow> (Throw e, a)
      | Diverge \<Rightarrow> (Diverge, a))"

section \<open>Geometry gives well-formed, separate tables\<close>

lemma geometry_nat:
  assumes "drive_geometry c n"
  shows "nat (tableOffset c) + nat (slotSize c) * nat (capacity c) \<le> n"
    and "profile c = ProfileSparse \<Longrightarrow> nat (sparseOffset c) + nat (sparseSlotSize c) * nat (sparseCapacity c) \<le> n"
proof -
  have "int (nat (tableOffset c) + nat (slotSize c) * nat (capacity c)) =
      tableOffset c + capacity c * slotSize c"
    using assms by (auto simp: drive_geometry_def geometry_def mult.commute split: if_splits)
  moreover have "tableOffset c + capacity c * slotSize c \<le> int n"
    using assms by (simp add: drive_geometry_def geometry_def)
  ultimately show "nat (tableOffset c) + nat (slotSize c) * nat (capacity c) \<le> n" by linarith
  assume sp: "profile c = ProfileSparse"
  have "int (nat (sparseOffset c) + nat (sparseSlotSize c) * nat (sparseCapacity c)) =
      sparseOffset c + sparseCapacity c * sparseSlotSize c"
    using assms sp by (auto simp: drive_geometry_def geometry_def profile_defs mult.commute)
  moreover have "sparseOffset c + sparseCapacity c * sparseSlotSize c \<le> int n"
    using assms sp by (simp add: drive_geometry_def geometry_def profile_defs)
  ultimately show "nat (sparseOffset c) + nat (sparseSlotSize c) * nat (sparseCapacity c) \<le> n" by linarith
qed

lemma le_mult_nat: "0 < w \<Longrightarrow> n \<le> w * n" for n w :: nat
  by simp

lemma accountsTable_ok:
  assumes "drive_geometry c n"
  shows "table_ok (accountsTable c)"
proof -
  have "32 \<le> slotSize c"
    using assms by (auto simp: drive_geometry_def geometry_def split: if_splits)
  moreover from this have "nat (capacity c) \<le> nat (slotSize c) * nat (capacity c)" by (intro le_mult_nat) simp
  then have "nat (capacity c) \<le> n" using geometry_nat(1) [OF assms] by linarith
  moreover have "2 \<le> capacity c" "1 \<le> loadLimit c" "loadLimit c < capacity c" "4096 \<le> tableOffset c" "n < 2 ^ 53"
    using assms by (simp_all add: drive_geometry_def geometry_def)
  ultimately show ?thesis
    by (auto simp: table_ok_def accountsTable_def header_offsets le_nat_iff nat_less_iff)
qed

lemma sparseTable_ok:
  assumes "drive_geometry c n" and "profile c = ProfileSparse"
  shows "table_ok (sparseTable c)"
proof -
  have "32 \<le> sparseSlotSize c"
    using assms by (auto simp: drive_geometry_def geometry_def profile_defs)
  moreover from this have "nat (sparseCapacity c) \<le> nat (sparseSlotSize c) * nat (sparseCapacity c)"
    by (intro le_mult_nat) simp
  then have "nat (sparseCapacity c) \<le> n" using geometry_nat(2) [OF assms] by linarith
  moreover have "2 \<le> sparseCapacity c" "1 \<le> sparseLoadLimit c" "sparseLoadLimit c < sparseCapacity c"
    "4096 \<le> sparseOffset c" "n < 2 ^ 53"
    using assms by (simp_all add: drive_geometry_def geometry_def profile_defs)
  ultimately show ?thesis
    by (auto simp: table_ok_def sparseTable_def header_offsets le_nat_iff nat_less_iff)
qed

abbreviation tab_end :: "Table \<Rightarrow> nat" where
  "tab_end t \<equiv> t_base t + t_slotSize t * t_capacity t"

abbreviation reg_lo :: "NormalizedConfig \<Rightarrow> nat" where
  "reg_lo c \<equiv> nat (registryOffset c)"

abbreviation reg_hi :: "NormalizedConfig \<Rightarrow> nat" where
  "reg_hi c \<equiv> nat (registryOffset c) + 32 * nat (registryCapacity c)"

lemma accountsTable_in: "drive_geometry c (length bs) \<Longrightarrow> table_in (accountsTable c) bs"
  using geometry_nat(1) [of c "length bs"] by (simp add: table_in_def accountsTable_def)

lemma sparseTable_in:
  "drive_geometry c (length bs) \<Longrightarrow> profile c = ProfileSparse \<Longrightarrow> table_in (sparseTable c) bs"
  using geometry_nat(2) [of c "length bs"] by (simp add: table_in_def sparseTable_def)

lemma int_tab_end:
  assumes "drive_geometry c n"
  shows "int (tab_end (accountsTable c)) = tableOffset c + capacity c * slotSize c"
    and "profile c = ProfileSparse \<Longrightarrow>
      int (tab_end (sparseTable c)) = sparseOffset c + sparseCapacity c * sparseSlotSize c"
    and "int (reg_hi c) = registryOffset c + 32 * registryCapacity c"
  using assms
  by (auto simp: drive_geometry_def geometry_def accountsTable_def sparseTable_def profile_defs mult.commute
      split: if_splits)

lemma geometry_apart:
  assumes "drive_geometry c n"
  shows "registryOffset c \<noteq> 0 \<Longrightarrow> reg_hi c \<le> t_base (accountsTable c) \<or> tab_end (accountsTable c) \<le> reg_lo c"
    and "registryOffset c \<noteq> 0 \<Longrightarrow> 256 \<le> reg_lo c \<and> reg_hi c \<le> n"
    and "profile c = ProfileSparse \<Longrightarrow>
      tab_end (accountsTable c) \<le> t_base (sparseTable c) \<or> tab_end (sparseTable c) \<le> t_base (accountsTable c)"
    and "profile c = ProfileSparse \<Longrightarrow> registryOffset c \<noteq> 0 \<and>
      (reg_hi c \<le> t_base (sparseTable c) \<or> tab_end (sparseTable c) \<le> reg_lo c)"
    and "4096 \<le> t_base (accountsTable c)" and "profile c = ProfileSparse \<Longrightarrow> 4096 \<le> t_base (sparseTable c)"
proof -
  note e = int_tab_end [OF assms]
  have base: "int (t_base (accountsTable c)) = tableOffset c" "4096 \<le> tableOffset c"
    using assms by (simp_all add: drive_geometry_def geometry_def accountsTable_def)
  have sbase: "int (t_base (sparseTable c)) = sparseOffset c" "4096 \<le> sparseOffset c"
    if "profile c = ProfileSparse"
    using assms that by (simp_all add: drive_geometry_def geometry_def sparseTable_def profile_defs)
  have lo: "int (reg_lo c) = registryOffset c" using assms by (simp add: drive_geometry_def)
  note as_int = of_nat_le_iff [where ?'a = int, symmetric]
  have geo: "registryOffset c \<noteq> 0 \<Longrightarrow> 256 \<le> registryOffset c \<and>
      registryOffset c + 32 * registryCapacity c \<le> int n \<and>
      (registryOffset c + 32 * registryCapacity c \<le> tableOffset c \<or>
       tableOffset c + capacity c * slotSize c \<le> registryOffset c)"
    and sgeo: "profile c = ProfileSparse \<Longrightarrow> registryOffset c \<noteq> 0 \<and>
      (tableOffset c + capacity c * slotSize c \<le> sparseOffset c \<or>
       sparseOffset c + sparseCapacity c * sparseSlotSize c \<le> tableOffset c) \<and>
      (registryOffset c + 32 * registryCapacity c \<le> sparseOffset c \<or>
       sparseOffset c + sparseCapacity c * sparseSlotSize c \<le> registryOffset c)"
    using assms by (auto simp: drive_geometry_def geometry_def profile_defs)
  show "registryOffset c \<noteq> 0 \<Longrightarrow> reg_hi c \<le> t_base (accountsTable c) \<or> tab_end (accountsTable c) \<le> reg_lo c"
    unfolding as_int e(1,3) base(1) lo using geo by blast
  show "registryOffset c \<noteq> 0 \<Longrightarrow> 256 \<le> reg_lo c \<and> reg_hi c \<le> n"
    unfolding as_int e(1,3) base(1) lo using geo by simp
  show "profile c = ProfileSparse \<Longrightarrow>
      tab_end (accountsTable c) \<le> t_base (sparseTable c) \<or> tab_end (sparseTable c) \<le> t_base (accountsTable c)"
    unfolding as_int e(1) base(1) by (simp only: e(2) sbase(1) sgeo)
  show "profile c = ProfileSparse \<Longrightarrow> registryOffset c \<noteq> 0 \<and>
      (reg_hi c \<le> t_base (sparseTable c) \<or> tab_end (sparseTable c) \<le> reg_lo c)"
    unfolding as_int e(3) lo by (simp only: e(2) sbase(1) sgeo simp_thms)
  show "4096 \<le> t_base (accountsTable c)" using base by linarith
  show "profile c = ProfileSparse \<Longrightarrow> 4096 \<le> t_base (sparseTable c)" using sbase by linarith
qed

section \<open>Frames\<close>

definition same_on :: "bytes \<Rightarrow> bytes \<Rightarrow> nat \<Rightarrow> nat \<Rightarrow> bool" where
  "same_on bs bs' lo hi \<longleftrightarrow> (\<forall>p n. lo \<le> p \<longrightarrow> p + n \<le> hi \<longrightarrow> slice bs' p n = slice bs p n)"

lemma same_onD: "same_on bs bs' lo hi \<Longrightarrow> lo \<le> p \<Longrightarrow> p + n \<le> hi \<Longrightarrow> slice bs' p n = slice bs p n"
  by (simp add: same_on_def)

lemma touches_same:
  assumes "table_ok t" and "table_in t bs" and "touches t bs bs'"
    and "hi \<le> t_countOff t \<or> t_countOff t + 8 \<le> lo" and "hi \<le> t_base t \<or> tab_end t \<le> lo"
  shows "same_on bs bs' lo hi"
  unfolding same_on_def
proof (intro allI impI)
  fix p n
  assume "lo \<le> p" and "p + n \<le> hi"
  with assms(4,5) show "slice bs' p n = slice bs p n"
    by (intro touches_slice [OF assms(1-3)]) auto
qed

lemma splice_same:
  assumes "off + length ys \<le> length bs" and "hi \<le> off \<or> off + length ys \<le> lo"
  shows "same_on bs (splice bs off ys) lo hi"
  unfolding same_on_def
proof (intro allI impI)
  fix p n
  assume "lo \<le> p" and "p + n \<le> hi"
  with assms show "slice (splice bs off ys) p n = slice bs p n"
    by (intro slice_splice_disjoint) auto
qed

lemma slots_frame: "same_on bs bs' (t_base t) (tab_end t) \<Longrightarrow> slots t bs' = slots t bs"
  unfolding slots_def
  using slot_range [of _ "t_capacity t" "t_slotSize t"] by (intro map_cong) (auto intro!: same_onD)

lemma table_frame:
  assumes "same_on bs bs' (t_base t) (tab_end t)" and "same_on bs bs' (t_countOff t) (t_countOff t + 8)"
    and "length bs' = length bs"
  shows "table_inv H sd t bs' = table_inv H sd t bs" and "tget t bs' = tget t bs"
    and "tab_count t bs' = tab_count t bs"
proof -
  have cnt: "tab_count t bs' = tab_count t bs"
    using same_onD [OF assms(2), of "t_countOff t" 8] by (simp add: tab_count_def)
  with assms show "table_inv H sd t bs' = table_inv H sd t bs" and "tget t bs' = tget t bs"
    by (simp_all add: table_inv_def tget_def slots_frame table_in_length [OF assms(3)])
  show "tab_count t bs' = tab_count t bs" by (rule cnt)
qed

lemma entry_frame:
  assumes "same_on bs bs' (reg_lo c) (reg_hi c)" and "int i < registryCapacity c"
  shows "entry_holds c bs' i k = entry_holds c bs i k"
proof -
  have "32 * i + 32 \<le> 32 * nat (registryCapacity c)" using assms(2) by linarith
  with same_onD [OF assms(1), of "reg_lo c + 32 * i" 32] show ?thesis by (simp add: entry_holds_def)
qed

lemma registry_frame:
  assumes "registryOffset (d_cfg d) \<noteq> 0 \<Longrightarrow> same_on bs bs' (reg_lo (d_cfg d)) (reg_hi (d_cfg d))"
    and "same_on bs bs' OFF_TOKEN_COUNT (OFF_TOKEN_COUNT + 8)" and "registry_inv bs d"
  shows "registry_inv bs' d"
proof -
  have cnt: "slice bs' OFF_TOKEN_COUNT 8 = slice bs OFF_TOKEN_COUNT 8"
    using same_onD [OF assms(2), of OFF_TOKEN_COUNT 8] by simp
  have "entry_holds (d_cfg d) bs' i (d_tokens d ! i)" if "i < length (d_tokens d)" for i
  proof -
    have "registryOffset (d_cfg d) \<noteq> 0" "int i < registryCapacity (d_cfg d)"
      using assms(3) that by (auto simp: registry_inv_def Let_def split: if_splits)
    moreover have "entry_holds (d_cfg d) bs i (d_tokens d ! i)"
      using assms(3) that by (simp add: registry_inv_def Let_def)
    ultimately show ?thesis using entry_frame [OF assms(1)] by blast
  qed
  with assms(3) cnt show ?thesis by (simp add: registry_inv_def Let_def)
qed

text \<open>The header without the three counters is written once, by \<^verbatim>\<open>format\<close>.\<close>

lemma header_frame:
  assumes "same_on bs bs' 0 0x28" and "same_on bs bs' 0x30 0x68" and "same_on bs bs' 0x70 0x88" and "same_on bs bs' 0x90 0x94"
    and "length bs' = length bs" and "4096 \<le> length bs"
  shows "header_config (slice bs' 0 HEADER_SIZE) = header_config (slice bs 0 HEADER_SIZE)"
proof -
  have len: "length (slice bs' 0 4096) = 4096" "length (slice bs 0 4096) = 4096" using assms(5,6) by simp_all
  have in_header: "slice (slice xs 0 4096) off n = slice xs off n" if "off + n \<le> 4096" for xs :: bytes and off n
    using that by (simp add: slice_def drop_take min_def)
  have eq: "slice (slice bs' 0 4096) off n = slice (slice bs 0 4096) off n"
    if "off + n \<le> 0x28 \<or> 0x30 \<le> off \<and> off + n \<le> 0x68 \<or> 0x70 \<le> off \<and> off + n \<le> 0x88 \<or> 0x90 \<le> off \<and> off + n \<le> 0x94" for off n
    using that assms(1-4) by (auto simp: in_header same_on_def)
  show ?thesis
    unfolding header_config_def getLE64_def getLE32_def HEADER_SIZE_def header_offsets len by (simp add: eq)
qed

lemma accounts_step:
  assumes inv: "drive_inv H bs d"
    and post: "table_post H (seed (d_cfg d)) (accountsTable (d_cfg d)) bs bs' m n"
    and tails: "\<And>k sl. profile (d_cfg d) = ProfileWide \<Longrightarrow> m k = Some sl \<Longrightarrow> tail_zero d sl"
  shows "drive_inv H bs' d" and "length bs' = length bs"
    and "profile (d_cfg d) = ProfileSparse \<Longrightarrow> tget (sparseTable (d_cfg d)) bs' = tget (sparseTable (d_cfg d)) bs"
    and "profile (d_cfg d) = ProfileSparse \<Longrightarrow> tab_count (sparseTable (d_cfg d)) bs' = tab_count (sparseTable (d_cfg d)) bs"
proof -
  let ?c = "d_cfg d"
  let ?t = "accountsTable ?c"
  let ?u = "sparseTable ?c"
  have g: "drive_geometry ?c (length bs)" using inv by (simp add: drive_inv_def Let_def)
  note apart = geometry_apart [OF g]
  have t: "table_ok ?t" "table_in ?t bs" "touches ?t bs bs'"
    using post by (simp_all add: table_post_def accountsTable_ok [OF g] accountsTable_in [OF g])
  show len: "length bs' = length bs" by (rule touches_length [OF t])
  note same = touches_same [OF t]
  have cOff: "t_countOff ?t = 0x28" by (simp add: accountsTable_def header_offsets)
  have hdr: "same_on bs bs' p (p + 8)" if "0x30 \<le> p" "p \<le> 0xf0" for p
    using that cOff apart(5) by (intro same) auto
  have sp: "table_inv H (seed ?c) ?u bs' = table_inv H (seed ?c) ?u bs" "tget ?u bs' = tget ?u bs"
    "tab_count ?u bs' = tab_count ?u bs" if p: "profile ?c = ProfileSparse"
  proof -
    have "same_on bs bs' (t_base ?u) (tab_end ?u)"
      using apart(3,6) [OF p] cOff by (intro same) auto
    moreover have "same_on bs bs' (t_countOff ?u) (t_countOff ?u + 8)"
      by (rule hdr) (simp_all add: sparseTable_def header_offsets)
    ultimately show "table_inv H (seed ?c) ?u bs' = table_inv H (seed ?c) ?u bs" "tget ?u bs' = tget ?u bs"
      "tab_count ?u bs' = tab_count ?u bs"
      using len by (simp_all add: table_frame)
  qed
  show "profile ?c = ProfileSparse \<Longrightarrow> tget ?u bs' = tget ?u bs"
    and "profile ?c = ProfileSparse \<Longrightarrow> tab_count ?u bs' = tab_count ?u bs"
    using sp by blast+
  have "same_on bs bs' (reg_lo ?c) (reg_hi ?c)" if r: "registryOffset ?c \<noteq> 0"
    using apart(1,2) [OF r] cOff by (intro same) auto
  moreover have "same_on bs bs' OFF_TOKEN_COUNT (OFF_TOKEN_COUNT + 8)"
    by (rule hdr) (simp_all add: header_offsets)
  moreover have "registry_inv bs d" using inv by (simp add: drive_inv_def Let_def)
  ultimately have "registry_inv bs' d" by (rule registry_frame)
  moreover have "header_config (slice bs' 0 HEADER_SIZE) = header_config (slice bs 0 HEADER_SIZE)"
    using cOff apart(5) accountsTable_in [OF g] len by (intro header_frame same) (auto simp: table_in_def)
  moreover note inv sp post len tails
  ultimately show "drive_inv H bs' d"
    by (simp add: drive_inv_def Let_def table_post_def fresh_ids_def)
qed

lemma sparse_step:
  assumes inv: "drive_inv H bs d" and p: "profile (d_cfg d) = ProfileSparse"
    and post: "table_post H (seed (d_cfg d)) (sparseTable (d_cfg d)) bs bs' m n"
    and nz: "\<And>k sl. m k = Some sl \<Longrightarrow> sparse_val (d_cfg d) sl \<noteq> 0"
    and fresh: "\<And>tid addr. length (d_tokens d) \<le> tid \<Longrightarrow> tid < 65536 \<Longrightarrow> length addr = 20 \<Longrightarrow>
      m (sparseKey tid addr) = None"
  shows "drive_inv H bs' d" and "length bs' = length bs"
    and "tget (accountsTable (d_cfg d)) bs' = tget (accountsTable (d_cfg d)) bs"
    and "tab_count (accountsTable (d_cfg d)) bs' = tab_count (accountsTable (d_cfg d)) bs"
proof -
  let ?c = "d_cfg d"
  let ?t = "accountsTable ?c"
  let ?u = "sparseTable ?c"
  have g: "drive_geometry ?c (length bs)" using inv by (simp add: drive_inv_def Let_def)
  note apart = geometry_apart [OF g]
  have u: "table_ok ?u" "table_in ?u bs" "touches ?u bs bs'"
    using post by (simp_all add: table_post_def sparseTable_ok [OF g p] sparseTable_in [OF g p])
  show len: "length bs' = length bs" by (rule touches_length [OF u])
  note same = touches_same [OF u]
  have cOff: "t_countOff ?u = 0x88" by (simp add: sparseTable_def header_offsets)
  have hdr: "same_on bs bs' q (q + 8)" if "q \<le> 0x80" for q
    using that cOff apart(6) [OF p] by (intro same) auto
  have "same_on bs bs' (t_base ?t) (tab_end ?t)"
    using apart(3) [OF p] apart(5) cOff by (intro same) auto
  moreover have "same_on bs bs' (t_countOff ?t) (t_countOff ?t + 8)"
    by (rule hdr) (simp add: accountsTable_def header_offsets)
  ultimately have acc: "table_inv H (seed ?c) ?t bs' = table_inv H (seed ?c) ?t bs" "tget ?t bs' = tget ?t bs"
      "tab_count ?t bs' = tab_count ?t bs"
    using len by (simp_all add: table_frame)
  show "tget ?t bs' = tget ?t bs" and "tab_count ?t bs' = tab_count ?t bs" by (rule acc)+
  have "same_on bs bs' (reg_lo ?c) (reg_hi ?c)" if r: "registryOffset ?c \<noteq> 0"
    using apart(2) [OF r] apart(4) [OF p] cOff by (intro same) auto
  moreover have "same_on bs bs' OFF_TOKEN_COUNT (OFF_TOKEN_COUNT + 8)"
    by (rule hdr) (simp add: header_offsets)
  moreover have "registry_inv bs d" using inv by (simp add: drive_inv_def Let_def)
  ultimately have "registry_inv bs' d" by (rule registry_frame)
  moreover have "header_config (slice bs' 0 HEADER_SIZE) = header_config (slice bs 0 HEADER_SIZE)"
    using cOff apart(5,6) p accountsTable_in [OF g] len by (intro header_frame same) (auto simp: table_in_def)
  moreover note inv acc post len p nz fresh
  ultimately show "drive_inv H bs' d"
    by (simp add: drive_inv_def Let_def table_post_def fresh_ids_def profile_defs)
qed

section \<open>Records\<close>

lemma putBE_sub_Ok:
  assumes "off + w \<le> length buf" and "0 < w" and "0 \<le> v" and "v < 256 ^ w"
  obtains buf' where "putBE_sub buf off w v = Ok buf'" and "length buf' = length buf"
    and "readBE (slice buf' off w) = nat v"
    and "\<And>p n. p + n \<le> off \<or> off + w \<le> p \<Longrightarrow> slice buf' p n = slice buf p n"
proof -
  let ?b = "putBE_loop w v []"
  have b: "putBE w v = Ok ?b" using assms by (simp add: putBE_Ok)
  have ne: "?b \<noteq> []" using assms(2) length_putBE_loop [of w v] by (metis length_greater_0_conv)
  have rd: "readBE ?b = nat v" using readBE_putBE_loop [of v w] assms by simp
  show ?thesis
  proof (rule that)
    show "putBE_sub buf off w v = Ok (splice buf off ?b)"
      using assms(1) b ne by (simp add: putBE_sub_def)
    show "length (splice buf off ?b) = length buf" using assms(1) by simp
    show "readBE (slice (splice buf off ?b) off w) = nat v"
      using assms(1) rd by (simp add: slice_splice_same)
    show "slice (splice buf off ?b) p n = slice buf p n" if "p + n \<le> off \<or> off + w \<le> p" for p n
      using assms(1) that by (simp add: slice_splice_disjoint)
  qed
qed

lemma putBE_sub_Throw:
  "off + w \<le> length buf \<Longrightarrow> \<not> (0 \<le> v \<and> v < 256 ^ w) \<Longrightarrow> putBE_sub buf off w v = Throw err_overflow"
  by (simp add: putBE_sub_def putBE_Throw)

lemma le_dec_setLE: "off + n \<le> length buf \<Longrightarrow> le_dec (slice (setLE n buf off v) off n) = nat (v mod 256 ^ n)"
  by (simp add: setLE_def slice_splice_same le_dec_le_enc nat_less_iff)

lemma slice_setLE:
  "off + n \<le> length buf \<Longrightarrow> p + m \<le> off \<or> off + n \<le> p \<Longrightarrow> slice (setLE n buf off v) p m = slice buf p m"
  by (simp add: setLE_def slice_splice_disjoint)

definition record_bytes :: "NormalizedConfig \<Rightarrow> nat" where
  "record_bytes c = (if compact c then 32 else 64)"

lemma encodeAccount_Ok:
  assumes "length addr = 20" and "\<not> (compact c \<and> nonce > 0xffffffff)"
    and "0 \<le> balance" and "balance < 256 ^ balance_bytes c"
  obtains r where "encodeAccount c addr nonce balance = Ok r" and "length r = record_bytes c"
    and "slice r 0 20 = addr"
    and "acct_dec c r = (nat (nonce mod 256 ^ nonce_bytes c), nat balance)"
proof (cases "compact c")
  case True
  let ?r = "setLE 4 (splice (zeros 32) 0 addr) 20 nonce"
  have len: "length ?r = 32" using assms(1) by simp
  obtain r where r: "putBE_sub ?r 24 8 balance = Ok r" "length r = length ?r"
      "readBE (slice r 24 8) = nat balance"
      "\<And>p n. p + n \<le> 24 \<or> 24 + 8 \<le> p \<Longrightarrow> slice r p n = slice ?r p n"
    using putBE_sub_Ok [of 24 8 ?r balance] len assms(3,4) True by (auto simp: balance_bytes_def)
  have "slice r 0 20 = addr" "slice r 20 4 = slice ?r 20 4"
    using r(4) assms(1) by (simp_all add: slice_setLE slice_splice_same)
  with that [of r] r len assms True show ?thesis
    by (simp add: encodeAccount_def record_bytes_def acct_dec_def nonce_bytes_def le_dec_setLE)
next
  case False
  let ?r = "setLE 8 (splice (zeros 64) 0 addr) 24 nonce"
  have len: "length ?r = 64" using assms(1) by simp
  obtain r where r: "putBE_sub ?r 32 32 balance = Ok r" "length r = length ?r"
      "readBE (slice r 32 32) = nat balance"
      "\<And>p n. p + n \<le> 32 \<or> 32 + 32 \<le> p \<Longrightarrow> slice r p n = slice ?r p n"
    using putBE_sub_Ok [of 32 32 ?r balance] len assms(3,4) False by (auto simp: balance_bytes_def)
  have "slice r 0 20 = addr" "slice r 24 8 = slice ?r 24 8"
    using r(4) assms(1) by (simp_all add: slice_setLE slice_splice_same)
  with that [of r] r len assms False show ?thesis
    by (simp add: encodeAccount_def record_bytes_def acct_dec_def nonce_bytes_def le_dec_setLE)
qed

lemma encodeAccount_Throw:
  assumes "length addr = 20"
    and "(compact c \<and> nonce > 0xffffffff) \<or> \<not> (0 \<le> balance \<and> balance < 256 ^ balance_bytes c)"
  shows "encodeAccount c addr nonce balance = Throw err_overflow"
  using assms by (auto simp: encodeAccount_def balance_bytes_def putBE_sub_Throw)

lemma decodeAccount_Ok: "record_bytes c \<le> length slot \<Longrightarrow> decodeAccount c slot = Ok (acct_dec c slot)"
  by (cases "compact c") (simp_all add: decodeAccount_def acct_dec_def record_bytes_def getLE32_def getLE64_def)

lemma acct_dec_splice:
  "length r = record_bytes c \<Longrightarrow> record_bytes c \<le> length slot \<Longrightarrow> acct_dec c (splice slot 0 r) = acct_dec c r"
  by (simp add: acct_dec_def record_bytes_def slice_splice_within split: if_splits)

lemma record_fits: "drive_geometry c n \<Longrightarrow> record_bytes c \<le> nat (slotSize c)"
  by (auto simp: drive_geometry_def geometry_def record_bytes_def compact_def profile_defs split: if_splits)

section \<open>Refinement\<close>

definition drive_refines ::
  "('s \<Rightarrow> bytes) \<Rightarrow> ('s \<Rightarrow> bool) \<Rightarrow> (bytes \<Rightarrow> bytes) \<Rightarrow> ('s \<times> Drive, 'a) prog
    \<Rightarrow> (NormalizedConfig \<Rightarrow> (Abs, 'a) prog) \<Rightarrow> bool" where
  "drive_refines contents ok H m sp \<longleftrightarrow>
     (\<forall>s d. ok s \<longrightarrow> drive_inv H (contents s) d \<longrightarrow>
        (\<exists>r s' d'. m (s, d) = (r, (s', d')) \<and> ok s' \<and> drive_inv H (contents s') d' \<and> d_cfg d' = d_cfg d \<and>
           sp (d_cfg d) (abs_drive d (contents s)) = (r, abs_drive d' (contents s'))))"

lemma drive_refinesI:
  assumes "\<And>s d. ok s \<Longrightarrow> drive_inv H (contents s) d \<Longrightarrow>
    \<exists>r s' d'. m (s, d) = (r, (s', d')) \<and> ok s' \<and> drive_inv H (contents s') d' \<and> d_cfg d' = d_cfg d \<and>
      sp (d_cfg d) (abs_drive d (contents s)) = (r, abs_drive d' (contents s'))"
  shows "drive_refines contents ok H m sp"
  using assms by (simp add: drive_refines_def)

lemma drive_refinesE:
  assumes "drive_refines contents ok H m sp" and "ok s" and "drive_inv H (contents s) d"
  obtains r s' d' where "m (s, d) = (r, (s', d'))" and "ok s'" and "drive_inv H (contents s') d'"
    and "d_cfg d' = d_cfg d" and "sp (d_cfg d) (abs_drive d (contents s)) = (r, abs_drive d' (contents s'))"
  using assms unfolding drive_refines_def by blast

lemma refines_ret: "drive_refines contents ok H (ret a) (\<lambda>c. ret a)"
  by (auto simp: drive_refines_def)

lemma refines_raise: "drive_refines contents ok H (raise e) (\<lambda>c. raise e)"
  by (auto simp: drive_refines_def)

lemma refines_bnd:
  assumes m: "drive_refines contents ok H m sp"
    and f: "\<And>a. drive_refines contents ok H (f a) (\<lambda>c. sf c a)"
  shows "drive_refines contents ok H (bnd m f) (\<lambda>c. bnd (sp c) (sf c))"
proof (rule drive_refinesI)
  fix s d
  assume "ok s" and "drive_inv H (contents s) d"
  with m obtain r s' d' where m': "m (s, d) = (r, (s', d'))" "ok s'" "drive_inv H (contents s') d'"
      "d_cfg d' = d_cfg d" "sp (d_cfg d) (abs_drive d (contents s)) = (r, abs_drive d' (contents s'))"
    by (rule drive_refinesE)
  show "\<exists>r s' d'. bnd m f (s, d) = (r, (s', d')) \<and> ok s' \<and> drive_inv H (contents s') d' \<and>
      d_cfg d' = d_cfg d \<and> bnd (sp (d_cfg d)) (sf (d_cfg d)) (abs_drive d (contents s)) = (r, abs_drive d' (contents s'))"
  proof (cases r)
    case (Ok a)
    from drive_refinesE [OF f m'(2,3)] obtain r2 s2 d2 where "f a (s', d') = (r2, (s2, d2))" "ok s2"
        "drive_inv H (contents s2) d2" "d_cfg d2 = d_cfg d'"
        "sf (d_cfg d') a (abs_drive d' (contents s')) = (r2, abs_drive d2 (contents s2))" by blast
    with m' Ok show ?thesis by auto
  qed (use m' in auto)
qed

lemma on_store_run: "m s = (r, s') \<Longrightarrow> on_store m (s, d) = (r, (s', d))"
  by (simp add: on_store_def zoom_run)

lemma checked_address_run:
  "length addr = 20 \<Longrightarrow> checked_address (ABytes addr) = (if isZero addr then raise err_zeroAddress else ret addr)"
  by (simp add: checked_address_def)

lemma drive_invD:
  assumes "drive_inv H bs d"
  shows "drive_geometry (d_cfg d) (length bs)" and "table_inv H (seed (d_cfg d)) (accountsTable (d_cfg d)) bs"
    and "profile (d_cfg d) = ProfileSparse \<Longrightarrow> table_inv H (seed (d_cfg d)) (sparseTable (d_cfg d)) bs"
    and "profile (d_cfg d) = ProfileSparse \<Longrightarrow> tget (sparseTable (d_cfg d)) bs k = Some sl \<Longrightarrow> sparse_val (d_cfg d) sl \<noteq> 0"
    and "registry_inv bs d"
    and "profile (d_cfg d) = ProfileSparse \<Longrightarrow> fresh_ids d bs"
    and "profile (d_cfg d) = ProfileWide \<Longrightarrow> tget (accountsTable (d_cfg d)) bs k = Some sl \<Longrightarrow> tail_zero d sl"
    and "header_config (slice bs 0 HEADER_SIZE) = Ok (d_cfg d)"
  using assms by (auto simp: drive_inv_def Let_def)

lemma acct_abs_None: "a_acct (abs_drive d bs) addr = None \<longleftrightarrow> tget (accountsTable (d_cfg d)) bs addr = None"
  by (simp add: abs_drive_def)

lemma sum_list_take_Suc: "i < length ws \<Longrightarrow> sum_list (take i ws) + ws ! i \<le> sum_list ws" for ws :: "nat list"
proof -
  assume "i < length ws"
  then have "sum_list (take (Suc i) ws) = sum_list (take i ws) + ws ! i"
    by (simp add: take_Suc_conv_app_nth)
  moreover have "sum_list (take (Suc i) ws) + sum_list (drop (Suc i) ws) = sum_list ws"
    by (metis append_take_drop_id sum_list_append)
  ultimately show ?thesis by linarith
qed

lemma readBE_zeros [simp]: "readBE (zeros n) = 0"
proof (induction n)
  case 0
  then show ?case by (simp add: zeros_def)
next
  case (Suc n)
  have "zeros (Suc n) = zeros n @ [0]" by (simp add: zeros_def replicate_append_same)
  with Suc show ?case by (simp add: readBE_snoc)
qed

lemma column_bounds:
  assumes "registry_inv bs d" and "tid < length (d_tokens d)"
  shows "64 \<le> colOff d ! tid" and "profile (d_cfg d) = ProfileWide \<Longrightarrow>
      colOff d ! tid + tok_width (d_tokens d ! tid) \<le> nat (slotSize (d_cfg d))"
    and "tok_width (d_tokens d ! tid) \<in> {8, 16, 32}"
  using assms sum_list_take_Suc [of tid "map tok_width (d_tokens d)"]
  by (auto simp: registry_inv_def Let_def columns_def list_all_length token_ok_def)

lemma column_apart:
  assumes "registry_inv bs d" and "i < length (d_tokens d)" and "j < length (d_tokens d)" and "i \<noteq> j"
  shows "colOff d ! i + tok_width (d_tokens d ! i) \<le> colOff d ! j \<or>
    colOff d ! j + tok_width (d_tokens d ! j) \<le> colOff d ! i"
proof -
  have "sum_list (take i ws) + ws ! i \<le> sum_list (take j ws)" if "i < j" "j < length ws" for i j and ws :: "nat list"
    using sum_list_take_Suc [of i "take j ws"] that by (simp add: min_def)
  from this [of i j "map tok_width (d_tokens d)"] this [of j i "map tok_width (d_tokens d)"] assms show ?thesis
    by (cases "i < j") (auto simp: registry_inv_def Let_def columns_def)
qed

lemma abs_accounts_put:
  assumes inv: "drive_inv H bs d" and addr: "length addr = 20"
    and post: "table_post H (seed (d_cfg d)) (accountsTable (d_cfg d)) bs bs'
      ((tget (accountsTable (d_cfg d)) bs)(addr \<mapsto> sl)) n"
    and col: "\<And>tid. profile (d_cfg d) = ProfileWide \<Longrightarrow> tid < length (d_tokens d) \<Longrightarrow>
      readBE (slice sl (colOff d ! tid) (tok_width (d_tokens d ! tid))) = f tid addr"
    and other: "\<And>tid x. x \<noteq> addr \<or> profile (d_cfg d) \<noteq> ProfileWide \<or> length (d_tokens d) \<le> tid \<Longrightarrow>
      f tid x = bal_of d bs tid x"
    and tail: "profile (d_cfg d) = ProfileWide \<Longrightarrow> tail_zero d sl"
  shows "drive_inv H bs' d" and "abs_drive d bs' = (abs_drive d bs)
    \<lparr>a_acct := (a_acct (abs_drive d bs))(addr \<mapsto> acct_dec (d_cfg d) sl), a_bal := f, a_live := n\<rparr>"
proof -
  have "tail_zero d sl'" if "profile (d_cfg d) = ProfileWide"
      "((tget (accountsTable (d_cfg d)) bs)(addr \<mapsto> sl)) k = Some sl'" for k sl'
    using that tail drive_invD(7) [OF inv] by (auto split: if_splits)
  note step = accounts_step [OF inv post this]
  show "drive_inv H bs' d" by (rule step)
  have t: "tget (accountsTable (d_cfg d)) bs' = (tget (accountsTable (d_cfg d)) bs)(addr \<mapsto> sl)"
    "tab_count (accountsTable (d_cfg d)) bs' = n"
    using post by (simp_all add: table_post_def)
  have "bal_of d bs' tid x = f tid x" for tid x
  proof (cases "profile (d_cfg d) = ProfileWide")
    case True
    show ?thesis
      using other [of x tid] col [OF True, of tid] addr t True
      by (cases "x = addr"; cases "tid < length (d_tokens d)") (auto simp: bal_of_def Let_def)
  next
    case False
    then show ?thesis using other [of x tid] step(3) by (simp add: bal_of_def Let_def)
  qed
  then show "abs_drive d bs' = (abs_drive d bs)
    \<lparr>a_acct := (a_acct (abs_drive d bs))(addr \<mapsto> acct_dec (d_cfg d) sl), a_bal := f, a_live := n\<rparr>"
    using t step(4) by (simp add: abs_drive_def fun_eq_iff)
qed

lemma tail_zero_splice:
  assumes "tail_zero d sl" and "length r \<le> 64" and "length r \<le> length sl"
  shows "tail_zero d (splice sl 0 r)"
  using assms by (auto simp: tail_zero_def columns_end_def slice_splice_disjoint)

lemma tail_zero_zeros: "tail_zero d (zeros n)"
  by (simp add: tail_zero_def slice_zeros)

text \<open>A record written at the start of an account slot: the key, the fields and the token columns behind it.\<close>

lemma record_splice:
  assumes g: "drive_geometry c n" and r: "length r = record_bytes c" "slice r 0 20 = addr" and nz: "\<not> isZero addr"
    and len: "length sl = t_slotSize (accountsTable c)"
  shows "length (splice sl 0 r) = t_slotSize (accountsTable c)" and "t_keyOf (accountsTable c) (splice sl 0 r) = addr"
    and "slot_live (accountsTable c) (splice sl 0 r)" and "acct_dec c (splice sl 0 r) = acct_dec c r"
    and "profile c = ProfileWide \<Longrightarrow> registry_inv bs d \<Longrightarrow> tid < length (d_tokens d) \<Longrightarrow>
      slice (splice sl 0 r) (colOff d ! tid) k = slice sl (colOff d ! tid) k"
    and "tail_zero d sl \<Longrightarrow> tail_zero d (splice sl 0 r)"
    and "record_bytes c \<le> t_slotSize (accountsTable c)"
proof -
  have fits: "record_bytes c \<le> t_slotSize (accountsTable c)" "20 \<le> record_bytes c"
    using record_fits [OF g] by (auto simp: accountsTable_def record_bytes_def)
  then show "record_bytes c \<le> t_slotSize (accountsTable c)" by simp
  show "length (splice sl 0 r) = t_slotSize (accountsTable c)" using r(1) len fits by simp
  show "t_keyOf (accountsTable c) (splice sl 0 r) = addr" "slot_live (accountsTable c) (splice sl 0 r)"
    using r nz len fits by (simp_all add: accountsTable_def slot_live_def slice_splice_within)
  show "acct_dec c (splice sl 0 r) = acct_dec c r" using r(1) len fits by (simp add: acct_dec_splice)
  show "slice (splice sl 0 r) (colOff d ! tid) k = slice sl (colOff d ! tid) k"
    if "profile c = ProfileWide" "registry_inv bs d" "tid < length (d_tokens d)"
    using column_bounds(1) [OF that(2,3)] r(1) len fits
    by (intro slice_splice_disjoint) (auto simp: record_bytes_def split: if_splits)
  show "tail_zero d (splice sl 0 r)" if "tail_zero d sl"
    using that r(1) len fits by (intro tail_zero_splice) (auto simp: record_bytes_def)
qed

context byte_store
begin

lemma accounts_drive_table:
  assumes "keccak_digest H" and "drive_geometry c n"
  shows "drive_table S contents ok H (accountsTable c)"
  using assms accountsTable_ok [OF assms(2)]
  by (intro drive_table.intro drive_table_axioms.intro byte_store_axioms) (simp_all add: keccak_digest_def)

lemma sparse_drive_table:
  assumes "keccak_digest H" and "drive_geometry c n" and "profile c = ProfileSparse"
  shows "drive_table S contents ok H (sparseTable c)"
  using assms sparseTable_ok [OF assms(2,3)]
  by (intro drive_table.intro drive_table_axioms.intro byte_store_axioms) (simp_all add: keccak_digest_def)

lemma found_slot_length:
  assumes "table_inv H sd t bs" and "i < t_capacity t"
  shows "length (slots t bs ! i) = t_slotSize t"
  using assms by (simp add: table_inv_def)

lemma getAccount_runs:
  assumes H: "keccak_digest H" and addr: "length addr = 20" and ok: "ok s" and inv: "drive_inv H (contents s) d"
  shows "getAccount H S (ABytes addr) (s, d) = (fst (spec_getAccount (d_cfg d) addr (abs_drive d (contents s))), (s, d))"
proof -
  let ?c = "d_cfg d" and ?t = "accountsTable (d_cfg d)"
  note g = drive_invD(1) [OF inv] and ti = drive_invD(2) [OF inv]
  note dt = accounts_drive_table [OF H g]
  show ?thesis
  proof (cases "tget ?t (contents s) addr")
    case None
    have "drive_lookup H (seed ?c) S ?t addr s = (Ok None, s)"
      by (rule drive_table.lookup_absent [OF dt ok ti None])
    with None addr show ?thesis
      by (simp add: getAccount_def checked_address_run on_store_run spec_getAccount_def abs_drive_def)
  next
    case (Some sl)
    from drive_table.lookup_found [OF dt ok ti Some] obtain i where
      i: "drive_lookup H (seed ?c) S ?t addr s = (Ok (Some (i, sl)), s)" "i < t_capacity ?t"
        "slots ?t (contents s) ! i = sl" by blast
    have "record_bytes ?c \<le> length sl"
      using found_slot_length [OF ti i(2)] i(3) record_fits [OF g] by (simp add: accountsTable_def)
    with Some addr i(1) show ?thesis
      by (simp add: getAccount_def checked_address_run on_store_run spec_getAccount_def abs_drive_def
          decodeAccount_Ok split: prod.split)
  qed
qed

lemma getAccount_refines:
  assumes "keccak_digest H" and "length addr = 20"
  shows "drive_refines contents ok H (getAccount H S (ABytes addr)) (\<lambda>c. spec_getAccount c addr)"
proof (rule drive_refinesI)
  fix s d
  assume "ok s" and "drive_inv H (contents s) d"
  moreover have "snd (spec_getAccount c addr a) = a" for c a by (simp add: spec_getAccount_def)
  ultimately show "\<exists>r s' d'. getAccount H S (ABytes addr) (s, d) = (r, (s', d')) \<and> ok s' \<and>
      drive_inv H (contents s') d' \<and> d_cfg d' = d_cfg d \<and>
      spec_getAccount (d_cfg d) addr (abs_drive d (contents s)) = (r, abs_drive d' (contents s'))"
    using getAccount_runs [OF assms, of s d] by (auto simp: prod_eq_iff)
qed

lemma accounts_counter:
  assumes "ok s" and inv: "drive_inv H (contents s) d"
  shows "drive_counter S (t_countOff (accountsTable (d_cfg d))) s = (Ok (a_live (abs_drive d (contents s))), s)"
  using counter_runs [OF assms(1), of "t_countOff (accountsTable (d_cfg d))"] drive_invD(2) [OF inv]
    accountsTable_ok [OF drive_invD(1) [OF inv]]
  by (simp add: table_inv_def abs_drive_def tab_count_def count_inside)

text \<open>An account that is there is found, and its slot can be replaced by any other slot of the same account.\<close>

lemma account_update:
  assumes H: "keccak_digest H" and ok: "ok s" and inv: "drive_inv H (contents s) d"
    and Some: "tget (accountsTable (d_cfg d)) (contents s) addr = Some sl"
  obtains i where "drive_lookup H (seed (d_cfg d)) S (accountsTable (d_cfg d)) addr s = (Ok (Some (i, sl)), s)"
    and "length sl = t_slotSize (accountsTable (d_cfg d))" and "slot_live (accountsTable (d_cfg d)) sl"
    and "t_keyOf (accountsTable (d_cfg d)) sl = addr"
    and "\<And>sl'. length sl' = t_slotSize (accountsTable (d_cfg d)) \<Longrightarrow> t_keyOf (accountsTable (d_cfg d)) sl' = addr \<Longrightarrow>
      slot_live (accountsTable (d_cfg d)) sl' \<Longrightarrow>
      \<exists>s'. writeSlot S (accountsTable (d_cfg d)) i sl' s = (Ok (), s') \<and> ok s' \<and>
        table_post H (seed (d_cfg d)) (accountsTable (d_cfg d)) (contents s) (contents s')
          ((tget (accountsTable (d_cfg d)) (contents s))(addr \<mapsto> sl')) (tab_count (accountsTable (d_cfg d)) (contents s))"
proof -
  let ?t = "accountsTable (d_cfg d)"
  note ti = drive_invD(2) [OF inv] and dt = accounts_drive_table [OF H drive_invD(1) [OF inv]]
  from drive_table.lookup_found [OF dt ok ti Some] obtain i where
    i: "drive_lookup H (seed (d_cfg d)) S ?t addr s = (Ok (Some (i, sl)), s)" "i < t_capacity ?t"
      "slots ?t (contents s) ! i = sl" "slot_live ?t sl" "t_keyOf ?t sl = addr" by blast
  show thesis
  proof (rule that [OF i(1)])
    show "length sl = t_slotSize ?t" using found_slot_length [OF ti i(2)] i(3) by simp
    fix sl'
    assume "length sl' = t_slotSize ?t" "t_keyOf ?t sl' = addr" "slot_live ?t sl'"
    with drive_table.update_ok [OF dt ok ti i(2), of sl'] i(3-5)
    show "\<exists>s'. writeSlot S ?t i sl' s = (Ok (), s') \<and> ok s' \<and> table_post H (seed (d_cfg d)) ?t (contents s) (contents s')
        ((tget ?t (contents s))(addr \<mapsto> sl')) (tab_count ?t (contents s))" by metis
  qed (use i in auto)
qed

text \<open>The map is updated at one account once a slot with the new record is in the table.\<close>

lemma setAccount_put:
  assumes inv: "drive_inv H (contents s) d" and addr: "length addr = 20" "\<not> isZero addr"
    and good: "\<not> (compact (d_cfg d) \<and> nonce > 0xffffffff)" "0 \<le> balance" "balance < 256 ^ balance_bytes (d_cfg d)"
    and room: "a_acct (abs_drive d (contents s)) addr = None \<Longrightarrow> a_live (abs_drive d (contents s)) < nat (loadLimit (d_cfg d))"
    and post: "table_post H (seed (d_cfg d)) (accountsTable (d_cfg d)) (contents s) (contents s')
      ((tget (accountsTable (d_cfg d)) (contents s))(addr \<mapsto> sl))
      (if a_acct (abs_drive d (contents s)) addr = None then a_live (abs_drive d (contents s)) + 1
       else a_live (abs_drive d (contents s)))"
    and sl: "acct_dec (d_cfg d) sl = (nat (nonce mod 256 ^ nonce_bytes (d_cfg d)), nat balance)"
    and col: "\<And>tid. profile (d_cfg d) = ProfileWide \<Longrightarrow> tid < length (d_tokens d) \<Longrightarrow>
      readBE (slice sl (colOff d ! tid) (tok_width (d_tokens d ! tid))) = bal_of d (contents s) tid addr"
    and tail: "profile (d_cfg d) = ProfileWide \<Longrightarrow> tail_zero d sl"
  shows "drive_inv H (contents s') d" and
    "spec_setAccount (d_cfg d) addr nonce balance (abs_drive d (contents s)) = (Ok (), abs_drive d (contents s'))"
proof -
  let ?a = "abs_drive d (contents s)"
  show "drive_inv H (contents s') d"
    by (rule abs_accounts_put [OF inv addr(1) post, of "bal_of d (contents s)"]; use col tail in blast)
  have "abs_drive d (contents s') = ?a\<lparr>a_acct := (a_acct ?a)(addr \<mapsto> acct_dec (d_cfg d) sl), a_bal := bal_of d (contents s),
      a_live := (if a_acct ?a addr = None then a_live ?a + 1 else a_live ?a)\<rparr>"
    by (rule abs_accounts_put [OF inv addr(1) post, of "bal_of d (contents s)"]; use col tail in blast)
  moreover have "a_bal ?a = bal_of d (contents s)" by (simp add: abs_drive_def)
  ultimately show "spec_setAccount (d_cfg d) addr nonce balance ?a = (Ok (), abs_drive d (contents s'))"
    using addr good room sl by (cases "a_acct ?a addr = None") (simp_all add: spec_setAccount_def not_le)
qed

text \<open>Writing to an account that is there, and to one that is not while the table has room for it.\<close>

lemma setAccount_existing:
  assumes H: "keccak_digest H" and addr: "length addr = 20" "\<not> isZero addr" and ok: "ok s"
    and inv: "drive_inv H (contents s) d"
    and good: "\<not> (compact (d_cfg d) \<and> nonce > 0xffffffff)" "0 \<le> balance" "balance < 256 ^ balance_bytes (d_cfg d)"
    and Some: "tget (accountsTable (d_cfg d)) (contents s) addr = Some sl"
  shows "\<exists>s'. setAccount H S (ABytes addr) nonce balance (s, d) = (Ok (), (s', d)) \<and> ok s' \<and> drive_inv H (contents s') d \<and>
    spec_setAccount (d_cfg d) addr nonce balance (abs_drive d (contents s)) = (Ok (), abs_drive d (contents s'))"
proof -
  let ?t = "accountsTable (d_cfg d)"
  note g = drive_invD(1) [OF inv]
  from encodeAccount_Ok [OF addr(1) good] obtain r where
    r: "encodeAccount (d_cfg d) addr nonce balance = Ok r" "length r = record_bytes (d_cfg d)" "slice r 0 20 = addr"
      "acct_dec (d_cfg d) r = (nat (nonce mod 256 ^ nonce_bytes (d_cfg d)), nat balance)" .
  from account_update [OF H ok inv Some] obtain i where
    i: "drive_lookup H (seed (d_cfg d)) S ?t addr s = (Ok (Some (i, sl)), s)" "length sl = t_slotSize ?t"
      "length (splice sl 0 r) = t_slotSize ?t \<Longrightarrow> t_keyOf ?t (splice sl 0 r) = addr \<Longrightarrow> slot_live ?t (splice sl 0 r) \<Longrightarrow>
        \<exists>s'. writeSlot S ?t i (splice sl 0 r) s = (Ok (), s') \<and> ok s' \<and> table_post H (seed (d_cfg d)) ?t (contents s) (contents s')
          ((tget ?t (contents s))(addr \<mapsto> splice sl 0 r)) (tab_count ?t (contents s))" by metis
  note sp = record_splice [OF g r(2,3) addr(2) i(2)]
  from i(3) sp(1-3) obtain s' where s': "writeSlot S ?t i (splice sl 0 r) s = (Ok (), s')" "ok s'"
    "table_post H (seed (d_cfg d)) ?t (contents s) (contents s')
      ((tget ?t (contents s))(addr \<mapsto> splice sl 0 r)) (tab_count ?t (contents s))" by blast
  have "drive_inv H (contents s') d"
    "spec_setAccount (d_cfg d) addr nonce balance (abs_drive d (contents s)) = (Ok (), abs_drive d (contents s'))"
    by (rule setAccount_put [where sl = "splice sl 0 r", OF inv addr good];
        use s'(3) Some r(4) sp addr drive_invD(7) [OF inv _ Some] drive_invD(5) [OF inv] in
          \<open>auto simp: acct_abs_None abs_drive_def bal_of_def Let_def\<close>)+
  moreover have "setAccount H S (ABytes addr) nonce balance (s, d) = (Ok (), (s', d))"
    using addr r(1,2) sp(7) i(1,2) s'(1)
    by (simp add: setAccount_def checked_address_run Let_def on_store_run arr_set_def)
  ultimately show ?thesis using s'(2) by blast
qed

lemma setAccount_fresh:
  assumes H: "keccak_digest H" and addr: "length addr = 20" "\<not> isZero addr" and ok: "ok s"
    and inv: "drive_inv H (contents s) d"
    and good: "\<not> (compact (d_cfg d) \<and> nonce > 0xffffffff)" "0 \<le> balance" "balance < 256 ^ balance_bytes (d_cfg d)"
    and None: "tget (accountsTable (d_cfg d)) (contents s) addr = None"
    and room: "a_live (abs_drive d (contents s)) < nat (loadLimit (d_cfg d))"
  shows "\<exists>s'. setAccount H S (ABytes addr) nonce balance (s, d) = (Ok (), (s', d)) \<and> ok s' \<and> drive_inv H (contents s') d \<and>
    spec_setAccount (d_cfg d) addr nonce balance (abs_drive d (contents s)) = (Ok (), abs_drive d (contents s'))"
proof -
  let ?t = "accountsTable (d_cfg d)"
  note g = drive_invD(1) [OF inv] and ti = drive_invD(2) [OF inv] and ri = drive_invD(5) [OF inv]
  note dt = accounts_drive_table [OF H g]
  from encodeAccount_Ok [OF addr(1) good] obtain r where
    r: "encodeAccount (d_cfg d) addr nonce balance = Ok r" "length r = record_bytes (d_cfg d)" "slice r 0 20 = addr"
      "acct_dec (d_cfg d) r = (nat (nonce mod 256 ^ nonce_bytes (d_cfg d)), nat balance)" .
  let ?full = "splice (zeros (t_slotSize ?t)) 0 r"
  have "length (zeros (t_slotSize ?t)) = t_slotSize ?t" by simp
  note sp = record_splice [OF g r(2,3) addr(2) this]
  have "tab_count ?t (contents s) < t_limit ?t" using room by (simp add: abs_drive_def accountsTable_def)
  with drive_table.insert_ok [OF dt ok ti sp(1,3)] None sp(2) obtain s' where
    s': "drive_insert H (seed (d_cfg d)) S ?t ?full s = (Ok (), s')" "ok s'"
      "table_post H (seed (d_cfg d)) ?t (contents s) (contents s') ((tget ?t (contents s))(addr \<mapsto> ?full))
        (tab_count ?t (contents s) + 1)" by metis
  have col: "readBE (slice ?full (colOff d ! tid) (tok_width (d_tokens d ! tid))) = bal_of d (contents s) tid addr"
    if "profile (d_cfg d) = ProfileWide" "tid < length (d_tokens d)" for tid
    using that sp(5) [OF that(1) ri that(2)] column_bounds(2) [OF ri that(2,1)] None
    by (simp add: slice_zeros accountsTable_def bal_of_def Let_def readBE_zeros)
  have "drive_inv H (contents s') d"
    "spec_setAccount (d_cfg d) addr nonce balance (abs_drive d (contents s)) = (Ok (), abs_drive d (contents s'))"
    by (rule setAccount_put [where sl = ?full, OF inv addr good room];
        use s'(3) None r(4) sp(4,6) col tail_zero_zeros in \<open>auto simp: acct_abs_None abs_drive_def\<close>)+
  moreover have "setAccount H S (ABytes addr) nonce balance (s, d) = (Ok (), (s', d))"
    using addr r(1,2) sp(7) room drive_table.lookup_absent [OF dt ok ti None] accounts_counter [OF ok inv] s'(1)
    by (simp add: setAccount_def checked_address_run Let_def on_store_run arr_set_def accountsTable_def)
  ultimately show ?thesis using s'(2) by blast
qed

lemma setAccount_refines:
  assumes H: "keccak_digest H" and addr: "length addr = 20"
  shows "drive_refines contents ok H (setAccount H S (ABytes addr) nonce balance)
    (\<lambda>c. spec_setAccount c addr nonce balance)"
proof (rule drive_refinesI)
  fix s d
  assume ok: "ok s" and inv: "drive_inv H (contents s) d"
  let ?c = "d_cfg d" and ?t = "accountsTable (d_cfg d)" and ?a = "abs_drive d (contents s)"
  let ?bad = "(compact ?c \<and> nonce > 0xffffffff) \<or> \<not> (0 \<le> balance \<and> balance < 256 ^ balance_bytes ?c)"
  show "\<exists>r s' d'. setAccount H S (ABytes addr) nonce balance (s, d) = (r, (s', d')) \<and> ok s' \<and>
      drive_inv H (contents s') d' \<and> d_cfg d' = ?c \<and> spec_setAccount ?c addr nonce balance ?a = (r, abs_drive d' (contents s'))"
  proof (cases "isZero addr \<or> ?bad")
    case True
    then show ?thesis
      using ok inv addr encodeAccount_Throw [OF addr, of ?c nonce balance]
      by (cases "isZero addr") (auto simp: setAccount_def checked_address_run spec_setAccount_def)
  next
    case False
    then have good: "\<not> isZero addr" "\<not> (compact ?c \<and> nonce > 0xffffffff)" "0 \<le> balance" "balance < 256 ^ balance_bytes ?c"
      by blast+
    show ?thesis
    proof (cases "tget ?t (contents s) addr")
      case None
      show ?thesis
      proof (cases "a_live ?a < nat (loadLimit ?c)")
        case True
        from setAccount_fresh [OF H addr good(1) ok inv good(2-4) None True] show ?thesis by blast
      next
        case full: False
        obtain r where "encodeAccount ?c addr nonce balance = Ok r" using encodeAccount_Ok [OF addr good(2-4)] .
        with full False show ?thesis
          using ok inv addr accounts_counter [OF ok inv] None
            drive_table.lookup_absent [OF accounts_drive_table [OF H drive_invD(1) [OF inv]] ok drive_invD(2) [OF inv] None]
          by (auto simp: setAccount_def checked_address_run Let_def on_store_run spec_setAccount_def acct_abs_None
              accountsTable_def)
      qed
    next
      case (Some sl)
      from setAccount_existing [OF H addr good(1) ok inv good(2-4) Some] show ?thesis by blast
    qed
  qed
qed

end

end
