(* ===== verification/Drive_Tokens.thy ===== *)
theory Drive_Tokens
  imports Drive_Spec
begin

text \<open>
  Refinement of the remaining drive operations: deletion and token balances in the wide and the sparse
  profile.
\<close>

section \<open>Deleting an account\<close>

lemma abs_accounts_del:
  assumes inv: "drive_inv H bs d"
    and post: "table_post H (seed (d_cfg d)) (accountsTable (d_cfg d)) bs bs'
      ((tget (accountsTable (d_cfg d)) bs)(addr := None)) n"
  shows "drive_inv H bs' d" and "abs_drive d bs' = (abs_drive d bs)
    \<lparr>a_acct := (a_acct (abs_drive d bs))(addr := None), a_live := n,
     a_bal := (if profile (d_cfg d) = ProfileWide then (\<lambda>tid. (bal_of d bs tid)(addr := 0)) else bal_of d bs)\<rparr>"
proof -
  have "tail_zero d sl" if "profile (d_cfg d) = ProfileWide"
      "((tget (accountsTable (d_cfg d)) bs)(addr := None)) k = Some sl" for k sl
    using that drive_invD(7) [OF inv] by (auto split: if_splits)
  note step = accounts_step [OF inv post this]
  show "drive_inv H bs' d" by (rule step)
  have t: "tget (accountsTable (d_cfg d)) bs' = (tget (accountsTable (d_cfg d)) bs)(addr := None)"
    "tab_count (accountsTable (d_cfg d)) bs' = n"
    using post by (simp_all add: table_post_def)
  have "bal_of d bs' tid x = (if profile (d_cfg d) = ProfileWide then ((bal_of d bs tid)(addr := 0)) x else bal_of d bs tid x)"
    for tid x
    using t step(3) by (auto simp: bal_of_def Let_def)
  then show "abs_drive d bs' = (abs_drive d bs)
    \<lparr>a_acct := (a_acct (abs_drive d bs))(addr := None), a_live := n,
     a_bal := (if profile (d_cfg d) = ProfileWide then (\<lambda>tid. (bal_of d bs tid)(addr := 0)) else bal_of d bs)\<rparr>"
    using t step(4) by (simp add: abs_drive_def fun_eq_iff)
qed

context byte_store
begin

lemma deleteAccount_refines:
  assumes H: "keccak_digest H" and addr: "length addr = 20"
  shows "drive_refines contents ok H (deleteAccount H S (ABytes addr) force) (\<lambda>c. spec_deleteAccount c addr force)"
proof (rule drive_refinesI)
  fix s d
  assume ok: "ok s" and inv: "drive_inv H (contents s) d"
  let ?c = "d_cfg d" and ?t = "accountsTable (d_cfg d)" and ?a = "abs_drive d (contents s)"
  note g = drive_invD(1) [OF inv] and ti = drive_invD(2) [OF inv]
  note dt = accounts_drive_table [OF H g]
  show "\<exists>r s' d'. deleteAccount H S (ABytes addr) force (s, d) = (r, (s', d')) \<and> ok s' \<and>
      drive_inv H (contents s') d' \<and> d_cfg d' = ?c \<and> spec_deleteAccount ?c addr force ?a = (r, abs_drive d' (contents s'))"
  proof (cases "tget ?t (contents s) addr")
    case None
    with drive_table.lookup_absent [OF dt ok ti None] addr ok inv show ?thesis
      by (auto simp: deleteAccount_def checked_address_run Let_def on_store_run spec_deleteAccount_def abs_drive_def)
  next
    case (Some sl)
    from drive_table.lookup_found [OF dt ok ti Some] obtain i where
      i: "drive_lookup H (seed ?c) S ?t addr s = (Ok (Some (i, sl)), s)" "i < t_capacity ?t"
        "slots ?t (contents s) ! i = sl" "slot_live ?t sl" "t_keyOf ?t sl = addr" by blast
    have dec: "decodeAccount ?c sl = Ok (acct_dec ?c sl)"
      using found_slot_length [OF ti i(2)] i(3) record_fits [OF g]
      by (intro decodeAccount_Ok) (simp add: accountsTable_def)
    obtain n b where nb: "acct_dec ?c sl = (n, b)" by fastforce
    have acct: "a_acct ?a addr = Some (n, b)" using Some nb by (simp add: abs_drive_def)
    show ?thesis
    proof (cases "isZero addr \<or> (\<not> force \<and> n \<noteq> 0)")
      case True
      with acct dec nb i(1) addr ok inv show ?thesis
        by (auto simp: deleteAccount_def checked_address_run Let_def on_store_run spec_deleteAccount_def)
    next
      case False
      from drive_table.remove_ok [OF dt ok ti i(2)] i(3-5) obtain s' where s':
        "drive_remove H (seed ?c) S ?t i s = (Ok (), s')" "ok s'"
        "table_post H (seed ?c) ?t (contents s) (contents s') ((tget ?t (contents s))(addr := None))
          (tab_count ?t (contents s) - 1)" by auto
      have "spec_deleteAccount ?c addr force ?a = (Ok True, abs_drive d (contents s'))"
        using False acct abs_accounts_del(2) [OF inv s'(3)] by (auto simp: spec_deleteAccount_def abs_drive_def)
      moreover have "deleteAccount H S (ABytes addr) force (s, d) = (Ok True, (s', d))"
        using False dec nb i(1) addr s'(1)
        by (simp add: deleteAccount_def checked_address_run Let_def on_store_run)
      ultimately show ?thesis using s'(2) abs_accounts_del(1) [OF inv s'(3)] by auto
    qed
  qed
qed

end

section \<open>Keys of the sparse table\<close>

lemma sparseTable_sel:
  "t_keyOf (sparseTable c) s = splice (splice (zeros 22) 0 (slice s 0 2)) 2 (slice s 4 20)"
  "t_liveOff (sparseTable c) = 4" "t_slotSize (sparseTable c) = nat (sparseSlotSize c)"
  "t_limit (sparseTable c) = nat (sparseLoadLimit c)" "t_countOff (sparseTable c) = 0x88"
  by (simp_all add: sparseTable_def header_offsets)

lemma and_ff: "n AND 0xff = n mod 256" for n :: nat
  using take_bit_eq_mask [of 8 n] by (simp add: take_bit_eq_mod mask_eq_exp_minus_1)

lemma unat_of_nat_byte: "unat (of_nat n :: byte) = n mod 256"
  by (simp add: unsigned_of_nat take_bit_eq_mod)

lemma id_bytes:
  assumes "tid < 65536"
  shows "unat (of_nat (tid AND 0xff) :: byte) + 256 * unat (of_nat (drop_bit 8 tid AND 0xff) :: byte) = tid"
proof -
  have "tid div 256 < 256" using assms by (simp add: div_less_iff_less_mult)
  then show ?thesis unfolding and_ff unat_of_nat_byte by (simp add: drop_bit_eq_div)
qed

lemma sparseKey_slices:
  assumes "length addr = 20"
  shows "slice (sparseKey tid addr) 0 2 = [of_nat (tid AND 0xff), of_nat (drop_bit 8 tid AND 0xff)]"
    and "slice (sparseKey tid addr) 2 20 = addr"
proof -
  have z: "zeros 22 = 0 # 0 # zeros 20" by (simp add: zeros_def eval_nat_numeral)
  have "slice (sparseKey tid addr) 0 2
      = slice ((zeros 22)[0 := of_nat (tid AND 0xff), 1 := of_nat (drop_bit 8 tid AND 0xff)]) 0 2"
    unfolding sparseKey_def using assms by (intro slice_splice_disjoint) simp_all
  then show "slice (sparseKey tid addr) 0 2 = [of_nat (tid AND 0xff), of_nat (drop_bit 8 tid AND 0xff)]"
    by (simp add: z slice_def)
  show "slice (sparseKey tid addr) 2 20 = addr"
    unfolding sparseKey_def using assms by (intro slice_splice_same) simp_all
qed

lemma sparseKey_inject:
  assumes "length a = 20" and "length b = 20" and "i < 65536" and "j < 65536"
    and "sparseKey i a = sparseKey j b"
  shows "i = j \<and> a = b"
  using assms sparseKey_slices [of a i] sparseKey_slices [of b j] id_bytes [of i] id_bytes [of j]
  by (metis list.inject)

text \<open>The slot \<^verbatim>\<open>setTokenBalance\<close> builds for a new sparse record, before the balance is put in.\<close>

lemma sparse_record:
  fixes tid :: nat
  assumes "length addr = 20" and "32 \<le> n"
  defines "r \<equiv> splice ((zeros n)[0 := of_nat (tid AND 0xff), 1 := of_nat (drop_bit 8 tid AND 0xff)]) 4 addr"
  shows "length r = n" and "slice r 4 20 = addr"
    and "t_keyOf (sparseTable c) r = sparseKey tid addr"
proof -
  let ?ids = "[of_nat (tid AND 0xff), of_nat (drop_bit 8 tid AND 0xff)]"
  obtain m where n: "n = Suc (Suc m)" using assms(2) that [of "n - 2"] by simp
  have zz: "(zeros n)[0 := x, 1 := y] = x # y # zeros m" for x y by (simp add: n zeros_def)
  show len: "length r = n" using assms by simp
  show a: "slice r 4 20 = addr" unfolding r_def using assms by (intro slice_splice_same) simp_all
  have "slice r 0 2 = slice ((zeros n)[0 := of_nat (tid AND 0xff), 1 := of_nat (drop_bit 8 tid AND 0xff)]) 0 2"
    unfolding r_def using assms by (intro slice_splice_disjoint) simp_all
  then have i: "slice r 0 2 = ?ids" unfolding zz by (simp add: slice_def)
  have "splice (zeros 22) 0 ?ids = (zeros 22)[0 := of_nat (tid AND 0xff), 1 := of_nat (drop_bit 8 tid AND 0xff)]"
    by (simp add: splice_def zeros_def eval_nat_numeral)
  then show "t_keyOf (sparseTable c) r = sparseKey tid addr"
    by (simp add: sparseTable_sel a i sparseKey_def)
qed

section \<open>Token balances in the sparse profile\<close>

lemma token_id_bound:
  assumes "drive_inv H bs d" and "tid < length (d_tokens d)"
  shows "tid < 65536"
  using drive_invD(1,5) [OF assms(1)] assms(2)
  by (auto simp: registry_inv_def Let_def drive_geometry_def geometry_def split: if_splits)

lemma token_width_sparse:
  fixes v :: int
  assumes "drive_inv H bs d" and "tid < length (d_tokens d)" and "profile (d_cfg d) = ProfileSparse"
    and "0 \<le> v" and "v < 256 ^ tok_width (d_tokens d ! tid)"
  shows "v < 256 ^ (if sparseSlotSize (d_cfg d) = 32 then 8 else 32)"
proof -
  have "token_ok (d_cfg d) (d_tokens d ! tid)"
    using drive_invD(5) [OF assms(1)] assms(2) by (simp add: registry_inv_def Let_def list_all_length)
  then have "tok_width (d_tokens d ! tid) \<le> (if sparseSlotSize (d_cfg d) = 32 then 8 else 32)"
    using assms(3) by (auto simp: token_ok_def)
  then have "(256 :: int) ^ tok_width (d_tokens d ! tid) \<le> 256 ^ (if sparseSlotSize (d_cfg d) = 32 then 8 else 32)"
    by (intro power_increasing) simp_all
  with assms(5) show ?thesis by linarith
qed

lemma putSparseBalance_Ok:
  assumes "length slot = nat (sparseSlotSize c)" and "sparseSlotSize c = 64 \<or> sparseSlotSize c = 32"
    and "0 \<le> v" and "v < 256 ^ (if sparseSlotSize c = 32 then 8 else 32)"
  obtains slot' where "putSparseBalance c slot v = Ok slot'" and "length slot' = length slot"
    and "sparse_val c slot' = nat v" and "t_keyOf (sparseTable c) slot' = t_keyOf (sparseTable c) slot"
    and "slot_live (sparseTable c) slot' = slot_live (sparseTable c) slot"
proof -
  let ?off = "if sparseSlotSize c = 32 then 24 else 32" and ?w = "if sparseSlotSize c = 32 then 8 else 32 :: nat"
  have "?off + ?w \<le> length slot" and "0 < ?w" using assms(1,2) by auto
  then obtain slot' where s: "putBE_sub slot ?off ?w v = Ok slot'" "length slot' = length slot"
      "readBE (slice slot' ?off ?w) = nat v"
      "\<And>p n. p + n \<le> ?off \<or> ?off + ?w \<le> p \<Longrightarrow> slice slot' p n = slice slot p n"
    using putBE_sub_Ok [of ?off ?w slot v] assms(3,4) by metis
  have "slice slot' 0 2 = slice slot 0 2" "slice slot' 4 20 = slice slot 4 20" by (rule s(4); simp)+
  with that [of slot'] s(1-3) show ?thesis
    by (auto simp: putSparseBalance_def sparse_val_def sparseTable_sel slot_live_def split: if_splits)
qed

lemma abs_sparse:
  assumes inv: "drive_inv H bs d" and p: "profile (d_cfg d) = ProfileSparse"
    and post: "table_post H (seed (d_cfg d)) (sparseTable (d_cfg d)) bs bs'
      ((tget (sparseTable (d_cfg d)) bs)(sparseKey tid addr := x)) n"
    and tid: "tid < length (d_tokens d)" and addr: "length addr = 20"
    and x: "\<And>sl. x = Some sl \<Longrightarrow> sparse_val (d_cfg d) sl \<noteq> 0"
  shows "drive_inv H bs' d" and "abs_drive d bs' = (abs_drive d bs)
    \<lparr>a_bal := (bal_of d bs)(tid := (bal_of d bs tid)(addr := (case x of None \<Rightarrow> 0 | Some sl \<Rightarrow> sparse_val (d_cfg d) sl))),
     a_sparse := n\<rparr>"
proof -
  let ?u = "sparseTable (d_cfg d)"
  have nz: "sparse_val (d_cfg d) sl \<noteq> 0" if "((tget ?u bs)(sparseKey tid addr := x)) k = Some sl" for k sl
    using that x drive_invD(4) [OF inv p] by (auto split: if_splits)
  have fresh: "((tget ?u bs)(sparseKey tid addr := x)) (sparseKey i y) = None"
    if "length (d_tokens d) \<le> i" "i < 65536" "length y = 20" for i y
    using that sparseKey_inject [of y addr i tid] addr token_id_bound [OF inv tid] tid drive_invD(6) [OF inv p]
    by (auto simp: fresh_ids_def)
  have step: "drive_inv H bs' d" "tget (accountsTable (d_cfg d)) bs' = tget (accountsTable (d_cfg d)) bs"
    "tab_count (accountsTable (d_cfg d)) bs' = tab_count (accountsTable (d_cfg d)) bs"
    by (rule sparse_step [OF inv p post]; use nz fresh in blast)+
  show "drive_inv H bs' d" by (rule step)
  have t: "tget ?u bs' = (tget ?u bs)(sparseKey tid addr := x)" "tab_count ?u bs' = n"
    using post by (simp_all add: table_post_def)
  have other: "sparseKey i y \<noteq> sparseKey tid addr"
    if "i < length (d_tokens d)" "length y = 20" "\<not> (i = tid \<and> y = addr)" for i y
    using that sparseKey_inject [of y addr i tid] addr token_id_bound [OF inv] tid by blast
  have "bal_of d bs' i y = ((bal_of d bs)(tid := (bal_of d bs tid)
      (addr := (case x of None \<Rightarrow> 0 | Some sl \<Rightarrow> sparse_val (d_cfg d) sl)))) i y" for i y
  proof (cases "i < length (d_tokens d) \<and> length y = 20 \<and> \<not> (i = tid \<and> y = addr)")
    case True
    then show ?thesis using other [of i y] t p by (auto simp: bal_of_def Let_def profile_defs)
  next
    case False
    then show ?thesis using t p tid addr by (auto simp: bal_of_def Let_def profile_defs)
  qed
  then have "bal_of d bs' = (bal_of d bs)(tid := (bal_of d bs tid)
      (addr := (case x of None \<Rightarrow> 0 | Some sl \<Rightarrow> sparse_val (d_cfg d) sl)))"
    by (intro ext)
  then show "abs_drive d bs' = (abs_drive d bs)
    \<lparr>a_bal := (bal_of d bs)(tid := (bal_of d bs tid)(addr := (case x of None \<Rightarrow> 0 | Some sl \<Rightarrow> sparse_val (d_cfg d) sl))),
     a_sparse := n\<rparr>"
    using t(2) step(2,3) p by (simp add: abs_drive_def)
qed

lemma bal_sparse:
  assumes "drive_inv H bs d" and "profile (d_cfg d) = ProfileSparse" and "tid < length (d_tokens d)" and "length addr = 20"
  shows "bal_of d bs tid addr = 0 \<longleftrightarrow> tget (sparseTable (d_cfg d)) bs (sparseKey tid addr) = None"
  using assms drive_invD(4) [OF assms(1,2)] by (auto simp: bal_of_def Let_def profile_defs split: option.splits)

lemma abs_drive_sel:
  "a_bal (abs_drive d bs) = bal_of d bs" "a_toks (abs_drive d bs) = d_tokens d"
  "a_live (abs_drive d bs) = tab_count (accountsTable (d_cfg d)) bs"
  "profile (d_cfg d) = ProfileSparse \<Longrightarrow> a_sparse (abs_drive d bs) = tab_count (sparseTable (d_cfg d)) bs"
  by (simp_all add: abs_drive_def)

lemma sparse_slot_sizes:
  "drive_geometry c n \<Longrightarrow> profile c = ProfileSparse \<Longrightarrow> sparseSlotSize c = 64 \<or> sparseSlotSize c = 32"
  by (simp add: drive_geometry_def geometry_def profile_defs)

text \<open>
  A balance written into the column of a token in the wide profile: it is read back there, the account's own record, the
  other columns and the unused tail of the slot stay as they were.
\<close>

lemma wide_column_put:
  assumes g: "drive_geometry (d_cfg d) n" and ri: "registry_inv bs d" and p: "profile (d_cfg d) = ProfileWide"
    and tid: "tid < length (d_tokens d)" and v: "0 \<le> v" "v < 256 ^ tok_width (d_tokens d ! tid)"
    and len: "length sl = t_slotSize (accountsTable (d_cfg d))"
  obtains sl' where "putBE_sub sl (colOff d ! tid) (tok_width (d_tokens d ! tid)) v = Ok sl'" and "length sl' = length sl"
    and "t_keyOf (accountsTable (d_cfg d)) sl' = t_keyOf (accountsTable (d_cfg d)) sl"
    and "slot_live (accountsTable (d_cfg d)) sl' = slot_live (accountsTable (d_cfg d)) sl"
    and "acct_dec (d_cfg d) sl' = acct_dec (d_cfg d) sl" and "tail_zero d sl \<Longrightarrow> tail_zero d sl'"
    and "\<And>i. i < length (d_tokens d) \<Longrightarrow> readBE (slice sl' (colOff d ! i) (tok_width (d_tokens d ! i))) =
      (if i = tid then nat v else readBE (slice sl (colOff d ! i) (tok_width (d_tokens d ! i))))"
proof -
  let ?off = "colOff d ! tid" and ?w = "tok_width (d_tokens d ! tid)"
  note cb = column_bounds [OF ri tid]
  have "?off + ?w \<le> length sl" "0 < ?w" using cb(2) [OF p] cb(3) len by (auto simp: accountsTable_def)
  then obtain sl' where sl': "putBE_sub sl ?off ?w v = Ok sl'" "length sl' = length sl" "readBE (slice sl' ?off ?w) = nat v"
      "\<And>q k. q + k \<le> ?off \<or> ?off + ?w \<le> q \<Longrightarrow> slice sl' q k = slice sl q k"
    using putBE_sub_Ok [of ?off ?w sl v] v by blast
  have low: "slice sl' q k = slice sl q k" if "q + k \<le> 64" for q k
    by (rule sl'(4)) (use that cb(1) in linarith)
  have other: "readBE (slice sl' (colOff d ! i) (tok_width (d_tokens d ! i))) =
      readBE (slice sl (colOff d ! i) (tok_width (d_tokens d ! i)))" if "i < length (d_tokens d)" "i \<noteq> tid" for i
    using column_apart [OF ri that(1) tid that(2)] sl'(4) by metis
  have "?off + ?w \<le> columns_end d"
    using sum_list_take_Suc [of tid "map tok_width (d_tokens d)"] ri tid
    by (simp add: registry_inv_def Let_def columns_def columns_end_def)
  then have tail: "tail_zero d sl'" if "tail_zero d sl"
    using that sl'(2,4) by (simp add: tail_zero_def)
  show thesis
    by (rule that [OF sl'(1,2)])
      (use low other tail sl'(3) in \<open>auto simp: accountsTable_def slot_live_def acct_dec_def compact_def p profile_defs\<close>)
qed

context byte_store
begin

lemma sparse_counter:
  assumes "ok s" and inv: "drive_inv H (contents s) d" and p: "profile (d_cfg d) = ProfileSparse"
  shows "drive_counter S (t_countOff (sparseTable (d_cfg d))) s = (Ok (a_sparse (abs_drive d (contents s))), s)"
  using counter_runs [OF assms(1), of "t_countOff (sparseTable (d_cfg d))"] drive_invD(3) [OF inv p]
    sparseTable_ok [OF drive_invD(1) [OF inv] p] p
  by (simp add: table_inv_def abs_drive_def tab_count_def count_inside)

lemma setTokenBalance_sparse_existing:
  assumes H: "keccak_digest H" and addr: "length addr = 20" and ok: "ok s" and inv: "drive_inv H (contents s) d"
    and p: "profile (d_cfg d) = ProfileSparse" and nz: "\<not> isZero addr" and tid: "tid < length (d_tokens d)"
    and v: "0 \<le> v" "v < 256 ^ tok_width (d_tokens d ! tid)"
    and Some: "tget (sparseTable (d_cfg d)) (contents s) (sparseKey tid addr) = Some sl"
  shows "\<exists>r s'. setTokenBalance H S (ABytes addr) (int tid) v (s, d) = (r, (s', d)) \<and> ok s' \<and>
      drive_inv H (contents s') d \<and>
      spec_setTokenBalance (d_cfg d) addr (int tid) v (abs_drive d (contents s)) = (r, abs_drive d (contents s'))"
proof -
  let ?c = "d_cfg d" and ?u = "sparseTable (d_cfg d)" and ?k = "sparseKey tid addr"
  note g = drive_invD(1) [OF inv] and ui = drive_invD(3) [OF inv p]
  note du = sparse_drive_table [OF H g p] and zero = bal_sparse [OF inv p tid addr]
  have unf: "\<not> (v < 0 \<or> drop_bit (8 * tok_width (d_tokens d ! tid)) v \<noteq> 0)"
    using fits_iff [of v "tok_width (d_tokens d ! tid)"] v by blast
  note run = setTokenBalance_def checked_address_run [OF addr] nz tid unf p profile_defs Let_def on_store_run
  note spec = spec_setTokenBalance_def nz tid v p profile_defs Let_def abs_drive_sel(1-3) abs_drive_sel(4) [OF p]
  from drive_table.lookup_found [OF du ok ui Some] obtain i where
    i: "drive_lookup H (seed ?c) S ?u ?k s = (Ok (Some (i, sl)), s)" "i < t_capacity ?u"
      "slots ?u (contents s) ! i = sl" "slot_live ?u sl" "t_keyOf ?u sl = ?k" by blast
  show ?thesis
  proof (cases "v = 0")
    case True
    from drive_table.remove_ok [OF du ok ui i(2)] i(3-5) obtain s' where s':
      "drive_remove H (seed ?c) S ?u i s = (Ok (), s')" "ok s'"
      "table_post H (seed ?c) ?u (contents s) (contents s') ((tget ?u (contents s))(?k := None))
        (tab_count ?u (contents s) - 1)" by auto
    note abs = abs_sparse [OF inv p s'(3) tid addr]
    show ?thesis using True i(1) s'(1,2) abs zero Some by (auto simp: run spec)
  next
    case False
    have len: "length sl = nat (sparseSlotSize ?c)"
      using found_slot_length [OF ui i(2)] i(3) by (simp add: sparseTable_sel)
    from putSparseBalance_Ok [OF len sparse_slot_sizes [OF g p] v(1) token_width_sparse [OF inv tid p v]] obtain sl' where
      sl': "putSparseBalance ?c sl v = Ok sl'" "length sl' = length sl" "sparse_val ?c sl' = nat v"
        "t_keyOf ?u sl' = t_keyOf ?u sl" "slot_live ?u sl' = slot_live ?u sl" by blast
    from drive_table.update_ok [OF du ok ui i(2), of sl'] i(3-5) sl' found_slot_length [OF ui i(2)]
    obtain s' where s': "writeSlot S ?u i sl' s = (Ok (), s')" "ok s'"
        "table_post H (seed ?c) ?u (contents s) (contents s') ((tget ?u (contents s))(?k := Some sl'))
          (tab_count ?u (contents s))" by auto
    have "sparse_val ?c sl' \<noteq> 0" using sl'(3) False v(1) by simp
    note abs = abs_sparse [OF inv p s'(3) tid addr]
    show ?thesis using False i(1) s'(1,2) abs zero Some sl'(1,3) v(1) by (auto simp: run spec)
  qed
qed

lemma setTokenBalance_sparse:
  assumes H: "keccak_digest H" and addr: "length addr = 20" and ok: "ok s" and inv: "drive_inv H (contents s) d"
    and p: "profile (d_cfg d) = ProfileSparse" and nz: "\<not> isZero addr" and tid: "tid < length (d_tokens d)"
    and v: "0 \<le> v" "v < 256 ^ tok_width (d_tokens d ! tid)"
  shows "\<exists>r s'. setTokenBalance H S (ABytes addr) (int tid) v (s, d) = (r, (s', d)) \<and> ok s' \<and>
      drive_inv H (contents s') d \<and>
      spec_setTokenBalance (d_cfg d) addr (int tid) v (abs_drive d (contents s)) = (r, abs_drive d (contents s'))"
proof (cases "tget (sparseTable (d_cfg d)) (contents s) (sparseKey tid addr)")
  case (Some sl)
  then show ?thesis by (rule setTokenBalance_sparse_existing [OF assms])
next
  case None
  let ?c = "d_cfg d" and ?u = "sparseTable (d_cfg d)" and ?a = "abs_drive d (contents s)" and ?k = "sparseKey tid addr"
  note g = drive_invD(1) [OF inv] and ui = drive_invD(3) [OF inv p]
  note du = sparse_drive_table [OF H g p] and zero = bal_sparse [OF inv p tid addr] and cnt = sparse_counter [OF ok inv p]
  have unf: "\<not> (v < 0 \<or> drop_bit (8 * tok_width (d_tokens d ! tid)) v \<noteq> 0)"
    using fits_iff [of v "tok_width (d_tokens d ! tid)"] v by blast
  note run = setTokenBalance_def checked_address_run [OF addr] nz tid unf p profile_defs Let_def on_store_run
  note spec = spec_setTokenBalance_def nz tid v p profile_defs Let_def abs_drive_sel(1-3) abs_drive_sel(4) [OF p]
  note absent = drive_table.lookup_absent [OF du ok ui None]
  show ?thesis
  proof (cases "v = 0 \<or> a_sparse ?a \<ge> nat (sparseLoadLimit ?c)")
    case True
    then show ?thesis using absent cnt zero None ok inv
      by (cases "v = 0") (auto simp: run spec sparseTable_sel)
  next
    case False
    let ?r0 = "splice ((zeros (t_slotSize ?u))[0 := of_nat (tid AND 0xff), 1 := of_nat (drop_bit 8 tid AND 0xff)]) 4 addr"
    have n: "32 \<le> t_slotSize ?u" using sparse_slot_sizes [OF g p] by (auto simp: sparseTable_sel)
    note r0 = sparse_record [OF addr n, where tid = tid]
    have set: "arr_set ((zeros (t_slotSize ?u))[0 := of_nat (tid AND 0xff), 1 := of_nat (drop_bit 8 tid AND 0xff)]) 4 addr = Ok ?r0"
      using n addr by (simp add: arr_set_def)
    have "length ?r0 = nat (sparseSlotSize ?c)" using r0(1) by (simp add: sparseTable_sel)
    from putSparseBalance_Ok [OF this sparse_slot_sizes [OF g p] v(1) token_width_sparse [OF inv tid p v]] obtain r where
      r: "putSparseBalance ?c ?r0 v = Ok r" "length r = t_slotSize ?u" "sparse_val ?c r = nat v"
        "t_keyOf ?u r = ?k" "slot_live ?u r"
      using r0 nz by (auto simp: slot_live_def sparseTable_sel)
    have "tab_count ?u (contents s) < t_limit ?u" using False abs_drive_sel(4) [OF p, of "contents s"] by (simp add: sparseTable_sel)
    from drive_table.insert_ok [OF du ok ui r(2,5)] this None r(4)
    obtain s' where s': "drive_insert H (seed ?c) S ?u r s = (Ok (), s')" "ok s'"
        "table_post H (seed ?c) ?u (contents s) (contents s') ((tget ?u (contents s))(?k := Some r))
          (tab_count ?u (contents s) + 1)" by auto
    note abs = abs_sparse [OF inv p s'(3) tid addr]
    show ?thesis using False absent cnt s'(1,2) abs zero None set r(1,3) v(1)
      by (auto simp: run spec sparseTable_sel(4))
  qed
qed

lemma setTokenBalance_wide_existing:
  assumes H: "keccak_digest H" and addr: "length addr = 20" and ok: "ok s" and inv: "drive_inv H (contents s) d"
    and p: "profile (d_cfg d) = ProfileWide" and nz: "\<not> isZero addr" and tid: "tid < length (d_tokens d)"
    and v: "0 \<le> v" "v < 256 ^ tok_width (d_tokens d ! tid)"
    and Some: "tget (accountsTable (d_cfg d)) (contents s) addr = Some sl"
  shows "\<exists>r s'. setTokenBalance H S (ABytes addr) (int tid) v (s, d) = (r, (s', d)) \<and> ok s' \<and>
      drive_inv H (contents s') d \<and>
      spec_setTokenBalance (d_cfg d) addr (int tid) v (abs_drive d (contents s)) = (r, abs_drive d (contents s'))"
proof -
  let ?c = "d_cfg d" and ?t = "accountsTable (d_cfg d)" and ?a = "abs_drive d (contents s)"
  let ?f = "(bal_of d (contents s))(tid := (bal_of d (contents s) tid)(addr := nat v))"
  have unf: "\<not> (v < 0 \<or> drop_bit (8 * tok_width (d_tokens d ! tid)) v \<noteq> 0)"
    using fits_iff [of v "tok_width (d_tokens d ! tid)"] v by blast
  note run = setTokenBalance_def checked_address_run [OF addr] nz tid unf p profile_defs Let_def on_store_run
  note spec = spec_setTokenBalance_def nz tid v p profile_defs Let_def abs_drive_sel(1-3) acct_abs_None
  from account_update [OF H ok inv Some] obtain i where
    i: "drive_lookup H (seed ?c) S ?t addr s = (Ok (Some (i, sl)), s)" "length sl = t_slotSize ?t" "slot_live ?t sl"
      "t_keyOf ?t sl = addr" and up: "\<And>sl'. length sl' = t_slotSize ?t \<Longrightarrow> t_keyOf ?t sl' = addr \<Longrightarrow> slot_live ?t sl' \<Longrightarrow>
        \<exists>s'. writeSlot S ?t i sl' s = (Ok (), s') \<and> ok s' \<and> table_post H (seed ?c) ?t (contents s) (contents s')
          ((tget ?t (contents s))(addr \<mapsto> sl')) (tab_count ?t (contents s))" by metis
  from wide_column_put [OF drive_invD(1) [OF inv] drive_invD(5) [OF inv] p tid v i(2)] obtain sl' where
    sl': "putBE_sub sl (colOff d ! tid) (tok_width (d_tokens d ! tid)) v = Ok sl'" "length sl' = t_slotSize ?t"
      "t_keyOf ?t sl' = addr" "slot_live ?t sl'" "acct_dec ?c sl' = acct_dec ?c sl" "tail_zero d sl'"
      "\<And>j. j < length (d_tokens d) \<Longrightarrow> readBE (slice sl' (colOff d ! j) (tok_width (d_tokens d ! j))) =
         (if j = tid then nat v else readBE (slice sl (colOff d ! j) (tok_width (d_tokens d ! j))))"
    using i(2-4) drive_invD(7) [OF inv p Some] by metis
  from up [OF sl'(2-4)] obtain s' where s': "writeSlot S ?t i sl' s = (Ok (), s')" "ok s'"
      "table_post H (seed ?c) ?t (contents s) (contents s') ((tget ?t (contents s))(addr \<mapsto> sl'))
        (tab_count ?t (contents s))" by blast
  have inv': "drive_inv H (contents s') d" and
    abs: "abs_drive d (contents s') = ?a\<lparr>a_acct := (a_acct ?a)(addr \<mapsto> acct_dec ?c sl'), a_bal := ?f,
      a_live := tab_count ?t (contents s)\<rparr>"
    by (rule abs_accounts_put [OF inv addr s'(3), of ?f];
        use sl'(6,7) Some addr p tid in \<open>auto simp: bal_of_def Let_def\<close>)+
  have "(a_acct ?a)(addr \<mapsto> acct_dec ?c sl') = a_acct ?a"
    using Some sl'(5) by (auto simp: abs_drive_def)
  with abs have "abs_drive d (contents s') = ?a\<lparr>a_bal := ?f\<rparr>" using abs_drive_sel(3) [of d "contents s"] by simp
  then show ?thesis using i(1) sl'(1) s'(1,2) inv' Some by (auto simp: run spec)
qed

lemma setTokenBalance_wide_fresh:
  assumes H: "keccak_digest H" and addr: "length addr = 20" and ok: "ok s" and inv: "drive_inv H (contents s) d"
    and p: "profile (d_cfg d) = ProfileWide" and nz: "\<not> isZero addr" and tid: "tid < length (d_tokens d)"
    and v: "0 < v" "v < 256 ^ tok_width (d_tokens d ! tid)"
    and None: "tget (accountsTable (d_cfg d)) (contents s) addr = None"
    and room: "a_live (abs_drive d (contents s)) < nat (loadLimit (d_cfg d))"
  shows "\<exists>r s'. setTokenBalance H S (ABytes addr) (int tid) v (s, d) = (r, (s', d)) \<and> ok s' \<and>
      drive_inv H (contents s') d \<and>
      spec_setTokenBalance (d_cfg d) addr (int tid) v (abs_drive d (contents s)) = (r, abs_drive d (contents s'))"
proof -
  let ?c = "d_cfg d" and ?t = "accountsTable (d_cfg d)" and ?a = "abs_drive d (contents s)"
  let ?f = "(bal_of d (contents s))(tid := (bal_of d (contents s) tid)(addr := nat v))"
  let ?r0 = "splice (zeros (t_slotSize ?t)) 0 addr"
  note g = drive_invD(1) [OF inv] and ti = drive_invD(2) [OF inv] and ri = drive_invD(5) [OF inv]
  note dt = accounts_drive_table [OF H g]
  have v': "0 \<le> v" using v by simp
  have sizes: "t_slotSize ?t = nat (slotSize ?c)" "t_limit ?t = nat (loadLimit ?c)" "128 \<le> nat (slotSize ?c)"
    using g p by (auto simp: accountsTable_def drive_geometry_def geometry_def profile_defs)
  have unf: "\<not> (v < 0 \<or> drop_bit (8 * tok_width (d_tokens d ! tid)) v \<noteq> 0)"
    using fits_iff [of v "tok_width (d_tokens d ! tid)"] v' v(2) by blast
  note run = setTokenBalance_def checked_address_run [OF addr] nz tid unf p profile_defs Let_def on_store_run
  note spec = spec_setTokenBalance_def nz tid v' v(2) p profile_defs Let_def abs_drive_sel(1-3) acct_abs_None
  have set: "arr_set (zeros (t_slotSize ?t)) 0 addr = Ok ?r0" using sizes addr by (simp add: arr_set_def)
  have r0: "length ?r0 = t_slotSize ?t" "t_keyOf ?t ?r0 = addr" "slot_live ?t ?r0" "acct_dec ?c ?r0 = (0, 0)"
    "\<And>q n. 20 \<le> q \<Longrightarrow> q + n \<le> t_slotSize ?t \<Longrightarrow> slice ?r0 q n = zeros n"
    using sizes addr nz p
    by (simp_all add: accountsTable_def slice_splice_same slot_live_def acct_dec_def compact_def profile_defs
        slice_splice_disjoint slice_zeros)
  have r0t: "tail_zero d ?r0" using sizes addr by (intro tail_zero_splice tail_zero_zeros) simp_all
  from wide_column_put [OF g ri p tid v' v(2) r0(1)] obtain r where
    r: "putBE_sub ?r0 (colOff d ! tid) (tok_width (d_tokens d ! tid)) v = Ok r" "length r = t_slotSize ?t"
      "t_keyOf ?t r = addr" "slot_live ?t r" "acct_dec ?c r = (0, 0)" "tail_zero d r"
      "\<And>j. j < length (d_tokens d) \<Longrightarrow> readBE (slice r (colOff d ! j) (tok_width (d_tokens d ! j))) =
         (if j = tid then nat v else readBE (slice ?r0 (colOff d ! j) (tok_width (d_tokens d ! j))))"
    using r0 r0t by metis
  have zc: "readBE (slice ?r0 (colOff d ! j) (tok_width (d_tokens d ! j))) = 0" if "j < length (d_tokens d)" for j
    using r0(5) [of "colOff d ! j" "tok_width (d_tokens d ! j)"] column_bounds(1,2) [OF ri that] p sizes(1) by simp
  have "tab_count ?t (contents s) < t_limit ?t" using room abs_drive_sel(3) sizes(2) by simp
  from drive_table.insert_ok [OF dt ok ti r(2,4)] this None r(3)
  obtain s' where s': "drive_insert H (seed ?c) S ?t r s = (Ok (), s')" "ok s'"
      "table_post H (seed ?c) ?t (contents s) (contents s') ((tget ?t (contents s))(addr \<mapsto> r))
        (tab_count ?t (contents s) + 1)" by auto
  have "drive_inv H (contents s') d" "abs_drive d (contents s') = ?a\<lparr>a_acct := (a_acct ?a)(addr \<mapsto> acct_dec ?c r),
      a_bal := ?f, a_live := tab_count ?t (contents s) + 1\<rparr>"
    by (rule abs_accounts_put [OF inv addr s'(3), of ?f];
      use r(6,7) zc None addr p tid in \<open>auto simp: bal_of_def Let_def\<close>)+
  moreover have "v \<noteq> 0" using v(1) by simp
  ultimately show ?thesis
    using room drive_table.lookup_absent [OF dt ok ti None] accounts_counter [OF ok inv] s'(1,2) None set r(1,5) sizes
    by (auto simp: run spec)
qed

lemma setTokenBalance_wide:
  assumes H: "keccak_digest H" and addr: "length addr = 20" and ok: "ok s" and inv: "drive_inv H (contents s) d"
    and p: "profile (d_cfg d) = ProfileWide" and nz: "\<not> isZero addr" and tid: "tid < length (d_tokens d)"
    and v: "0 \<le> v" "v < 256 ^ tok_width (d_tokens d ! tid)"
  shows "\<exists>r s'. setTokenBalance H S (ABytes addr) (int tid) v (s, d) = (r, (s', d)) \<and> ok s' \<and>
      drive_inv H (contents s') d \<and>
      spec_setTokenBalance (d_cfg d) addr (int tid) v (abs_drive d (contents s)) = (r, abs_drive d (contents s'))"
proof (cases "tget (accountsTable (d_cfg d)) (contents s) addr")
  case (Some sl)
  then show ?thesis by (rule setTokenBalance_wide_existing [OF assms])
next
  case None
  show ?thesis
  proof (cases "v = 0 \<or> a_live (abs_drive d (contents s)) \<ge> nat (loadLimit (d_cfg d))")
    case True
    note dt = accounts_drive_table [OF H drive_invD(1) [OF inv]]
    have "\<not> (v < 0 \<or> drop_bit (8 * tok_width (d_tokens d ! tid)) v \<noteq> 0)"
      using fits_iff [of v "tok_width (d_tokens d ! tid)"] v by blast
    moreover have "t_limit (accountsTable (d_cfg d)) = nat (loadLimit (d_cfg d))" by (simp add: accountsTable_def)
    ultimately show ?thesis
      using True drive_table.lookup_absent [OF dt ok drive_invD(2) [OF inv] None] accounts_counter [OF ok inv] None ok inv
        nz tid v p
      by (cases "v = 0") (auto simp: setTokenBalance_def checked_address_run [OF addr] profile_defs Let_def on_store_run
          spec_setTokenBalance_def abs_drive_sel(1-3) acct_abs_None)
  next
    case False
    then show ?thesis using setTokenBalance_wide_fresh [OF H addr ok inv p nz tid _ v(2) None] v(1) by simp
  qed
qed

lemma setTokenBalance_refines:
  assumes H: "keccak_digest H" and addr: "length addr = 20"
  shows "drive_refines contents ok H (setTokenBalance H S (ABytes addr) tid v)
    (\<lambda>c. spec_setTokenBalance c addr tid v)"
proof (rule drive_refinesI)
  fix s d
  assume ok: "ok s" and inv: "drive_inv H (contents s) d"
  let ?c = "d_cfg d" and ?a = "abs_drive d (contents s)"
  have toks: "a_toks ?a = d_tokens d" by (simp add: abs_drive_def)
  have prof: "profile ?c = ProfileSingleAsset \<or> profile ?c = ProfileWide \<or> profile ?c = ProfileSparse"
    using drive_invD(1) [OF inv] by (auto simp: drive_geometry_def geometry_def profile_defs)
  show "\<exists>r s' d'. setTokenBalance H S (ABytes addr) tid v (s, d) = (r, (s', d')) \<and> ok s' \<and>
      drive_inv H (contents s') d' \<and> d_cfg d' = ?c \<and> spec_setTokenBalance ?c addr tid v ?a = (r, abs_drive d' (contents s'))"
  proof (cases "isZero addr \<or> \<not> (0 \<le> tid \<and> tid < int (length (d_tokens d))) \<or>
      \<not> (0 \<le> v \<and> v < 256 ^ tok_width (d_tokens d ! nat tid)) \<or> profile ?c = ProfileSingleAsset")
    case True
    then show ?thesis
      using ok inv addr toks fits_iff [of v "tok_width (d_tokens d ! nat tid)"]
      by (auto simp: setTokenBalance_def checked_address_run spec_setTokenBalance_def Let_def profile_defs)
  next
    case False
    then obtain t where t: "tid = int t" "t < length (d_tokens d)"
      by (metis nat_0_le of_nat_less_iff)
    with False have v: "0 \<le> v" "v < 256 ^ tok_width (d_tokens d ! t)" "\<not> isZero addr" by simp_all
    from prof False consider "profile ?c = ProfileWide" | "profile ?c = ProfileSparse" by blast
    then show ?thesis
      using setTokenBalance_wide [OF H addr ok inv _ v(3) t(2) v(1,2)]
        setTokenBalance_sparse [OF H addr ok inv _ v(3) t(2) v(1,2)] t(1)
      by cases blast+
  qed
qed

lemma getTokenBalance_runs:
  assumes H: "keccak_digest H" and addr: "length addr = 20" and ok: "ok s" and inv: "drive_inv H (contents s) d"
  shows "getTokenBalance H S (ABytes addr) tid (s, d) =
    (fst (spec_getTokenBalance (d_cfg d) addr tid (abs_drive d (contents s))), (s, d))"
proof -
  let ?c = "d_cfg d" and ?t = "accountsTable (d_cfg d)" and ?u = "sparseTable (d_cfg d)" and ?a = "abs_drive d (contents s)"
  note g = drive_invD(1) [OF inv] and ti = drive_invD(2) [OF inv]
  have prof: "profile ?c = ProfileSingleAsset \<or> profile ?c = ProfileWide \<or> profile ?c = ProfileSparse"
    using g by (auto simp: drive_geometry_def geometry_def profile_defs)
  have lk: "\<exists>x. drive_lookup H (seed ?c) S t k s = (Ok x, s) \<and> tget t (contents s) k = map_option snd x"
    if dt: "drive_table S contents ok H t" and i: "table_inv H (seed ?c) t (contents s)" for t k
  proof (cases "tget t (contents s) k")
    case None
    then show ?thesis using drive_table.lookup_absent [OF dt ok i None] by auto
  next
    case (Some sl)
    from drive_table.lookup_found [OF dt ok i Some] obtain j where
      "drive_lookup H (seed ?c) S t k s = (Ok (Some (j, sl)), s)" by blast
    with Some show ?thesis by auto
  qed
  show ?thesis
  proof (cases "isZero addr \<or> \<not> (0 \<le> tid \<and> tid < int (length (d_tokens d)))")
    case True
    then show ?thesis
      using addr by (auto simp: getTokenBalance_def checked_address_run spec_getTokenBalance_def abs_drive_def Let_def)
  next
    case False
    obtain x where x: "drive_lookup H (seed ?c) S ?t addr s = (Ok x, s)" "tget ?t (contents s) addr = map_option snd x"
      using lk [OF accounts_drive_table [OF H g] ti] by blast
    note run = getTokenBalance_def checked_address_run spec_getTokenBalance_def abs_drive_def Let_def on_store_run bal_of_def profile_defs
    from prof show ?thesis
    proof (elim disjE)
      assume p: "profile ?c = ProfileWide"
      with False addr x show ?thesis by (cases x) (auto simp: run)
    next
      assume p: "profile ?c = ProfileSparse"
      obtain y where y: "drive_lookup H (seed ?c) S ?u (sparseKey (nat tid) addr) s = (Ok y, s)"
          "tget ?u (contents s) (sparseKey (nat tid) addr) = map_option snd y"
        using lk [OF sparse_drive_table [OF H g p] drive_invD(3) [OF inv p]] by blast
      with False addr p show ?thesis by (cases y) (auto simp: run sparse_val_def)
    qed (use False addr in \<open>auto simp: run\<close>)
  qed
qed

lemma getTokenBalance_refines:
  assumes "keccak_digest H" and "length addr = 20"
  shows "drive_refines contents ok H (getTokenBalance H S (ABytes addr) tid) (\<lambda>c. spec_getTokenBalance c addr tid)"
proof (rule drive_refinesI)
  fix s d
  assume "ok s" and "drive_inv H (contents s) d"
  moreover have "snd (spec_getTokenBalance c addr tid a) = a" for c a by (simp add: spec_getTokenBalance_def)
  ultimately show "\<exists>r s' d'. getTokenBalance H S (ABytes addr) tid (s, d) = (r, (s', d')) \<and> ok s' \<and>
      drive_inv H (contents s') d' \<and> d_cfg d' = d_cfg d \<and>
      spec_getTokenBalance (d_cfg d) addr tid (abs_drive d (contents s)) = (r, abs_drive d' (contents s'))"
    using getTokenBalance_runs [OF assms, of s d] by (auto simp: prod_eq_iff)
qed

end

end
