(* ===== verification/Drive_Format.thy ===== *)
theory Drive_Format
  imports Drive_Tokens
begin

text \<open>
  The token registry and its cache, and drives from nothing: registering a token refines its
  specification, reloading the cache recovers it from the bytes, opening a drive recovers the whole object,
  and formatting an all-zero store gives an empty drive that satisfies the invariant.
\<close>

section \<open>Registering a token\<close>

lemma token_index_None: "token_index a ks i = None \<longleftrightarrow> a \<notin> set (map tok_address ks)"
  by (induction ks arbitrary: i) auto

lemma columns_snoc: "columns (ws @ [w]) = columns ws @ [64 + sum_list ws]"
  by (simp add: columns_def)

lemma last_column:
  assumes "colOff d = columns (map tok_width (d_tokens d))"
  shows "(if colOff d \<noteq> [] then last (colOff d) + tok_width (last (d_tokens d)) else 64) = columns_end d"
proof (cases "d_tokens d" rule: rev_cases)
  case Nil
  with assms show ?thesis by (simp add: columns_def columns_end_def)
next
  case (snoc ks k)
  with assms show ?thesis by (simp add: columns_snoc columns_end_def)
qed

definition token_entry :: "bytes \<Rightarrow> nat \<Rightarrow> bytes" where
  "token_entry addr width = (splice (zeros 32) 0 addr)[20 := of_nat width]"

lemma token_entry_fields:
  assumes "length addr = 20" and "width \<in> {8, 16, 32}"
  shows "length (token_entry addr width) = 32" and "slice (token_entry addr width) 0 20 = addr"
    and "unat (token_entry addr width ! 20) = width"
proof -
  show "length (token_entry addr width) = 32" using assms by (simp add: token_entry_def)
  show "slice (token_entry addr width) 0 20 = addr"
    using assms by (simp add: token_entry_def slice_def splice_def)
  show "unat (token_entry addr width ! 20) = width"
    using assms by (auto simp: token_entry_def)
qed

lemma tget_slot:
  assumes "table_inv H sd t bs" and "tget t bs k = Some sl"
  shows "length sl = t_slotSize t"
proof -
  have "sl \<in> set (slots t bs)"
    using assms(2) unfolding tget_def tab_get_def by (auto dest: find_Some_sat)
  moreover have "rows t (slots t bs)" using assms(1) by (simp add: table_inv_def)
  ultimately show ?thesis by (simp add: rows_def)
qed

text \<open>What the two writes of a registration leave alone.\<close>

definition registered :: "NormalizedConfig \<Rightarrow> bytes \<Rightarrow> nat \<Rightarrow> bytes \<Rightarrow> bytes" where
  "registered c bs n e = splice (splice bs (reg_lo c + 32 * n) e) OFF_TOKEN_COUNT (le_enc 8 (n + 1))"

lemma registered_frame:
  assumes g: "drive_geometry c (length bs)" and r: "registryOffset c \<noteq> 0" and n: "int n < registryCapacity c"
    and e: "length e = 32"
  shows "length (registered c bs n e) = length bs"
    and "hi \<le> reg_lo c + 32 * n \<or> reg_lo c + 32 * n + 32 \<le> lo \<Longrightarrow> hi \<le> 0x68 \<or> 0x70 \<le> lo \<Longrightarrow>
      same_on bs (registered c bs n e) lo hi"
    and "slice (registered c bs n e) (reg_lo c + 32 * n) 32 = e"
    and "slice (registered c bs n e) OFF_TOKEN_COUNT 8 = le_enc 8 (n + 1)"
proof -
  have fit: "reg_lo c + 32 * n + 32 \<le> reg_hi c" using n by linarith
  have in_bs: "256 \<le> reg_lo c" "reg_lo c + 32 * n + 32 \<le> length bs"
    using geometry_apart(2) [OF g r] fit by auto
  show "length (registered c bs n e) = length bs"
    using in_bs e by (simp add: registered_def header_offsets)
  show "slice (registered c bs n e) (reg_lo c + 32 * n) 32 = e"
    using in_bs e by (simp add: registered_def header_offsets slice_splice_disjoint slice_splice_same)
  show "slice (registered c bs n e) OFF_TOKEN_COUNT 8 = le_enc 8 (n + 1)"
    using in_bs e by (simp add: registered_def header_offsets slice_splice_same)
  assume "hi \<le> reg_lo c + 32 * n \<or> reg_lo c + 32 * n + 32 \<le> lo" and "hi \<le> 0x68 \<or> 0x70 \<le> lo"
  then show "same_on bs (registered c bs n e) lo hi"
    unfolding same_on_def registered_def using in_bs e
    by (auto simp: header_offsets slice_splice_disjoint)
qed

lemma registered_tables:
  assumes inv: "drive_inv H bs d" and r: "registryOffset (d_cfg d) \<noteq> 0"
    and n: "int n < registryCapacity (d_cfg d)" and e: "length e = 32"
  defines "bs' \<equiv> registered (d_cfg d) bs n e"
  shows "table_inv H (seed (d_cfg d)) (accountsTable (d_cfg d)) bs'"
    and "tget (accountsTable (d_cfg d)) bs' = tget (accountsTable (d_cfg d)) bs"
    and "tab_count (accountsTable (d_cfg d)) bs' = tab_count (accountsTable (d_cfg d)) bs"
    and "profile (d_cfg d) = ProfileSparse \<Longrightarrow> table_inv H (seed (d_cfg d)) (sparseTable (d_cfg d)) bs'"
    and "profile (d_cfg d) = ProfileSparse \<Longrightarrow> tget (sparseTable (d_cfg d)) bs' = tget (sparseTable (d_cfg d)) bs"
    and "profile (d_cfg d) = ProfileSparse \<Longrightarrow>
      tab_count (sparseTable (d_cfg d)) bs' = tab_count (sparseTable (d_cfg d)) bs"
proof -
  let ?c = "d_cfg d" and ?t = "accountsTable (d_cfg d)" and ?u = "sparseTable (d_cfg d)"
  note g = drive_invD(1) [OF inv]
  note fr = registered_frame [OF g r n e, folded bs'_def]
  note apart = geometry_apart [OF g]
  have fit: "reg_lo ?c + 32 * n + 32 \<le> reg_hi ?c" using n by linarith
  have "same_on bs bs' (t_base ?t) (tab_end ?t)"
    using apart(1) [OF r] apart(5) fit by (intro fr(2)) auto
  moreover have "same_on bs bs' (t_countOff ?t) (t_countOff ?t + 8)"
    using apart(2) [OF r] by (intro fr(2)) (auto simp: accountsTable_def header_offsets)
  ultimately show "table_inv H (seed ?c) ?t bs'" "tget ?t bs' = tget ?t bs" "tab_count ?t bs' = tab_count ?t bs"
    using fr(1) drive_invD(2) [OF inv] by (simp_all add: table_frame)
  have sp: "table_inv H (seed ?c) ?u bs' \<and> tget ?u bs' = tget ?u bs \<and> tab_count ?u bs' = tab_count ?u bs"
    if p: "profile ?c = ProfileSparse"
  proof -
    have "same_on bs bs' (t_base ?u) (tab_end ?u)"
      using apart(4,6) [OF p] fit by (intro fr(2)) auto
    moreover have "same_on bs bs' (t_countOff ?u) (t_countOff ?u + 8)"
      using apart(2) [OF r] by (intro fr(2)) (auto simp: sparseTable_def header_offsets)
    ultimately show ?thesis using fr(1) drive_invD(3) [OF inv p] by (simp add: table_frame)
  qed
  then show "profile ?c = ProfileSparse \<Longrightarrow> table_inv H (seed ?c) ?u bs'"
    "profile ?c = ProfileSparse \<Longrightarrow> tget ?u bs' = tget ?u bs"
    "profile ?c = ProfileSparse \<Longrightarrow> tab_count ?u bs' = tab_count ?u bs" by blast+
qed

text \<open>A registration keeps the invariant and changes nothing but the list of tokens.\<close>

definition may_register :: "NormalizedConfig \<Rightarrow> Token list \<Rightarrow> bytes \<Rightarrow> nat \<Rightarrow> bool" where
  "may_register c ks addr width \<longleftrightarrow>
     registryOffset c \<noteq> 0 \<and> width \<in> {8, 16, 32} \<and> addr \<notin> set (map tok_address ks) \<and>
     int (length ks) < registryCapacity c \<and>
     (profile c = ProfileWide \<longrightarrow> int (64 + sum_list (map tok_width ks) + width) \<le> slotSize c) \<and>
     (profile c = ProfileSparse \<and> sparseSlotSize c = 32 \<or> compact c \<longrightarrow> width = 8)"

lemma register_check_Ok: "register_check c ks addr width = Ok () \<longleftrightarrow> may_register c ks addr width"
  using token_index_None [of addr ks 0]
  by (auto simp: register_check_def may_register_def Let_def not_le not_less simp del: not_None_eq)

lemma register_check_total: "register_check c ks addr width \<noteq> Diverge"
  by (auto simp: register_check_def Let_def)

definition add_token :: "Drive \<Rightarrow> bytes \<Rightarrow> nat \<Rightarrow> Drive" where
  "add_token d addr width = d\<lparr>d_tokens := d_tokens d @ [\<lparr>tok_address = addr, tok_width = width\<rparr>],
     colOff := colOff d @ [columns_end d]\<rparr>"

lemma add_token_sel [simp]:
  "d_cfg (add_token d addr width) = d_cfg d"
  "d_tokens (add_token d addr width) = d_tokens d @ [\<lparr>tok_address = addr, tok_width = width\<rparr>]"
  "colOff (add_token d addr width) = colOff d @ [columns_end d]"
  by (simp_all add: add_token_def)

lemma register_registry:
  assumes inv: "drive_inv H bs d" and addr: "length addr = 20"
    and may: "may_register (d_cfg d) (d_tokens d) addr width"
  defines "bs' \<equiv> registered (d_cfg d) bs (length (d_tokens d)) (token_entry addr width)"
  shows "registry_inv bs' (add_token d addr width)"
proof -
  let ?c = "d_cfg d" and ?ks = "d_tokens d" and ?n = "length (d_tokens d)"
  have w: "width \<in> {8, 16, 32}" and r: "registryOffset ?c \<noteq> 0" and n: "int ?n < registryCapacity ?c"
    using may by (auto simp: may_register_def)
  note e = token_entry_fields [OF addr w]
  note g = drive_invD(1) [OF inv] and ri = drive_invD(5) [OF inv]
  note fr = registered_frame [OF g r n e(1), folded bs'_def]
  have old: "entry_holds ?c bs' i (?ks ! i)" if "i < ?n" for i
  proof -
    have "same_on bs bs' (reg_lo ?c + 32 * i) (reg_lo ?c + 32 * i + 32)"
      using that geometry_apart(2) [OF g r] by (intro fr(2)) auto
    then have "slice bs' (reg_lo ?c + 32 * i) 32 = slice bs (reg_lo ?c + 32 * i) 32" by (rule same_onD) auto
    moreover have "entry_holds ?c bs i (?ks ! i)" using ri that by (simp add: registry_inv_def Let_def)
    ultimately show ?thesis by (simp add: entry_holds_def)
  qed
  have new: "entry_holds ?c bs' ?n \<lparr>tok_address = addr, tok_width = width\<rparr>"
    using fr(3) e by (simp add: entry_holds_def)
  have "registryCapacity ?c \<le> 65536" using g r by (simp add: drive_geometry_def geometry_def)
  then have "?n + 1 < 2 ^ 64" using n by simp
  then have cnt: "le_dec (slice bs' OFF_TOKEN_COUNT 8) = ?n + 1"
    unfolding fr(4) by (simp add: le_dec_le_enc)
  show ?thesis
    unfolding registry_inv_def Let_def
  proof (intro conjI)
    show "\<forall>i < length (d_tokens (add_token d addr width)).
        entry_holds (d_cfg (add_token d addr width)) bs' i (d_tokens (add_token d addr width) ! i)"
      using old new by (auto simp: nth_append less_Suc_eq)
  qed (use ri may cnt addr in \<open>auto simp: registry_inv_def Let_def may_register_def token_ok_def columns_snoc
      columns_end_def\<close>)
qed

text \<open>A new token starts with no balance: its column was part of the zero tail, its id had no sparse record.\<close>

lemma register_bal:
  assumes inv: "drive_inv H bs d" and addr: "length addr = 20"
    and may: "may_register (d_cfg d) (d_tokens d) addr width"
  defines "bs' \<equiv> registered (d_cfg d) bs (length (d_tokens d)) (token_entry addr width)"
    and "d' \<equiv> add_token d addr width"
  shows "bal_of d' bs' tid x = bal_of d bs tid x"
proof -
  let ?c = "d_cfg d" and ?n = "length (d_tokens d)" and ?t = "accountsTable (d_cfg d)" and ?u = "sparseTable (d_cfg d)"
  have w: "width \<in> {8, 16, 32}" and r: "registryOffset ?c \<noteq> 0" and n: "int ?n < registryCapacity ?c"
    using may by (auto simp: may_register_def)
  note g = drive_invD(1) [OF inv] and ri = drive_invD(5) [OF inv]
  note tabs = registered_tables [OF inv r n token_entry_fields(1) [OF addr w], folded bs'_def]
  have cols: "length (colOff d) = ?n" using ri by (simp add: registry_inv_def Let_def columns_def)
  show ?thesis
  proof (cases "tid = ?n \<and> length x = 20")
    case True
    have "readBE (slice sl (columns_end d) width) = 0" if p: "profile ?c = ProfileWide" and s: "tget ?t bs x = Some sl" for sl
    proof -
      have "length sl = nat (slotSize ?c)" using tget_slot [OF drive_invD(2) [OF inv] s] by (simp add: accountsTable_def)
      moreover have "int (columns_end d + width) \<le> slotSize ?c"
        using may p by (simp add: may_register_def columns_end_def)
      ultimately have "columns_end d + width \<le> length sl" by linarith
      then have "slice sl (columns_end d) width = zeros width"
        using drive_invD(7) [OF inv p s] by (simp add: tail_zero_def)
      then show ?thesis by simp
    qed
    moreover have "tget ?u bs (sparseKey ?n x) = None" if "profile ?c = ProfileSparse"
      using drive_invD(6) [OF inv that] True n g r by (simp add: fresh_ids_def drive_geometry_def geometry_def)
    ultimately show ?thesis
      using True cols tabs(2,5) by (auto simp: bal_of_def Let_def d'_def nth_append split: option.split)
  next
    case False
    then show ?thesis
      using cols tabs(2,5) by (auto simp: bal_of_def Let_def d'_def nth_append split: option.split)
  qed
qed

lemma register_inv:
  assumes inv: "drive_inv H bs d" and addr: "length addr = 20"
    and may: "may_register (d_cfg d) (d_tokens d) addr width"
  defines "bs' \<equiv> registered (d_cfg d) bs (length (d_tokens d)) (token_entry addr width)"
    and "d' \<equiv> add_token d addr width"
  shows "drive_inv H bs' d'"
    and "abs_drive d' bs' = (abs_drive d bs)\<lparr>a_toks := d_tokens d @ [\<lparr>tok_address = addr, tok_width = width\<rparr>]\<rparr>"
proof -
  let ?c = "d_cfg d" and ?n = "length (d_tokens d)" and ?t = "accountsTable (d_cfg d)" and ?u = "sparseTable (d_cfg d)"
  have w: "width \<in> {8, 16, 32}" and r: "registryOffset ?c \<noteq> 0" and n: "int ?n < registryCapacity ?c"
    using may by (auto simp: may_register_def)
  note e = token_entry_fields(1) [OF addr w]
  note g = drive_invD(1) [OF inv] and ri = drive_invD(5) [OF inv]
  note fr = registered_frame [OF g r n e, folded bs'_def]
  note tabs = registered_tables [OF inv r n e, folded bs'_def]
  note reg = register_registry [OF inv addr may, folded bs'_def d'_def]
  have ce: "columns_end d' = columns_end d + width" by (simp add: d'_def columns_end_def)
  show "drive_inv H bs' d'"
    unfolding drive_inv_def Let_def
  proof (intro conjI impI allI)
    show "drive_geometry (d_cfg d') (length bs')" using g fr(1) by (simp add: d'_def)
    show "registry_inv bs' d'" by (rule reg)
    have "header_config (slice bs' 0 HEADER_SIZE) = header_config (slice bs 0 HEADER_SIZE)"
      using fr(1) geometry_apart(2) [OF g r] geometry_apart(5) [OF g] accountsTable_in [OF g]
      by (intro header_frame fr(2)) (auto simp: table_in_def)
    then show "header_config (slice bs' 0 HEADER_SIZE) = Ok (d_cfg d')" using drive_invD(8) [OF inv] by (simp add: d'_def)
    show "tail_zero d' sl" if "profile (d_cfg d') = ProfileWide" "tget (accountsTable (d_cfg d')) bs' k = Some sl" for k sl
      using that drive_invD(7) [OF inv, of k sl] tabs(2) ce by (simp add: d'_def tail_zero_def)
    show "fresh_ids d' bs'" if "profile (d_cfg d') = ProfileSparse"
      using that drive_invD(6) [OF inv] tabs(5) by (simp add: d'_def fresh_ids_def)
    show "sparse_val (d_cfg d') sl \<noteq> 0"
      if "profile (d_cfg d') = ProfileSparse" "tget (sparseTable (d_cfg d')) bs' k = Some sl" for k sl
      using that drive_invD(4) [OF inv, of k sl] tabs(5) by (simp add: d'_def)
  qed (use tabs in \<open>simp_all add: d'_def\<close>)
  have "bal_of d' bs' = bal_of d bs"
    unfolding bs'_def d'_def by (intro ext) (rule register_bal [OF inv addr may])
  then show "abs_drive d' bs' = (abs_drive d bs)\<lparr>a_toks := d_tokens d @ [\<lparr>tok_address = addr, tok_width = width\<rparr>]\<rparr>"
    using tabs by (auto simp: abs_drive_def d'_def)
qed

context byte_store
begin

lemma registerToken_refines:
  assumes addr: "length addr = 20"
  shows "drive_refines contents ok H (registerToken S (ABytes addr) width) (\<lambda>c. spec_registerToken c addr width)"
proof (rule drive_refinesI)
  fix s d
  assume ok: "ok s" and inv: "drive_inv H (contents s) d"
  let ?c = "d_cfg d" and ?n = "length (d_tokens d)" and ?a = "abs_drive d (contents s)"
  have toks: "a_toks ?a = d_tokens d" by (simp add: abs_drive_def)
  show "\<exists>r s' d'. registerToken S (ABytes addr) width (s, d) = (r, (s', d')) \<and> ok s' \<and>
      drive_inv H (contents s') d' \<and> d_cfg d' = ?c \<and> spec_registerToken ?c addr width ?a = (r, abs_drive d' (contents s'))"
  proof (cases "may_register ?c (d_tokens d) addr width")
    case False
    then obtain e where "register_check ?c (d_tokens d) addr width = Throw e"
      using register_check_Ok [of ?c "d_tokens d" addr width] register_check_total [of ?c "d_tokens d" addr width]
      by (cases "register_check ?c (d_tokens d) addr width") auto
    then show ?thesis
      using ok inv addr toks by (simp add: registerToken_def Let_def spec_registerToken_def)
  next
    case may: True
    have w: "width \<in> {8, 16, 32}" and r: "registryOffset ?c \<noteq> 0" and n: "int ?n < registryCapacity ?c"
      using may by (auto simp: may_register_def)
    let ?e = "token_entry addr width"
    note e = token_entry_fields(1) [OF addr w]
    note g = drive_invD(1) [OF inv] and ri = drive_invD(5) [OF inv]
    have fit: "reg_lo ?c + 32 * ?n + 32 \<le> length (contents s)"
      using geometry_apart(2) [OF g r] n by linarith
    have off: "registryOffset ?c + 32 * int ?n = int (reg_lo ?c + 32 * ?n)"
      using g by (simp add: drive_geometry_def)
    let ?s1 = "written S s (reg_lo ?c + 32 * ?n) ?e"
    have s1: "writeAt S (registryOffset ?c + 32 * int ?n) ?e s = (Ok (), ?s1)" "ok ?s1"
      "contents ?s1 = splice (contents s) (reg_lo ?c + 32 * ?n) ?e"
      unfolding off using ok fit e by (simp_all only: write_runs write_keeps write_contents)
    have "registryCapacity ?c \<le> 65536" using g r by (simp add: drive_geometry_def geometry_def)
    then have "?n + 1 < 2 ^ 64" using n by simp
    moreover have "OFF_TOKEN_COUNT + 8 \<le> length (contents ?s1)"
      using s1(3) fit e geometry_apart(2) [OF g r] by (simp add: header_offsets)
    ultimately obtain s2 where s2: "drive_setCounter S OFF_TOKEN_COUNT (int (?n + 1)) ?s1 = (Ok (), s2)" "ok s2"
        "contents s2 = registered ?c (contents s) ?n ?e"
      using setCounter_runs [OF s1(2)] s1(3) unfolding registered_def by metis
    have col: "(if colOff d \<noteq> [] then last (colOff d) + tok_width (last (d_tokens d)) else 64) = columns_end d"
      using ri by (intro last_column) (simp add: registry_inv_def Let_def)
    have "registerToken S (ABytes addr) width (s, d) = (Ok ?n, (s2, add_token d addr width))"
      using may addr s1(1) s2(1) col register_check_Ok [of ?c "d_tokens d" addr width]
      by (simp add: registerToken_def Let_def on_store_run on_drive_def token_entry_def [symmetric] add_token_def
          split: if_splits)
    moreover have "spec_registerToken ?c addr width ?a = (Ok ?n, abs_drive (add_token d addr width) (contents s2))"
      using may register_inv(2) [OF inv addr may] s2(3) toks register_check_Ok [of ?c "d_tokens d" addr width]
      by (simp add: spec_registerToken_def)
    ultimately show ?thesis using s2(2,3) register_inv(1) [OF inv addr may] by auto
  qed
qed

lemma reload_loop_runs:
  assumes ok: "ok s" and g: "drive_geometry (d_cfg d) (length (contents s))" and ri: "registry_inv (contents s) d"
    and "d_cfg d0 = d_cfg d" and "d_tokens d0 = take i (d_tokens d)" and "colOff d0 = take i (colOff d)"
    and "i + n = length (d_tokens d)" and "col = 64 + sum_list (take i (map tok_width (d_tokens d)))"
  shows "reload_loop S (d_cfg d) n i col (s, d0) = (Ok (), (s, d))"
  using assms(4-)
proof (induction n arbitrary: i col d0)
  case 0
  moreover have "length (colOff d) = length (d_tokens d)" using ri by (simp add: registry_inv_def Let_def columns_def)
  ultimately show ?case by simp
next
  case (Suc n)
  let ?c = "d_cfg d" and ?k = "d_tokens d ! i"
  let ?e = "slice (contents s) (reg_lo ?c + 32 * i) 32"
  have i: "i < length (d_tokens d)" using Suc.prems by simp
  then have r: "registryOffset ?c \<noteq> 0" and cap: "int i < registryCapacity ?c"
    and e: "entry_holds ?c (contents s) i ?k" and tok: "token_ok ?c ?k"
    and col: "colOff d = columns (map tok_width (d_tokens d))"
    using ri by (auto simp: registry_inv_def Let_def list_all_length split: if_splits)
  have "registryOffset ?c + 32 * int i = int (reg_lo ?c + 32 * i)" using g by (simp add: drive_geometry_def)
  moreover have "reg_lo ?c + 32 * i + 32 \<le> length (contents s)" using geometry_apart(2) [OF g r] cap by linarith
  ultimately have rd: "readAt S (registryOffset ?c + 32 * int i) 32 s = (Ok ?e, s)"
    using read [OF ok, of "reg_lo ?c + 32 * i" 32] by simp
  have fields: "slice ?e 0 20 = tok_address ?k" "unat (?e ! 20) = tok_width ?k"
    using e by (simp_all add: entry_holds_def Let_def)
  let ?d1 = "d0\<lparr>d_tokens := d_tokens d0 @ [\<lparr>tok_address = tok_address ?k, tok_width = tok_width ?k\<rparr>], colOff := colOff d0 @ [col]\<rparr>"
  have "col = colOff d ! i" using Suc.prems(5) i col by (simp add: columns_def)
  moreover have "length (colOff d) = length (d_tokens d)" using col by (simp add: columns_def)
  ultimately have "reload_loop S ?c n (Suc i) (col + tok_width ?k) (s, ?d1) = (Ok (), (s, d))"
    using Suc.prems i by (intro Suc.IH) (simp_all add: take_Suc_conv_app_nth)
  moreover have "tok_width ?k = 8 \<or> tok_width ?k = 16 \<or> tok_width ?k = 32" using tok by (auto simp: token_ok_def)
  ultimately show ?case
    using rd fields by (auto simp: Let_def on_store_run on_drive_def)
qed

lemma reloadRegistry_runs:
  assumes ok: "ok s" and g: "drive_geometry (d_cfg d) (length (contents s))" and ri: "registry_inv (contents s) d"
    and c: "d_cfg d0 = d_cfg d"
  shows "reloadRegistry S (s, d0) = (Ok (), (s, d))"
proof (cases "registryOffset (d_cfg d) = 0")
  case True
  then have "d_tokens d = []" "colOff d = []" using ri by (auto simp: registry_inv_def Let_def columns_def)
  with True c show ?thesis by (simp add: reloadRegistry_def on_drive_def)
next
  case False
  let ?n = "length (d_tokens d)"
  have cnt: "le_dec (slice (contents s) OFF_TOKEN_COUNT 8) = ?n" and cap: "int ?n \<le> registryCapacity (d_cfg d)"
    using ri False by (simp_all add: registry_inv_def Let_def)
  have "OFF_TOKEN_COUNT + 8 \<le> length (contents s)" using geometry_apart(2) [OF g False] by (simp add: header_offsets)
  from counter_runs [OF ok this] have "drive_counter S OFF_TOKEN_COUNT s = (Ok ?n, s)" using cnt by simp
  moreover have "registryCapacity (d_cfg d) \<le> 65536" using g False by (simp add: drive_geometry_def geometry_def)
  then have "toNumber ?n = ?n" using cap by (intro toNumber_exact) linarith
  moreover have "reload_loop S (d_cfg d) ?n 0 64 (s, d0\<lparr>d_tokens := [], colOff := []\<rparr>) = (Ok (), (s, d))"
    using c by (intro reload_loop_runs [OF ok g ri]) simp_all
  ultimately show ?thesis using False c cap by (simp add: reloadRegistry_def on_drive_def on_store_run Let_def)
qed

end

section \<open>Formatting\<close>

text \<open>What a header can hold, and the geometry an opened drive reads back.\<close>

definition storable :: "NormalizedConfig \<Rightarrow> bool" where
  "storable c \<longleftrightarrow>
     (\<forall>v \<in> {capacity c, tableOffset c, loadLimit c, registryOffset c, registryCapacity c}. 0 \<le> v \<and> v < 2 ^ 53) \<and>
     0 \<le> profile c \<and> profile c \<le> 2 \<and> 0 < slotSize c \<and> slotSize c < 2 ^ 32 \<and> length (seed c) = 32 \<and>
     (profile c = ProfileSparse \<longrightarrow>
        (\<forall>v \<in> {sparseOffset c, sparseCapacity c, sparseLoadLimit c}. 0 \<le> v \<and> v < 2 ^ 53) \<and>
        0 \<le> sparseSlotSize c \<and> sparseSlotSize c < 2 ^ 32)"

definition opened :: "NormalizedConfig \<Rightarrow> NormalizedConfig" where
  "opened c = (let z = (\<lambda>v. if profile c = ProfileSparse then v else 0) in
     c\<lparr>driveLength := 0, sparseOffset := z (sparseOffset c), sparseCapacity := z (sparseCapacity c),
       sparseLoadLimit := z (sparseLoadLimit c), sparseSlotSize := z (sparseSlotSize c)\<rparr>)"

text \<open>Fields written at ascending offsets are all there afterwards, and the gaps stay zero.\<close>

fun puts :: "bytes \<Rightarrow> (nat \<times> bytes) list \<Rightarrow> bytes" where
  "puts h [] = h"
| "puts h ((off, b) # ps) = puts (splice h off b) ps"

fun ascending :: "nat \<Rightarrow> nat \<Rightarrow> (nat \<times> bytes) list \<Rightarrow> bool" where
  "ascending lo hi [] \<longleftrightarrow> lo \<le> hi"
| "ascending lo hi ((off, b) # ps) \<longleftrightarrow> lo \<le> off \<and> ascending (off + length b) hi ps"

lemma ascending_le: "ascending lo hi ps \<Longrightarrow> lo \<le> hi"
proof (induction ps arbitrary: lo)
  case (Cons p ps)
  obtain off b where p: "p = (off, b)" by (cases p)
  with Cons.prems have "lo \<le> off" "ascending (off + length b) hi ps" by simp_all
  with Cons.IH [of "off + length b"] show ?case by linarith
qed simp

lemma length_puts: "ascending lo (length h) ps \<Longrightarrow> length (puts h ps) = length h"
proof (induction ps arbitrary: lo h)
  case (Cons p ps)
  obtain off b where p: "p = (off, b)" by (cases p)
  with Cons.prems have asc: "ascending (off + length b) (length h) ps" by simp
  then have "length (splice h off b) = length h" using ascending_le by simp
  with Cons.IH [of "off + length b" "splice h off b"] asc p show ?case by simp
qed simp

lemma slice_puts_gap:
  "ascending lo (length h) ps \<Longrightarrow> \<forall>(off, b) \<in> set ps. q + n \<le> off \<or> off + length b \<le> q \<Longrightarrow>
    slice (puts h ps) q n = slice h q n"
proof (induction ps arbitrary: lo h)
  case (Cons p ps)
  obtain off b where p: "p = (off, b)" by (cases p)
  with Cons.prems have asc: "ascending (off + length b) (length h) ps" by simp
  then have fit: "off + length b \<le> length h" by (rule ascending_le)
  then have "slice (puts (splice h off b) ps) q n = slice (splice h off b) q n"
    using Cons.IH [of "off + length b" "splice h off b"] asc Cons.prems(2) by simp
  also have "\<dots> = slice h q n"
    using fit Cons.prems(2) p by (intro slice_splice_disjoint) auto
  finally show ?case using p by simp
qed simp

lemma ascending_from: "ascending lo hi ps \<Longrightarrow> (off, b) \<in> set ps \<Longrightarrow> lo \<le> off"
proof (induction ps arbitrary: lo)
  case (Cons p ps)
  obtain off' b' where p: "p = (off', b')" by (cases p)
  show ?case
  proof (cases "(off, b) = p")
    case True
    with Cons.prems p show ?thesis by simp
  next
    case False
    with Cons p have "off' + length b' \<le> off" by auto
    with Cons.prems p show ?thesis by simp
  qed
qed simp

lemma slice_puts:
  "ascending lo (length h) ps \<Longrightarrow> (off, b) \<in> set ps \<Longrightarrow> slice (puts h ps) off (length b) = b"
proof (induction ps arbitrary: lo h)
  case (Cons p ps)
  obtain off' b' where p: "p = (off', b')" by (cases p)
  with Cons.prems have asc: "ascending (off' + length b') (length h) ps" by simp
  then have fit: "off' + length b' \<le> length h" by (rule ascending_le)
  show ?case
  proof (cases "(off, b) \<in> set ps")
    case True
    with Cons.IH [of "off' + length b'" "splice h off' b'"] asc fit p show ?thesis by simp
  next
    case False
    with Cons.prems p have eq: "off' = off" "b' = b" by auto
    have "slice (puts (splice h off b) ps) off (length b) = slice (splice h off b) off (length b)"
      using asc fit eq ascending_from [OF asc]
      by (intro slice_puts_gap [of "off + length b"]) auto
    also have "\<dots> = b" using fit eq by (intro slice_splice_same) simp_all
    finally show ?thesis using p eq by simp
  qed
qed simp

definition header_puts :: "NormalizedConfig \<Rightarrow> (nat \<times> bytes) list" where
  "header_puts c = (let le = (\<lambda>n v. le_enc n (nat (v mod 256 ^ n))) in
     [(0, Magic), (0x08, le 4 1), (0x10, le 8 (capacity c)), (0x18, le 8 (tableOffset c)),
      (0x20, le 8 (loadLimit c)), (0x30, seed c), (0x50, le 4 (profile c)), (0x54, le 4 (slotSize c)),
      (0x58, le 8 (registryOffset c)), (0x60, le 8 (registryCapacity c))] @
     (if profile c = ProfileSparse then
       [(0x70, le 8 (sparseOffset c)), (0x78, le 8 (sparseCapacity c)), (0x80, le 8 (sparseLoadLimit c)),
        (0x90, le 4 (sparseSlotSize c))] else []))"

lemma header_of_puts: "header_of c = puts (zeros 4096) (header_puts c)"
  by (simp add: header_of_def header_puts_def Let_def setLE_def header_offsets Version_def)

lemma length_Magic [simp]: "length Magic = 8"
  by (simp add: Magic_def)

lemma header_ascending: "length (seed c) = 32 \<Longrightarrow> ascending 0 4096 (header_puts c)"
  by (simp add: header_puts_def Let_def)

lemma length_header_of: "length (seed c) = 32 \<Longrightarrow> length (header_of c) = 4096"
  using length_puts [of 0 "zeros 4096" "header_puts c"] by (simp add: header_of_puts header_ascending)

lemma header_field:
  assumes "length (seed c) = 32" and "(off, b) \<in> set (header_puts c)"
  shows "slice (header_of c) off (length b) = b"
  using slice_puts [of 0 "zeros 4096" "header_puts c" off b] assms
  by (simp add: header_of_puts header_ascending)

lemma header_gap:
  assumes "length (seed c) = 32" and "p + n \<le> 4096"
    and "\<forall>(off, b) \<in> set (header_puts c). p + n \<le> off \<or> off + length b \<le> p"
  shows "slice (header_of c) p n = zeros n"
  using slice_puts_gap [of 0 "zeros 4096" "header_puts c" p n] assms
  by (simp add: header_of_puts header_ascending slice_zeros)

lemma header_num:
  assumes "length (seed c) = 32" and "(off, le_enc n (nat (v mod 256 ^ n))) \<in> set (header_puts c)"
  shows "le_dec (slice (header_of c) off n) = nat (v mod 256 ^ n)"
  using header_field [OF assms] by (simp add: le_dec_le_enc nat_less_iff)

lemma header_fields:
  assumes "length (seed c) = 32"
  shows "slice (header_of c) OFF_MAGIC 8 = Magic"
    and "le_dec (slice (header_of c) OFF_VERSION 4) = nat (1 mod 256 ^ 4)"
    and "le_dec (slice (header_of c) OFF_CAPACITY 8) = nat (capacity c mod 256 ^ 8)"
    and "le_dec (slice (header_of c) OFF_TABLE_OFFSET 8) = nat (tableOffset c mod 256 ^ 8)"
    and "le_dec (slice (header_of c) OFF_LOAD_LIMIT 8) = nat (loadLimit c mod 256 ^ 8)"
    and "slice (header_of c) OFF_SEED 32 = seed c"
    and "le_dec (slice (header_of c) OFF_PROFILE 4) = nat (profile c mod 256 ^ 4)"
    and "le_dec (slice (header_of c) OFF_SLOT_SIZE 4) = nat (slotSize c mod 256 ^ 4)"
    and "le_dec (slice (header_of c) OFF_REGISTRY_OFFSET 8) = nat (registryOffset c mod 256 ^ 8)"
    and "le_dec (slice (header_of c) OFF_REGISTRY_CAP 8) = nat (registryCapacity c mod 256 ^ 8)"
  using header_field [OF assms, of 0 Magic] header_field [OF assms, of "0x30" "seed c"]
    header_num [OF assms, of "0x08" 4 1] assms
  by (simp_all add: header_num header_puts_def Let_def header_offsets)

lemma header_zero_fields:
  assumes "length (seed c) = 32"
  shows "slice (header_of c) OFF_FLAGS 4 = zeros 4"
    and "slice (header_of c) OFF_LIVE_COUNT 8 = zeros 8"
    and "slice (header_of c) OFF_TOKEN_COUNT 8 = zeros 8"
    and "slice (header_of c) OFF_SPARSE_LIVE_COUNT 8 = zeros 8"
    and "profile c \<noteq> ProfileSparse \<Longrightarrow> slice (header_of c) OFF_SPARSE_OFFSET 8 = zeros 8"
    and "profile c \<noteq> ProfileSparse \<Longrightarrow> slice (header_of c) OFF_SPARSE_CAPACITY 8 = zeros 8"
    and "profile c \<noteq> ProfileSparse \<Longrightarrow> slice (header_of c) OFF_SPARSE_LOAD_LIMIT 8 = zeros 8"
    and "profile c \<noteq> ProfileSparse \<Longrightarrow> slice (header_of c) OFF_SPARSE_SLOT_SIZE 4 = zeros 4"
  using assms by (auto intro!: header_gap simp: header_puts_def Let_def header_offsets)

lemma header_sparse_fields:
  assumes "length (seed c) = 32"
  shows "profile c = ProfileSparse \<Longrightarrow> le_dec (slice (header_of c) OFF_SPARSE_OFFSET 8) = nat (sparseOffset c mod 256 ^ 8)"
    and "profile c = ProfileSparse \<Longrightarrow> le_dec (slice (header_of c) OFF_SPARSE_CAPACITY 8) = nat (sparseCapacity c mod 256 ^ 8)"
    and "profile c = ProfileSparse \<Longrightarrow> le_dec (slice (header_of c) OFF_SPARSE_LOAD_LIMIT 8) = nat (sparseLoadLimit c mod 256 ^ 8)"
    and "profile c = ProfileSparse \<Longrightarrow> le_dec (slice (header_of c) OFF_SPARSE_SLOT_SIZE 4) = nat (sparseSlotSize c mod 256 ^ 4)"
  using assms by (simp_all add: header_num header_puts_def Let_def header_offsets)

lemma getLE_header:
  assumes "length h = 4096"
  shows "off + 8 \<le> 4096 \<Longrightarrow> getLE64 h off = Ok (le_dec (slice h off 8))"
    and "off + 4 \<le> 4096 \<Longrightarrow> getLE32 h off = Ok (le_dec (slice h off 4))"
  using assms by (simp_all add: getLE64_def getLE32_def)

lemma header_config_header_of:
  assumes st: "storable c"
  shows "header_config (header_of c) = Ok (opened c)"
proof -
  have sd: "length (seed c) = 32" using st by (simp add: storable_def)
  note len = length_header_of [OF sd]
  note offs = OFF_VERSION_def OFF_FLAGS_def OFF_CAPACITY_def OFF_TABLE_OFFSET_def OFF_LOAD_LIMIT_def
    OFF_PROFILE_def OFF_SLOT_SIZE_def OFF_REGISTRY_OFFSET_def OFF_REGISTRY_CAP_def OFF_SPARSE_OFFSET_def
    OFF_SPARSE_CAPACITY_def OFF_SPARSE_LOAD_LIMIT_def OFF_SPARSE_SLOT_SIZE_def
  have get: "getLE64 (header_of c) off = Ok (le_dec (slice (header_of c) off 8))" if "off \<le> 4088" for off
    using getLE_header(1) [OF len] that by simp
  have get4: "getLE32 (header_of c) off = Ok (le_dec (slice (header_of c) off 4))" if "off \<le> 4092" for off
    using getLE_header(2) [OF len] that by simp
  have small: "OFF_CAPACITY \<le> 4088" "OFF_TABLE_OFFSET \<le> 4088" "OFF_LOAD_LIMIT \<le> 4088"
    "OFF_REGISTRY_OFFSET \<le> 4088" "OFF_REGISTRY_CAP \<le> 4088" "OFF_SPARSE_OFFSET \<le> 4088" "OFF_SPARSE_CAPACITY \<le> 4088"
    "OFF_SPARSE_LOAD_LIMIT \<le> 4088" "OFF_VERSION \<le> 4092" "OFF_FLAGS \<le> 4092" "OFF_PROFILE \<le> 4092"
    "OFF_SLOT_SIZE \<le> 4092" "OFF_SPARSE_SLOT_SIZE \<le> 4092"
    by (simp_all add: offs)
  show ?thesis
  proof (cases "profile c = ProfileSparse")
    case True
    show ?thesis
      using st True
      unfolding header_config_def
      by (simp add: get get4 small header_fields [OF sd] header_zero_fields [OF sd] header_sparse_fields [OF sd]
          Version_def opened_def storable_def profile_defs)
        (intro NormalizedConfig.equality; simp add: nat_less_iff Let_def)
  next
    case False
    show ?thesis
      using st False
      unfolding header_config_def
      by (simp add: get get4 small header_fields [OF sd] header_zero_fields [OF sd] Version_def opened_def storable_def)
        (intro NormalizedConfig.equality; simp add: nat_less_iff Let_def)
  qed
qed

text \<open>An all-zero table is empty.\<close>

lemma blank_table:
  assumes "table_ok t" and "table_in t bs" and "tab_count t bs = 0"
    and "\<And>i. i < t_capacity t \<Longrightarrow> slots t bs ! i = zeros (t_slotSize t)"
  shows "table_inv H sd t bs" and "tget t bs = (\<lambda>_. None)"
proof -
  have dead: "\<not> slot_live t (slots t bs ! i)" if "i < t_capacity t" for i
    using assms(1) that by (simp add: assms(4) slot_live_def slice_zeros table_ok_def isZero_iff)
  then have none: "filter (slot_live t) (slots t bs) = []"
    by (auto simp: filter_empty_conv in_set_conv_nth)
  have cap: "0 < t_capacity t" using assms(1) by (simp add: table_ok_def)
  have "rh_ordered (slot_live t) (t_keyOf t) (homeOf H sd (t_capacity t)) (slots t bs)"
    using dead cap by (simp add: rh_ordered_def psl_def)
  with assms(2,3) none show "table_inv H sd t bs"
    by (simp add: table_inv_def keys_distinct_def)
  show "tget t bs = (\<lambda>_. None)"
    using none by (auto simp: tget_def tab_get_None_iff live_recs_def mset_filter [symmetric] simp del: mset_filter)
qed

lemma slots_of_zeros:
  assumes "table_in t bs" and "i < t_capacity t" and "same_on (zeros (length bs)) bs (t_base t) (tab_end t)"
  shows "slots t bs ! i = zeros (t_slotSize t)"
proof -
  have r: "t_slotSize t * i + t_slotSize t \<le> t_slotSize t * t_capacity t" by (rule slot_range [OF assms(2)])
  have "slice bs (t_base t + t_slotSize t * i) (t_slotSize t)
      = slice (zeros (length bs)) (t_base t + t_slotSize t * i) (t_slotSize t)"
    using r by (intro same_onD [OF assms(3)]) simp_all
  also have "\<dots> = zeros (t_slotSize t)"
    using r assms(1) by (intro slice_zeros) (simp add: table_in_def)
  finally show ?thesis by (simp add: nth_slots assms(2))
qed

definition fresh_drive :: "NormalizedConfig \<Rightarrow> Drive" where
  "fresh_drive c = \<lparr>d_cfg = opened c, d_tokens = [], colOff = []\<rparr>"

definition empty_abs :: Abs where
  "empty_abs = \<lparr>a_acct = (\<lambda>_. None), a_bal = (\<lambda>_ _. 0), a_toks = [], a_live = 0, a_sparse = 0\<rparr>"

lemma opened_tables:
  "accountsTable (opened c) = accountsTable c" "profile c = ProfileSparse \<Longrightarrow> sparseTable (opened c) = sparseTable c"
  "profile (opened c) = profile c" "seed (opened c) = seed c" "registryOffset (opened c) = registryOffset c"
  "registryCapacity (opened c) = registryCapacity c"
  by (simp_all add: opened_def accountsTable_def sparseTable_def Let_def)

lemma opened_geometry:
  assumes "geometry c" and "storable c" and "driveLength c = int n" and "n < 2 ^ 53"
  shows "drive_geometry (opened c) n"
proof -
  have "geometry ((opened c)\<lparr>driveLength := int n\<rparr>)"
    using assms(1,3) by (auto simp: geometry_def opened_def Let_def profile_defs)
  then show ?thesis using assms(2,4) by (simp add: drive_geometry_def storable_def opened_tables)
qed

lemma formatted_image:
  assumes st: "storable c" and g: "drive_geometry (opened c) n"
  defines "bs \<equiv> splice (zeros n) 0 (header_of c)"
  shows "length bs = n" and "drive_inv H bs (fresh_drive c)" and "abs_drive (fresh_drive c) bs = empty_abs"
proof -
  let ?c = "opened c" and ?t = "accountsTable (opened c)" and ?u = "sparseTable (opened c)"
  have sd: "length (seed c) = 32" using st by (simp add: storable_def)
  note len = length_header_of [OF sd]
  have "4096 \<le> t_base ?t" using geometry_apart(5) [OF g] .
  then have n: "4096 \<le> n" using geometry_nat(1) [OF g] by (simp add: accountsTable_def)
  show lbs: "length bs = n" using n len by (simp add: bs_def)
  have g': "drive_geometry ?c (length bs)" using g lbs by simp
  have beyond: "same_on (zeros (length bs)) bs lo hi" if "4096 \<le> lo" for lo hi
    unfolding lbs unfolding bs_def using that n len by (intro splice_same) simp_all
  have head: "slice bs p k = slice (header_of c) p k" if "p + k \<le> 4096" for p k
    using that n len unfolding bs_def by (simp add: slice_splice_within)
  have cnt: "tab_count ?t bs = 0"
    by (simp add: tab_count_def accountsTable_def head header_offsets
        header_zero_fields [OF sd, unfolded OFF_LIVE_COUNT_def])
  have acc: "table_inv H (seed ?c) ?t bs" "tget ?t bs = (\<lambda>_. None)"
    using accountsTable_in [OF g'] \<open>4096 \<le> t_base ?t\<close> beyond
    by (auto intro!: blank_table accountsTable_ok [OF g] cnt slots_of_zeros)
  have sp: "tab_count ?u bs = 0" "table_inv H (seed ?c) ?u bs" "tget ?u bs = (\<lambda>_. None)"
    if p: "profile ?c = ProfileSparse"
  proof -
    show c0: "tab_count ?u bs = 0"
      by (simp add: tab_count_def sparseTable_def head header_offsets
          header_zero_fields [OF sd, unfolded OFF_SPARSE_LIVE_COUNT_def])
    show "table_inv H (seed ?c) ?u bs" "tget ?u bs = (\<lambda>_. None)"
      using sparseTable_in [OF g' p] geometry_apart(6) [OF g p] beyond
      by (auto intro!: blank_table sparseTable_ok [OF g p] c0 slots_of_zeros)
  qed
  have "64 \<le> nat (slotSize ?c)" if "profile ?c = ProfileWide"
    using g that by (auto simp: drive_geometry_def geometry_def profile_defs)
  then have "registry_inv bs (fresh_drive c)"
    using st head [of OFF_TOKEN_COUNT 8] header_zero_fields(3) [OF sd]
    by (auto simp: registry_inv_def fresh_drive_def columns_def opened_tables storable_def header_offsets
        compact_def profile_defs)
  moreover have "slice bs 0 4096 = header_of c" using head [of 0 4096] len by (simp add: slice_def)
  ultimately show "drive_inv H bs (fresh_drive c)"
    using g' acc sp header_config_header_of [OF st] by (simp add: HEADER_SIZE_def drive_inv_def fresh_drive_def fresh_ids_def)
  show "abs_drive (fresh_drive c) bs = empty_abs"
    using acc sp cnt by (simp add: abs_drive_def fresh_drive_def empty_abs_def bal_of_def fun_eq_iff)
qed

context byte_store
begin

text \<open>Opening reads the geometry from the header and the registry cache from the registry: what a running drive holds in memory is a
  function of its bytes.\<close>

lemma open_recovers:
  assumes ok: "ok s" and inv: "drive_inv H (contents s) d"
  shows "open_drive S s = (Ok d, s)"
proof -
  note g = drive_invD(1) [OF inv]
  have "4096 \<le> length (contents s)"
    using geometry_apart(5) [OF g] accountsTable_in [OF g] by (simp add: table_in_def)
  then have "readAt S 0 4096 s = (Ok (slice (contents s) 0 4096), s)" using read [OF ok, of 0 4096] by simp
  moreover have "reloadRegistry S (s, \<lparr>d_cfg = d_cfg d, d_tokens = [], colOff = []\<rparr>) = (Ok (), (s, d))"
    by (rule reloadRegistry_runs [OF ok g drive_invD(5) [OF inv]]) simp
  moreover have "header_config (slice (contents s) 0 4096) = Ok (d_cfg d)" using drive_invD(8) [OF inv] by (simp add: HEADER_SIZE_def)
  ultimately show ?thesis by (simp add: open_drive_def HEADER_SIZE_def new_drive_def)
qed

lemma format_ok:
  assumes ok: "ok s" and z: "contents s = zeros n" and "n < 2 ^ 53"
    and norm: "normalizeConfig config = Ok c" and val: "validateConfig c = Ok ()"
    and dl: "driveLength c = int n" and st: "storable c"
  obtains s' where "format S config s = (Ok (fresh_drive c), s')" and "ok s'"
    and "drive_inv H (contents s') (fresh_drive c)" and "abs_drive (fresh_drive c) (contents s') = empty_abs"
proof -
  have g: "drive_geometry (opened c) n"
    by (rule opened_geometry [OF validateConfig_geometry [OF val] st dl assms(3)])
  have sd: "length (seed c) = 32" using st by (simp add: storable_def)
  note len = length_header_of [OF sd]
  have n: "4096 \<le> n" using geometry_apart(5) [OF g] geometry_nat(1) [OF g] by (simp add: accountsTable_def)
  let ?s = "written S s 0 (header_of c)"
  have fit: "0 + length (header_of c) \<le> length (contents s)" using z n len by simp
  have w: "writeAt S 0 (header_of c) s = (Ok (), ?s)" "ok ?s"
    "contents ?s = splice (zeros n) 0 (header_of c)"
    using write_runs [OF ok fit] write_keeps [OF ok fit] write_contents [OF ok fit] z by simp_all
  note img = formatted_image [OF st g, folded w(3)]
  have "open_drive S ?s = (Ok (fresh_drive c), ?s)" by (rule open_recovers [OF w(2) img(2)])
  then have "format S config s = (Ok (fresh_drive c), ?s)" by (simp add: format_def norm val w(1))
  with that w(2) img show ?thesis by blast
qed

end

end
