(* ===== verification/Ledger.thy ===== *)
theory Ledger
  imports Drive_Format "HOL-Library.AList"
begin

text \<open>
  The journaled ledger (\<^verbatim>\<open>app/src/ledger.ts\<close>): the accounts drive over a store that records before-images,
  and the RAM that rides with it. An address (\<^verbatim>\<open>Address\<close>, 40 hexadecimal digits in any case) is its 20 bytes.

  The restore closures a journal holds are first-order here, one constructor of \<open>undo\<close> per place that
  calls \<^verbatim>\<open>journal.note\<close>; \<open>run_undo\<close> is what the closure does. The entries are held newest first.
\<close>

section \<open>Data\<close>

record CrossDomainConfig =
  l1Messenger :: bytes
  l1MessengerAliased :: bytes
  l1Bridge :: bytes

record TokenMetadata =
  md_name :: string
  md_symbol :: string
  md_decimals :: nat

datatype msgStatus = successful | failed

datatype undo =
    UWrite int bytes
  | UFacade bytes
  | UTotal nat int
  | UMetadata nat "TokenMetadata option"
  | UPortal bytes "nat option"
  | UFee int
  | UCrossDomain "CrossDomainConfig option"
  | UMsgNonce nat
  | UMessage bytes "msgStatus option"

record Ram =
  totals :: "nat \<Rightarrow> int option"
  metadata :: "nat \<Rightarrow> TokenMetadata option"
  portals :: "(bytes \<times> nat) list"
  facades :: "bytes \<Rightarrow> nat option"
  fee :: int
  crossDomainConfig :: "CrossDomainConfig option"
  msgNonce :: nat
  messages :: "bytes \<Rightarrow> msgStatus option"

record 's Ledger =
  jst :: "'s \<times> undo list"
  l_drive :: Drive
  l_ram :: Ram

record ResolvedFacade =
  rf_id :: nat
  rf_l1Token :: bytes
  rf_width :: nat

text \<open>The ERC-20 portal kind, and the domain tag of the token addresses.\<close>

definition PORTAL_ETHER :: nat where "PORTAL_ETHER = 0"
definition PORTAL_ERC20 :: nat where "PORTAL_ERC20 = 1"

definition ascii :: "string \<Rightarrow> bytes" where
  "ascii s = map (\<lambda>c. of_nat (of_char c)) s"

definition TOKEN_DOMAIN :: string where "TOKEN_DOMAIN = ''ctsi.erc20.v1''"

definition l2TokenAddress :: "(bytes \<Rightarrow> bytes) \<Rightarrow> bytes \<Rightarrow> bytes" where
  "l2TokenAddress H l1Token = (let hash = H (ascii TOKEN_DOMAIN @ l1Token) in drop (length hash - 20) hash)"

definition DEVNET_DRIVE_CONFIG :: Config where
  "DEVNET_DRIVE_CONFIG =
     \<lparr>c_driveLength = Some 1048576, c_capacity = Some 4096, c_loadLimit = None, c_seed = None,
      c_profile = Some ProfileSparse, c_slotSize = None, c_tableOffset = None,
      c_registryOffset = Some 0x100, c_registryCapacity = Some 8, c_sparseOffset = Some 266240,
      c_sparseCapacity = Some 4096, c_sparseLoadLimit = None, c_sparseSlotSize = None\<rparr>"

section \<open>The journal\<close>

definition JournaledStore_readAt :: "'s store \<Rightarrow> int \<Rightarrow> int \<Rightarrow> ('s \<times> undo list, bytes) prog" where
  "JournaledStore_readAt S off len = on_store (readAt S off len)"

definition JournaledStore_writeAt :: "'s store \<Rightarrow> int \<Rightarrow> bytes \<Rightarrow> ('s \<times> undo list, unit) prog" where
  "JournaledStore_writeAt S off bs =
     bnd (on_store (readAt S off (int (length bs)))) (\<lambda>before.
     bnd (modify (\<lambda>(s, log). (s, UWrite off before # log))) (\<lambda>_.
     on_store (writeAt S off bs)))"

definition JournaledStore :: "'s store \<Rightarrow> ('s \<times> undo list) store" where
  "JournaledStore S = \<lparr>readAt = JournaledStore_readAt S, writeAt = JournaledStore_writeAt S\<rparr>"

definition journal_note :: "undo \<Rightarrow> ('s Ledger, unit) prog" where
  "journal_note u = modify (\<lambda>l. l\<lparr>jst := (fst (jst l), u # snd (jst l))\<rparr>)"

definition mark :: "'s Ledger \<Rightarrow> nat" where
  "mark l = length (snd (jst l))"

definition map_ram :: "(Ram \<Rightarrow> Ram) \<Rightarrow> ('s Ledger, unit) prog" where
  "map_ram f = modify (\<lambda>l. l\<lparr>l_ram := f (l_ram l)\<rparr>)"

definition restore :: "('k \<Rightarrow> 'v option) \<Rightarrow> 'k \<Rightarrow> 'v option \<Rightarrow> ('k \<Rightarrow> 'v option)" where
  "restore m k before = m(k := before)"

definition restore_portal :: "(bytes \<times> nat) list \<Rightarrow> bytes \<Rightarrow> nat option \<Rightarrow> (bytes \<times> nat) list" where
  "restore_portal ps k before = (case before of None \<Rightarrow> AList.delete k ps | Some kind \<Rightarrow> AList.update k kind ps)"

fun undo_ram :: "undo \<Rightarrow> Ram \<Rightarrow> Ram" where
  "undo_ram (UWrite off before) r = r"
| "undo_ram (UFacade k) r = r\<lparr>facades := (facades r)(k := None)\<rparr>"
| "undo_ram (UTotal i before) r = r\<lparr>totals := (totals r)(i \<mapsto> before)\<rparr>"
| "undo_ram (UMetadata i before) r = r\<lparr>metadata := restore (metadata r) i before\<rparr>"
| "undo_ram (UPortal k before) r = r\<lparr>portals := restore_portal (portals r) k before\<rparr>"
| "undo_ram (UFee before) r = r\<lparr>fee := before\<rparr>"
| "undo_ram (UCrossDomain before) r = r\<lparr>crossDomainConfig := before\<rparr>"
| "undo_ram (UMsgNonce n) r = r\<lparr>msgNonce := n\<rparr>"
| "undo_ram (UMessage k before) r = r\<lparr>messages := restore (messages r) k before\<rparr>"

definition run_undo :: "'s store \<Rightarrow> undo \<Rightarrow> ('s Ledger, unit) prog" where
  "run_undo S u = (case u of
       UWrite off before \<Rightarrow>
         zoom (fst \<circ> jst) (\<lambda>s l. l\<lparr>jst := (s, snd (jst l))\<rparr>) (writeAt S off before)
     | _ \<Rightarrow> map_ram (undo_ram u))"

fun rollback_loop :: "'s store \<Rightarrow> nat \<Rightarrow> undo list \<Rightarrow> ('s Ledger, unit) prog" where
  "rollback_loop S m [] = ret ()"
| "rollback_loop S m (u # log) =
     (if length (u # log) > m then
        bnd (modify (\<lambda>l. l\<lparr>jst := (fst (jst l), log)\<rparr>)) (\<lambda>_.
        bnd (run_undo S u) (\<lambda>_. rollback_loop S m log))
      else ret ())"

definition rollbackTo :: "'s store \<Rightarrow> nat \<Rightarrow> ('s Ledger, unit) prog" where
  "rollbackTo S m = bnd (gets (snd \<circ> jst)) (rollback_loop S m)"

definition journal_rollbackAll :: "'s store \<Rightarrow> ('s Ledger, unit) prog" where
  "journal_rollbackAll S = rollbackTo S 0"

definition commit :: "('s Ledger, unit) prog" where
  "commit = modify (\<lambda>l. l\<lparr>jst := (fst (jst l), [])\<rparr>)"

section \<open>The ledger\<close>

definition on_led_drive :: "(('s \<times> undo list) \<times> Drive, 'a) prog \<Rightarrow> ('s Ledger, 'a) prog" where
  "on_led_drive m = zoom (\<lambda>l. (jst l, l_drive l)) (\<lambda>(j, d) l. l\<lparr>jst := j, l_drive := d\<rparr>) m"

fun facades_from :: "(bytes \<Rightarrow> bytes) \<Rightarrow> Token list \<Rightarrow> nat \<Rightarrow> (bytes \<Rightarrow> nat option) \<Rightarrow> (bytes \<Rightarrow> nat option)" where
  "facades_from H [] i m = m"
| "facades_from H (k # ks) i m = facades_from H ks (Suc i) (m(l2TokenAddress H (tok_address k) \<mapsto> i))"

definition rebuildFacades :: "(bytes \<Rightarrow> bytes) \<Rightarrow> ('s Ledger, unit) prog" where
  "rebuildFacades H =
     bnd (gets (d_tokens \<circ> l_drive)) (\<lambda>ks. map_ram (\<lambda>r. r\<lparr>facades := facades_from H ks 0 Map.empty\<rparr>))"

definition afterRollback :: "(bytes \<Rightarrow> bytes) \<Rightarrow> 's store \<Rightarrow> ('s Ledger, unit) prog" where
  "afterRollback H S =
     bnd (on_led_drive (reloadRegistry (JournaledStore S))) (\<lambda>_. rebuildFacades H)"

definition new_ram :: Ram where
  "new_ram = \<lparr>totals = Map.empty, metadata = Map.empty, portals = [], facades = Map.empty, fee = 0,
     crossDomainConfig = None, msgNonce = 0, messages = Map.empty\<rparr>"

definition Ledger_create :: "(bytes \<Rightarrow> bytes) \<Rightarrow> 's store \<Rightarrow> 's \<Rightarrow> 's Ledger res" where
  "Ledger_create H S s =
     (case bnd (on_store (readAt S 0 8)) (\<lambda>magic.
          if magic = Magic then open_drive (JournaledStore S) else format (JournaledStore S) DEVNET_DRIVE_CONFIG)
        (s, []) of
        (Ok d, j) \<Rightarrow>
          (case bnd commit (\<lambda>_. rebuildFacades H) \<lparr>jst = j, l_drive = d, l_ram = new_ram\<rparr> of
             (Ok _, l) \<Rightarrow> Ok l | (Throw e, _) \<Rightarrow> Throw e | (Diverge, _) \<Rightarrow> Diverge)
      | (Throw e, _) \<Rightarrow> Throw e
      | (Diverge, _) \<Rightarrow> Diverge)"

subsection \<open>Accounts\<close>

definition account :: "(bytes \<Rightarrow> bytes) \<Rightarrow> 's store \<Rightarrow> bytes \<Rightarrow> ('s Ledger, int \<times> int) prog" where
  "account H S addr =
     bnd (on_led_drive (getAccount H (JournaledStore S) (ABytes addr))) (\<lambda>a.
       ret (case a of None \<Rightarrow> (0, 0) | Some x \<Rightarrow> (int (acc_nonce x), int (acc_balance x))))"

definition led_setAccount :: "(bytes \<Rightarrow> bytes) \<Rightarrow> 's store \<Rightarrow> bytes \<Rightarrow> int \<Rightarrow> int \<Rightarrow> ('s Ledger, unit) prog" where
  "led_setAccount H S addr n b = on_led_drive (setAccount H (JournaledStore S) (ABytes addr) n b)"

definition creditEther :: "(bytes \<Rightarrow> bytes) \<Rightarrow> 's store \<Rightarrow> bytes \<Rightarrow> int \<Rightarrow> ('s Ledger, unit) prog" where
  "creditEther H S addr amount =
     (if amount = 0 then ret ()
      else bnd (account H S addr) (\<lambda>(n, b). led_setAccount H S addr n (b + amount)))"

definition debitEther :: "(bytes \<Rightarrow> bytes) \<Rightarrow> 's store \<Rightarrow> bytes \<Rightarrow> int \<Rightarrow> ('s Ledger, unit) prog" where
  "debitEther H S addr amount =
     (if amount = 0 then ret ()
      else bnd (account H S addr) (\<lambda>(n, b).
        if b < amount then raise (InsufficientFunds ''insufficient ether balance'')
        else led_setAccount H S addr n (b - amount)))"

definition bumpNonceAndCharge :: "(bytes \<Rightarrow> bytes) \<Rightarrow> 's store \<Rightarrow> bytes \<Rightarrow> int \<Rightarrow> ('s Ledger, unit) prog" where
  "bumpNonceAndCharge H S addr charge =
     bnd (account H S addr) (\<lambda>(n, b).
       if b < charge then raise (InsufficientFunds ''insufficient fee'')
       else led_setAccount H S addr (n + 1) (b - charge))"

subsection \<open>Tokens\<close>

definition setMetadata :: "nat \<Rightarrow> TokenMetadata \<Rightarrow> ('s Ledger, unit) prog" where
  "setMetadata tid m =
     bnd (gets (\<lambda>l. metadata (l_ram l) tid)) (\<lambda>before.
     bnd (journal_note (UMetadata tid before)) (\<lambda>_.
     map_ram (\<lambda>r. r\<lparr>metadata := (metadata r)(tid \<mapsto> m)\<rparr>)))"

definition led_registerToken ::
  "(bytes \<Rightarrow> bytes) \<Rightarrow> 's store \<Rightarrow> bytes \<Rightarrow> TokenMetadata option \<Rightarrow> ('s Ledger, nat \<times> bytes) prog" where
  "led_registerToken H S l1Token md =
     bnd (on_led_drive (registerToken (JournaledStore S) (ABytes l1Token) 32)) (\<lambda>tid.
       let l2Token = l2TokenAddress H l1Token in
       bnd (map_ram (\<lambda>r. r\<lparr>facades := (facades r)(l2Token \<mapsto> tid)\<rparr>)) (\<lambda>_.
       bnd (journal_note (UFacade l2Token)) (\<lambda>_.
       bnd (case md of None \<Rightarrow> ret () | Some m \<Rightarrow> setMetadata tid m) (\<lambda>_.
       ret (tid, l2Token)))))"

definition tokenByL2Address :: "bytes \<Rightarrow> 's Ledger \<Rightarrow> ResolvedFacade option" where
  "tokenByL2Address addr l =
     (case facades (l_ram l) addr of
        None \<Rightarrow> None
      | Some tid \<Rightarrow>
          if tid < length (d_tokens (l_drive l))
          then Some \<lparr>rf_id = tid, rf_l1Token = tok_address (d_tokens (l_drive l) ! tid),
                     rf_width = tok_width (d_tokens (l_drive l) ! tid)\<rparr>
          else None)"

definition tokenByL1Address :: "bytes \<Rightarrow> ('s Ledger, ResolvedFacade option) prog" where
  "tokenByL1Address l1Token =
     bnd (on_led_drive (tokenByAddress (ABytes l1Token))) (\<lambda>r.
       ret (map_option (\<lambda>(i, k). \<lparr>rf_id = i, rf_l1Token = l1Token, rf_width = tok_width k\<rparr>) r))"

definition tokenBalance :: "(bytes \<Rightarrow> bytes) \<Rightarrow> 's store \<Rightarrow> bytes \<Rightarrow> nat \<Rightarrow> ('s Ledger, int) prog" where
  "tokenBalance H S addr tid =
     bnd (on_led_drive (getTokenBalance H (JournaledStore S) (ABytes addr) (int tid))) (\<lambda>b. ret (int b))"

definition totalSupply :: "nat \<Rightarrow> Ram \<Rightarrow> int" where
  "totalSupply tid r = (case totals r tid of None \<Rightarrow> 0 | Some t \<Rightarrow> t)"

definition addTotal :: "nat \<Rightarrow> int \<Rightarrow> ('s Ledger, unit) prog" where
  "addTotal tid delta =
     bnd (gets (\<lambda>l. totalSupply tid (l_ram l))) (\<lambda>before.
     bnd (journal_note (UTotal tid before)) (\<lambda>_.
     map_ram (\<lambda>r. r\<lparr>totals := (totals r)(tid \<mapsto> before + delta)\<rparr>)))"

definition led_setTokenBalance ::
  "(bytes \<Rightarrow> bytes) \<Rightarrow> 's store \<Rightarrow> bytes \<Rightarrow> nat \<Rightarrow> int \<Rightarrow> ('s Ledger, unit) prog" where
  "led_setTokenBalance H S addr tid v =
     on_led_drive (setTokenBalance H (JournaledStore S) (ABytes addr) (int tid) v)"

definition creditToken :: "(bytes \<Rightarrow> bytes) \<Rightarrow> 's store \<Rightarrow> bytes \<Rightarrow> nat \<Rightarrow> int \<Rightarrow> ('s Ledger, unit) prog" where
  "creditToken H S addr tid amount =
     (if amount = 0 then ret ()
      else bnd (tokenBalance H S addr tid) (\<lambda>b.
           bnd (led_setTokenBalance H S addr tid (b + amount)) (\<lambda>_.
           addTotal tid amount)))"

definition debitToken :: "(bytes \<Rightarrow> bytes) \<Rightarrow> 's store \<Rightarrow> bytes \<Rightarrow> nat \<Rightarrow> int \<Rightarrow> ('s Ledger, unit) prog" where
  "debitToken H S addr tid amount =
     (if amount = 0 then ret ()
      else bnd (tokenBalance H S addr tid) (\<lambda>b.
        if b < amount then raise (InsufficientFunds ''insufficient token balance'')
        else bnd (led_setTokenBalance H S addr tid (b - amount)) (\<lambda>_.
             addTotal tid (- amount))))"

definition metadataOf :: "nat \<Rightarrow> Ram \<Rightarrow> TokenMetadata" where
  "metadataOf tid r = (case metadata r tid of Some m \<Rightarrow> m
     | None \<Rightarrow> \<lparr>md_name = ''UNREGISTERED-'' @ dec tid, md_symbol = ''UNREG-'' @ dec tid, md_decimals = 0\<rparr>)"

subsection \<open>Configuration and cross-domain state\<close>

definition registerPortal :: "bytes \<Rightarrow> nat \<Rightarrow> ('s Ledger, unit) prog" where
  "registerPortal aliasedPortal kind =
     bnd (gets (\<lambda>l. map_of (portals (l_ram l)) aliasedPortal)) (\<lambda>before.
     bnd (journal_note (UPortal aliasedPortal before)) (\<lambda>_.
     map_ram (\<lambda>r. r\<lparr>portals := AList.update aliasedPortal kind (portals r)\<rparr>)))"

definition portalKind :: "bytes \<Rightarrow> Ram \<Rightarrow> nat option" where
  "portalKind aliasedSender r = map_of (portals r) aliasedSender"

definition setFee :: "int \<Rightarrow> ('s Ledger, unit) prog" where
  "setFee v =
     bnd (gets (fee \<circ> l_ram)) (\<lambda>before.
     bnd (journal_note (UFee before)) (\<lambda>_. map_ram (\<lambda>r. r\<lparr>fee := v\<rparr>)))"

definition crossDomain :: "Ram \<Rightarrow> CrossDomainConfig option" where
  "crossDomain r = crossDomainConfig r"

definition registerCrossDomain :: "CrossDomainConfig \<Rightarrow> ('s Ledger, unit) prog" where
  "registerCrossDomain c =
     bnd (gets (crossDomainConfig \<circ> l_ram)) (\<lambda>before.
     bnd (journal_note (UCrossDomain before)) (\<lambda>_. map_ram (\<lambda>r. r\<lparr>crossDomainConfig := Some c\<rparr>)))"

definition hasErc20Portal :: "Ram \<Rightarrow> bool" where
  "hasErc20Portal r = list_ex (\<lambda>(_, kind). kind = PORTAL_ERC20) (portals r)"

definition nextMessageNonce :: "('s Ledger, nat) prog" where
  "nextMessageNonce =
     bnd (gets (msgNonce \<circ> l_ram)) (\<lambda>n.
     bnd (journal_note (UMsgNonce n)) (\<lambda>_.
     bnd (map_ram (\<lambda>r. r\<lparr>msgNonce := n + 1\<rparr>)) (\<lambda>_. ret n)))"

definition peekMessageNonce :: "Ram \<Rightarrow> nat" where
  "peekMessageNonce r = msgNonce r"

definition messageStatus :: "bytes \<Rightarrow> Ram \<Rightarrow> msgStatus option" where
  "messageStatus hash r = messages r hash"

definition setMessageStatus :: "bytes \<Rightarrow> msgStatus \<Rightarrow> ('s Ledger, unit) prog" where
  "setMessageStatus hash status =
     bnd (gets (\<lambda>l. messages (l_ram l) hash)) (\<lambda>before.
     bnd (journal_note (UMessage hash before)) (\<lambda>_.
     map_ram (\<lambda>r. r\<lparr>messages := (messages r)(hash \<mapsto> status)\<rparr>)))"

end
