(* ===== verification/Ledger_Journal.thy ===== *)
theory Ledger_Journal
  imports Ledger
begin

text \<open>
  What the journal guarantees. \<open>since l0 l\<close> says that \<open>l\<close> was reached from \<open>l0\<close> by journaled steps: undoing
  the entries made since gives the bytes and the RAM of \<open>l0\<close> back. Every ledger operation keeps it
  (\<open>journaled\<close>), whatever its result, and \<open>rollbackTo\<close> followed by \<open>afterRollback\<close> returns to \<open>l0\<close>.

  The drive operations need no new proof: a journaled store is again a byte store, for the store
  predicate that carries the before-images, so their refinement lemmas apply as they stand.
\<close>

section \<open>Undoing\<close>

fun is_write :: "undo \<Rightarrow> bool" where
  "is_write (UWrite off before) = True"
| "is_write u = False"

fun undo_byte :: "undo \<Rightarrow> bytes \<Rightarrow> bytes" where
  "undo_byte (UWrite off before) b = splice b (nat off) before"
| "undo_byte u b = b"

fun in_image :: "nat \<Rightarrow> undo \<Rightarrow> bool" where
  "in_image n (UWrite off before) \<longleftrightarrow> 0 \<le> off \<and> nat off + length before \<le> n"
| "in_image n u \<longleftrightarrow> True"

definition jok :: "('s \<Rightarrow> bytes) \<Rightarrow> ('s \<Rightarrow> bool) \<Rightarrow> bytes \<Rightarrow> undo list \<Rightarrow> undo list \<Rightarrow> 's \<times> undo list \<Rightarrow> bool" where
  "jok contents ok bs0 log0 R j \<longleftrightarrow> ok (fst j) \<and>
     (\<exists>k. snd j = k @ log0 \<and> filter (\<lambda>u. \<not> is_write u) k = R \<and>
          (\<forall>u\<in>set k. in_image (length (contents (fst j))) u) \<and> fold undo_byte k (contents (fst j)) = bs0)"

text \<open>The RAM up to what rollback restores by other means: the facade map is rebuilt from the registry, and a
  total that was never set reads as zero.\<close>

definition ram_view :: "Ram \<Rightarrow> Ram" where
  "ram_view r = r\<lparr>totals := (\<lambda>i. Some (totalSupply i r)), facades := Map.empty\<rparr>"

lemma ram_view_eq:
  "ram_view r = ram_view r' \<longleftrightarrow> (\<forall>i. totalSupply i r = totalSupply i r') \<and> metadata r = metadata r' \<and>
     portals r = portals r' \<and> fee r = fee r' \<and> crossDomainConfig r = crossDomainConfig r' \<and>
     msgNonce r = msgNonce r' \<and> messages r = messages r'"
  by (cases r; cases r') (auto simp: ram_view_def fun_eq_iff totalSupply_def)

lemma undo_ram_view: "ram_view r = ram_view r' \<Longrightarrow> ram_view (undo_ram u r) = ram_view (undo_ram u r')"
  by (cases u) (auto simp: ram_view_eq totalSupply_def)

lemma fold_undo_ram_view:
  "ram_view r = ram_view r' \<Longrightarrow> ram_view (fold undo_ram k r) = ram_view (fold undo_ram k r')"
proof (induction k arbitrary: r r')
  case Nil
  then show ?case by simp
next
  case (Cons u k)
  from Cons.IH [OF undo_ram_view [OF Cons.prems]] show ?case by simp
qed

lemma undo_ram_write: "is_write u \<Longrightarrow> undo_ram u r = r"
  by (cases u) auto

lemma fold_undo_ram_filter: "fold undo_ram (filter (\<lambda>u. \<not> is_write u) k) r = fold undo_ram k r"
  by (induction k arbitrary: r) (simp_all add: undo_ram_write)

definition ledger_inv :: "('s \<Rightarrow> bytes) \<Rightarrow> ('s \<Rightarrow> bool) \<Rightarrow> (bytes \<Rightarrow> bytes) \<Rightarrow> 's Ledger \<Rightarrow> bool" where
  "ledger_inv contents ok H l \<longleftrightarrow>
     ok (fst (jst l)) \<and> drive_inv H (contents (fst (jst l))) (l_drive l) \<and>
     facades (l_ram l) = facades_from H (d_tokens (l_drive l)) 0 Map.empty"

definition since :: "('s \<Rightarrow> bytes) \<Rightarrow> ('s \<Rightarrow> bool) \<Rightarrow> (bytes \<Rightarrow> bytes) \<Rightarrow> 's Ledger \<Rightarrow> 's Ledger \<Rightarrow> bool" where
  "since contents ok H l0 l \<longleftrightarrow>
     ledger_inv contents ok H l0 \<and> ledger_inv contents ok H l \<and> d_cfg (l_drive l) = d_cfg (l_drive l0) \<and>
     (\<exists>R. jok contents ok (contents (fst (jst l0))) (snd (jst l0)) R (jst l) \<and>
          ram_view (fold undo_ram R (l_ram l)) = ram_view (l_ram l0))"

definition journaled :: "('s \<Rightarrow> bytes) \<Rightarrow> ('s \<Rightarrow> bool) \<Rightarrow> (bytes \<Rightarrow> bytes) \<Rightarrow> ('s Ledger, 'a) prog \<Rightarrow> bool" where
  "journaled contents ok H m \<longleftrightarrow>
     (\<forall>l0 l. since contents ok H l0 l \<longrightarrow> since contents ok H l0 (snd (m l)))"

definition led_eq :: "('s \<Rightarrow> bytes) \<Rightarrow> 's Ledger \<Rightarrow> 's Ledger \<Rightarrow> bool" where
  "led_eq contents l l' \<longleftrightarrow>
     contents (fst (jst l)) = contents (fst (jst l')) \<and> snd (jst l) = snd (jst l') \<and>
     l_drive l = l_drive l' \<and> ram_view (l_ram l) = ram_view (l_ram l') \<and>
     facades (l_ram l) = facades (l_ram l')"

named_theorems journaled_intros \<open>programs that keep the journal\<close>

lemma since_refl: "ledger_inv contents ok H l \<Longrightarrow> since contents ok H l l"
  unfolding since_def jok_def by (auto simp: ledger_inv_def intro!: exI [of _ "[]"])

lemma journaledD: "journaled contents ok H m \<Longrightarrow> since contents ok H l0 l \<Longrightarrow> m l = (r, l') \<Longrightarrow> since contents ok H l0 l'"
  unfolding journaled_def by (metis snd_conv)

lemma journaled_ret [journaled_intros]: "journaled contents ok H (ret a)"
  by (simp add: journaled_def)

lemma journaled_raise [journaled_intros]: "journaled contents ok H (raise e)"
  by (simp add: journaled_def)

lemma journaled_lift [journaled_intros]: "journaled contents ok H (lift r)"
  by (simp add: journaled_def)

lemma journaled_gets [journaled_intros]: "journaled contents ok H (gets f)"
  by (simp add: journaled_def)

lemma journaled_bnd [journaled_intros]:
  assumes m: "journaled contents ok H m" and f: "\<And>a. journaled contents ok H (f a)"
  shows "journaled contents ok H (bnd m f)"
  unfolding journaled_def
proof (intro allI impI)
  fix l0 l
  assume s: "since contents ok H l0 l"
  obtain r l' where m': "m l = (r, l')" by (cases "m l")
  then have s': "since contents ok H l0 l'" by (rule journaledD [OF m s])
  with f m' show "since contents ok H l0 (snd (bnd m f l))"
    by (cases r) (auto simp: journaled_def)
qed

lemma journaled_try_catch [journaled_intros]:
  assumes m: "journaled contents ok H m" and h: "\<And>e. journaled contents ok H (h e)"
  shows "journaled contents ok H (try_catch m h)"
  unfolding journaled_def
proof (intro allI impI)
  fix l0 l
  assume s: "since contents ok H l0 l"
  obtain r l' where m': "m l = (r, l')" by (cases "m l")
  then have s': "since contents ok H l0 l'" by (rule journaledD [OF m s])
  with h m' show "since contents ok H l0 (snd (try_catch m h l))"
    by (cases r) (auto simp: journaled_def try_catch_def)
qed

lemma journaled_if [journaled_intros]:
  "(b \<Longrightarrow> journaled contents ok H m) \<Longrightarrow> (\<not> b \<Longrightarrow> journaled contents ok H m') \<Longrightarrow>
    journaled contents ok H (if b then m else m')"
  by simp

section \<open>RAM operations\<close>

lemma not_write: "\<not> is_write u \<Longrightarrow> undo_byte u b = b" "\<not> is_write u \<Longrightarrow> in_image n u"
  by (cases u; simp)+

lemma jok_note:
  assumes "\<not> is_write u" and "jok contents ok bs0 log0 R j"
  shows "jok contents ok bs0 log0 (u # R) (fst j, u # snd j)"
proof -
  obtain k where "snd j = k @ log0" "filter (\<lambda>u. \<not> is_write u) k = R"
      "\<forall>u\<in>set k. in_image (length (contents (fst j))) u" "fold undo_byte k (contents (fst j)) = bs0"
    using assms(2) by (auto simp: jok_def)
  then show ?thesis
    using assms by (auto simp: jok_def not_write intro!: exI [of _ "u # k"])
qed

lemma journaled_ram:
  assumes "\<And>r. \<not> is_write (U (before r))"
    and "\<And>r. ram_view (undo_ram (U (before r)) (f (before r) r)) = ram_view r"
    and "\<And>r. facades (f (before r) r) = facades r"
  shows "journaled contents ok H
    (bnd (gets (\<lambda>l. before (l_ram l))) (\<lambda>b. bnd (journal_note (U b)) (\<lambda>_. map_ram (f b))))"
  unfolding journaled_def
proof (intro allI impI)
  fix l0 l
  assume s: "since contents ok H l0 l"
  then obtain R where R: "jok contents ok (contents (fst (jst l0))) (snd (jst l0)) R (jst l)"
      "ram_view (fold undo_ram R (l_ram l)) = ram_view (l_ram l0)" by (auto simp: since_def)
  let ?u = "U (before (l_ram l))" and ?r = "f (before (l_ram l)) (l_ram l)"
  let ?l = "l\<lparr>jst := (fst (jst l), ?u # snd (jst l)), l_ram := ?r\<rparr>"
  have "jok contents ok (contents (fst (jst l0))) (snd (jst l0)) (?u # R) (jst ?l)"
    using R(1) jok_note [OF assms(1)] by simp
  moreover have "ram_view (fold undo_ram (?u # R) ?r) = ram_view (l_ram l0)"
    using fold_undo_ram_view [OF assms(2), of R "l_ram l"] R(2) by simp
  ultimately have "since contents ok H l0 ?l"
    using s assms(3) by (auto simp: since_def ledger_inv_def)
  then show "since contents ok H l0
      (snd (bnd (gets (\<lambda>l. before (l_ram l))) (\<lambda>b. bnd (journal_note (U b)) (\<lambda>_. map_ram (f b))) l))"
    by (simp add: journal_note_def map_ram_def)
qed

lemma delete_update_absent: "k \<notin> fst ` set al \<Longrightarrow> AList.delete k (AList.update k v al) = al"
  by (induction al) (auto simp: AList.delete_eq)

lemma update_update_present: "map_of al k = Some v \<Longrightarrow> AList.update k v (AList.update k w al) = al"
  by (induction al) (auto split: if_splits)

lemma restore_portal_update: "restore_portal (AList.update k v ps) k (map_of ps k) = ps"
proof (cases "map_of ps k")
  case None
  then have "k \<notin> fst ` set ps" by (simp add: map_of_eq_None_iff)
  with None show ?thesis by (simp add: restore_portal_def delete_update_absent)
next
  case (Some w)
  show ?thesis unfolding restore_portal_def Some option.case by (rule update_update_present [OF Some])
qed

lemma setMetadata_journaled [journaled_intros]: "journaled contents ok H (setMetadata tid m)"
  unfolding setMetadata_def
  by (rule journaled_ram) (auto simp: ram_view_eq restore_def totalSupply_def)

lemma addTotal_journaled [journaled_intros]: "journaled contents ok H (addTotal tid delta)"
  unfolding addTotal_def
  by (rule journaled_ram) (auto simp: ram_view_eq totalSupply_def)

lemma registerPortal_journaled [journaled_intros]: "journaled contents ok H (registerPortal p kind)"
  unfolding registerPortal_def
  by (rule journaled_ram) (auto simp: ram_view_eq restore_portal_update totalSupply_def)

lemma setFee_journaled [journaled_intros]: "journaled contents ok H (setFee v)"
  unfolding setFee_def comp_def
  by (rule journaled_ram) (auto simp: ram_view_eq totalSupply_def)

lemma registerCrossDomain_journaled [journaled_intros]: "journaled contents ok H (registerCrossDomain c)"
  unfolding registerCrossDomain_def comp_def
  by (rule journaled_ram) (auto simp: ram_view_eq totalSupply_def)

lemma setMessageStatus_journaled [journaled_intros]: "journaled contents ok H (setMessageStatus hash st)"
  unfolding setMessageStatus_def
  by (rule journaled_ram) (auto simp: ram_view_eq restore_def totalSupply_def)

lemma nextMessageNonce_journaled [journaled_intros]: "journaled contents ok H nextMessageNonce"
  for contents :: "'s \<Rightarrow> bytes"
proof -
  have eq: "(nextMessageNonce :: ('s Ledger, nat) prog) = bnd (bnd (gets (\<lambda>l. msgNonce (l_ram l))) (\<lambda>n. bnd (journal_note (UMsgNonce n))
      (\<lambda>_. map_ram (\<lambda>r. r\<lparr>msgNonce := n + 1\<rparr>)))) (\<lambda>_. gets (\<lambda>l. msgNonce (l_ram l) - 1))"
    by (simp add: fun_eq_iff nextMessageNonce_def journal_note_def map_ram_def)
  have "journaled contents ok H (bnd (gets (\<lambda>l. msgNonce (l_ram l))) (\<lambda>n. bnd (journal_note (UMsgNonce n))
      (\<lambda>_. map_ram (\<lambda>r. r\<lparr>msgNonce := n + 1\<rparr>))))"
    by (rule journaled_ram) (auto simp: ram_view_eq totalSupply_def)
  then show ?thesis unfolding eq by (rule journaled_bnd) (rule journaled_gets)
qed

section \<open>Drive operations over the journaled store\<close>

lemma facades_from_snoc:
  "facades_from H (ks @ [k]) i m = (facades_from H ks i m)(l2TokenAddress H (tok_address k) \<mapsto> i + length ks)"
  by (induction ks arbitrary: i m) auto

context byte_store
begin

lemma journaled_byte_store: "byte_store (JournaledStore S) (contents \<circ> fst) (jok contents ok bs0 log0 R)"
proof
  fix j off n
  assume "jok contents ok bs0 log0 R j" and "off + n \<le> length ((contents \<circ> fst) j)"
  then show "readAt (JournaledStore S) (int off) (int n) j = (Ok (slice ((contents \<circ> fst) j) off n), j)"
    using read [of "fst j" off n]
    by (cases j) (simp add: JournaledStore_def JournaledStore_readAt_def jok_def on_store_run)
next
  fix j off and bs :: bytes
  assume j: "jok contents ok bs0 log0 R j" and fit: "off + length bs \<le> length ((contents \<circ> fst) j)"
  obtain s log where sl: "j = (s, log)" by (cases j)
  have ok: "ok s" and fit': "off + length bs \<le> length (contents s)" using j fit sl by (simp_all add: jok_def)
  let ?before = "slice (contents s) off (length bs)" and ?s = "written S s off bs"
  have run: "writeAt (JournaledStore S) (int off) bs j = (Ok (), (?s, UWrite (int off) ?before # log))"
    using read [OF ok fit'] write_runs [OF ok fit'] sl
    by (simp add: JournaledStore_def JournaledStore_writeAt_def on_store_run)
  then show "fst (writeAt (JournaledStore S) (int off) bs j) = Ok ()" by simp
  have w: "written (JournaledStore S) j off bs = (?s, UWrite (int off) ?before # log)"
    using run by (simp add: written_def)
  then show "(contents \<circ> fst) (written (JournaledStore S) j off bs) = splice ((contents \<circ> fst) j) off bs"
    using write_contents [OF ok fit'] sl by simp
  obtain k where k: "log = k @ log0" "filter (\<lambda>u. \<not> is_write u) k = R"
      "\<forall>u\<in>set k. in_image (length (contents s)) u" "fold undo_byte k (contents s) = bs0"
    using j sl by (auto simp: jok_def)
  have "splice (contents ?s) off ?before = contents s"
    using write_contents [OF ok fit'] splice_undo [OF fit'] by simp
  then show "jok contents ok bs0 log0 R (written (JournaledStore S) j off bs)"
    unfolding w jok_def using k fit' write_contents [OF ok fit'] write_keeps [OF ok fit']
    by (auto intro!: exI [of _ "UWrite (int off) ?before # k"])
qed

lemma journaled_drive:
  assumes ref: "\<And>bs0 log0 R. drive_refines (contents \<circ> fst) (jok contents ok bs0 log0 R) H m sp"
    and toks: "\<And>c a. a_toks (snd (sp c a)) = a_toks a"
  shows "journaled contents ok H (on_led_drive m)"
  unfolding journaled_def
proof (intro allI impI)
  fix l0 l
  assume s: "since contents ok H l0 l"
  let ?bs0 = "contents (fst (jst l0))" and ?log0 = "snd (jst l0)"
  from s obtain R where R: "jok contents ok ?bs0 ?log0 R (jst l)"
      "ram_view (fold undo_ram R (l_ram l)) = ram_view (l_ram l0)" by (auto simp: since_def)
  have inv: "drive_inv H ((contents \<circ> fst) (jst l)) (l_drive l)" using s by (simp add: since_def ledger_inv_def)
  from drive_refinesE [OF ref R(1) inv] obtain r j' d' where m: "m (jst l, l_drive l) = (r, (j', d'))"
      "jok contents ok ?bs0 ?log0 R j'" "drive_inv H ((contents \<circ> fst) j') d'" "d_cfg d' = d_cfg (l_drive l)"
      "sp (d_cfg (l_drive l)) (abs_drive (l_drive l) ((contents \<circ> fst) (jst l))) = (r, abs_drive d' ((contents \<circ> fst) j'))"
    by blast
  have "a_toks (abs_drive d' ((contents \<circ> fst) j')) = a_toks (abs_drive (l_drive l) ((contents \<circ> fst) (jst l)))"
    using toks m(5) by (metis snd_conv)
  then have "d_tokens d' = d_tokens (l_drive l)" by (simp add: abs_drive_def)
  then have "since contents ok H l0 (l\<lparr>jst := j', l_drive := d'\<rparr>)"
    using s R(2) m by (auto simp: since_def ledger_inv_def jok_def)
  then show "since contents ok H l0 (snd (on_led_drive m l))"
    using m(1) by (simp add: on_led_drive_def zoom_run)
qed

lemma account_journaled [journaled_intros]:
  assumes "keccak_digest H" and "length addr = 20"
  shows "journaled contents ok H (account H S addr)"
  unfolding account_def
  by (intro journaled_bnd journaled_ret journaled_drive [OF byte_store.getAccount_refines [OF journaled_byte_store assms]])
    (simp add: spec_getAccount_def)

lemma led_setAccount_journaled [journaled_intros]:
  assumes "keccak_digest H" and "length addr = 20"
  shows "journaled contents ok H (led_setAccount H S addr n b)"
  unfolding led_setAccount_def
  by (intro journaled_drive [OF byte_store.setAccount_refines [OF journaled_byte_store assms]])
    (simp add: spec_setAccount_def)

lemma tokenBalance_journaled [journaled_intros]:
  assumes "keccak_digest H" and "length addr = 20"
  shows "journaled contents ok H (tokenBalance H S addr tid)"
  unfolding tokenBalance_def
  by (intro journaled_bnd journaled_ret journaled_drive [OF byte_store.getTokenBalance_refines [OF journaled_byte_store assms]])
    (simp add: spec_getTokenBalance_def)

lemma led_setTokenBalance_journaled [journaled_intros]:
  assumes "keccak_digest H" and "length addr = 20"
  shows "journaled contents ok H (led_setTokenBalance H S addr tid v)"
  unfolding led_setTokenBalance_def
  by (intro journaled_drive [OF byte_store.setTokenBalance_refines [OF journaled_byte_store assms]])
    (simp add: spec_setTokenBalance_def Let_def)

lemma tokenByL1Address_journaled [journaled_intros]: "journaled contents ok H (tokenByL1Address a)"
proof -
  have "snd (tokenByL1Address a l) = l" for l :: "'a Ledger"
    by (cases "toAddress (ABytes a)")
      (simp_all add: tokenByL1Address_def on_led_drive_def zoom_def tokenByAddress_def bnd_def lift_def gets_def ret_def)
  then show ?thesis by (simp add: journaled_def)
qed

lemma creditEther_journaled [journaled_intros]:
  "keccak_digest H \<Longrightarrow> length addr = 20 \<Longrightarrow> journaled contents ok H (creditEther H S addr amount)"
  unfolding creditEther_def by (auto intro!: journaled_intros split: prod.split)

lemma debitEther_journaled [journaled_intros]:
  "keccak_digest H \<Longrightarrow> length addr = 20 \<Longrightarrow> journaled contents ok H (debitEther H S addr amount)"
  unfolding debitEther_def by (auto intro!: journaled_intros split: prod.split)

lemma bumpNonceAndCharge_journaled [journaled_intros]:
  "keccak_digest H \<Longrightarrow> length addr = 20 \<Longrightarrow> journaled contents ok H (bumpNonceAndCharge H S addr charge)"
  unfolding bumpNonceAndCharge_def by (auto intro!: journaled_intros split: prod.split)

lemma creditToken_journaled [journaled_intros]:
  "keccak_digest H \<Longrightarrow> length addr = 20 \<Longrightarrow> journaled contents ok H (creditToken H S addr tid amount)"
  unfolding creditToken_def by (auto intro!: journaled_intros)

lemma debitToken_journaled [journaled_intros]:
  "keccak_digest H \<Longrightarrow> length addr = 20 \<Longrightarrow> journaled contents ok H (debitToken H S addr tid amount)"
  unfolding debitToken_def by (auto intro!: journaled_intros)

text \<open>A token and its facade: the registration is journaled by the store, the facade by a note of its own.\<close>

lemma register_facade_journaled:
  assumes addr: "length addr = 20"
  shows "journaled contents ok H (bnd (on_led_drive (registerToken (JournaledStore S) (ABytes addr) 32)) (\<lambda>tid.
       bnd (map_ram (\<lambda>r. r\<lparr>facades := (facades r)(l2TokenAddress H addr \<mapsto> tid)\<rparr>)) (\<lambda>_.
       bnd (journal_note (UFacade (l2TokenAddress H addr))) (\<lambda>_. ret tid))))" (is "journaled contents ok H ?reg")
  unfolding journaled_def
proof (intro allI impI)
  fix l0 l
  assume s: "since contents ok H l0 l"
  let ?bs0 = "contents (fst (jst l0))" and ?log0 = "snd (jst l0)" and ?cur = "(contents \<circ> fst) (jst l)"
  from s obtain R where R: "jok contents ok ?bs0 ?log0 R (jst l)"
      "ram_view (fold undo_ram R (l_ram l)) = ram_view (l_ram l0)" by (auto simp: since_def)
  have inv: "drive_inv H ?cur (l_drive l)" using s by (simp add: since_def ledger_inv_def)
  from drive_refinesE [OF byte_store.registerToken_refines [OF journaled_byte_store addr] R(1) inv, of 32]
  obtain r j' d' where m: "registerToken (JournaledStore S) (ABytes addr) 32 (jst l, l_drive l) = (r, (j', d'))"
      "jok contents ok ?bs0 ?log0 R j'" "drive_inv H ((contents \<circ> fst) j') d'" "d_cfg d' = d_cfg (l_drive l)"
      "spec_registerToken (d_cfg (l_drive l)) addr 32 (abs_drive (l_drive l) ?cur) = (r, abs_drive d' ((contents \<circ> fst) j'))"
    by blast
  note run = on_led_drive_def zoom_run map_ram_def journal_note_def
  have toks: "d_tokens d' = a_toks (snd (spec_registerToken (d_cfg (l_drive l)) addr 32 (abs_drive (l_drive l) ?cur)))"
    using m(5) by (simp add: abs_drive_def)
  show "since contents ok H l0 (snd (?reg l))"
  proof (cases "\<exists>tid. r = Ok tid")
    case True
    then obtain tid where Ok: "r = Ok tid" by blast
    then have t: "d_tokens d' = d_tokens (l_drive l) @ [\<lparr>tok_address = addr, tok_width = 32\<rparr>]"
        "tid = length (d_tokens (l_drive l))"
      using m(5) toks by (auto simp: spec_registerToken_def abs_drive_def split: res.splits)
    let ?l = "l\<lparr>jst := (fst j', UFacade (l2TokenAddress H addr) # snd j'), l_drive := d',
        l_ram := (l_ram l)\<lparr>facades := (facades (l_ram l))(l2TokenAddress H addr \<mapsto> tid)\<rparr>\<rparr>"
    have "jok contents ok ?bs0 ?log0 (UFacade (l2TokenAddress H addr) # R) (jst ?l)"
      using jok_note [OF _ m(2)] by simp
    moreover have "ram_view (undo_ram (UFacade (l2TokenAddress H addr)) (l_ram ?l)) = ram_view (l_ram l)"
      by (simp add: ram_view_eq totalSupply_def)
    from fold_undo_ram_view [OF this, of R] R(2)
    have "ram_view (fold undo_ram (UFacade (l2TokenAddress H addr) # R) (l_ram ?l)) = ram_view (l_ram l0)" by simp
    ultimately have "since contents ok H l0 ?l"
      using s m t by (auto simp: since_def ledger_inv_def jok_def facades_from_snoc)
    moreover have "snd (?reg l) = ?l" using m(1) Ok by (simp add: run)
    ultimately show ?thesis by simp
  next
    case False
    then have "d_tokens d' = d_tokens (l_drive l)"
      using m(5) toks by (auto simp: spec_registerToken_def abs_drive_def split: res.splits)
    then have "since contents ok H l0 (l\<lparr>jst := j', l_drive := d'\<rparr>)"
      using s R(2) m by (auto simp: since_def ledger_inv_def jok_def)
    then show ?thesis using m(1) False by (cases r) (simp_all add: run)
  qed
qed

lemma led_registerToken_journaled [journaled_intros]:
  assumes "length addr = 20"
  shows "journaled contents ok H (led_registerToken H S addr md)"
proof -
  have "led_registerToken H S addr md =
      bnd (bnd (on_led_drive (registerToken (JournaledStore S) (ABytes addr) 32)) (\<lambda>tid.
        bnd (map_ram (\<lambda>r. r\<lparr>facades := (facades r)(l2TokenAddress H addr \<mapsto> tid)\<rparr>)) (\<lambda>_.
        bnd (journal_note (UFacade (l2TokenAddress H addr))) (\<lambda>_. ret tid))))
      (\<lambda>tid. bnd (case md of None \<Rightarrow> ret () | Some m \<Rightarrow> setMetadata tid m) (\<lambda>_. ret (tid, l2TokenAddress H addr)))"
    by (simp add: led_registerToken_def bnd_assoc Let_def)
  then show ?thesis
    by (simp only:, intro journaled_bnd register_facade_journaled [OF assms])
      (auto intro!: journaled_intros split: option.split)
qed

section \<open>Rolling back\<close>

lemma run_undo_runs:
  assumes "ok (fst (jst l))" and "in_image (length (contents (fst (jst l)))) u"
  obtains s' where "run_undo S u l = (Ok (), l\<lparr>jst := (s', snd (jst l)), l_ram := undo_ram u (l_ram l)\<rparr>)"
    and "ok s'" and "contents s' = undo_byte u (contents (fst (jst l)))"
    and "length (contents s') = length (contents (fst (jst l)))"
proof (cases "is_write u")
  case True
  then obtain off before where u: "u = UWrite off before" by (cases u) auto
  let ?s = "fst (jst l)"
  have fit: "nat off + length before \<le> length (contents ?s)" and off: "off = int (nat off)"
    using assms(2) u by auto
  show ?thesis
  proof (rule that)
    show "run_undo S u l = (Ok (), l\<lparr>jst := (written S ?s (nat off) before, snd (jst l)), l_ram := undo_ram u (l_ram l)\<rparr>)"
      using write_runs [OF assms(1) fit] off u by (simp add: run_undo_def zoom_run)
    show "ok (written S ?s (nat off) before)" by (rule write_keeps [OF assms(1) fit])
    show "contents (written S ?s (nat off) before) = undo_byte u (contents ?s)"
      using write_contents [OF assms(1) fit] u by simp
    show "length (contents (written S ?s (nat off) before)) = length (contents ?s)"
      using write_contents [OF assms(1) fit] fit by simp
  qed
next
  case False
  then have "run_undo S u l = (Ok (), l\<lparr>l_ram := undo_ram u (l_ram l)\<rparr>)"
    by (cases u) (simp_all add: run_undo_def map_ram_def)
  with that [of "fst (jst l)"] assms(1) False show ?thesis by (simp add: not_write)
qed

lemma rollback_loop_runs:
  assumes "ok (fst (jst l))" and "snd (jst l) = k @ log0"
    and "\<forall>u\<in>set k. in_image (length (contents (fst (jst l)))) u"
  shows "\<exists>s'. rollback_loop S (length log0) (k @ log0) l =
      (Ok (), l\<lparr>jst := (s', log0), l_ram := fold undo_ram k (l_ram l)\<rparr>) \<and> ok s' \<and>
    contents s' = fold undo_byte k (contents (fst (jst l)))"
  using assms
proof (induction k arbitrary: l)
  case Nil
  then have "l = l\<lparr>jst := (fst (jst l), log0)\<rparr>" by (cases l) auto
  with Nil show ?case by (cases log0) auto
next
  case (Cons u k)
  let ?l = "l\<lparr>jst := (fst (jst l), k @ log0)\<rparr>"
  from run_undo_runs [of ?l u] Cons.prems obtain s' where s':
      "run_undo S u ?l = (Ok (), ?l\<lparr>jst := (s', k @ log0), l_ram := undo_ram u (l_ram l)\<rparr>)"
      "ok s'" "contents s' = undo_byte u (contents (fst (jst l)))" "length (contents s') = length (contents (fst (jst l)))"
    by auto
  from Cons.IH [of "?l\<lparr>jst := (s', k @ log0), l_ram := undo_ram u (l_ram l)\<rparr>"] s' Cons.prems(3)
  obtain s2 where "rollback_loop S (length log0) (k @ log0) (?l\<lparr>jst := (s', k @ log0), l_ram := undo_ram u (l_ram l)\<rparr>) =
      (Ok (), ?l\<lparr>jst := (s2, log0), l_ram := fold undo_ram k (undo_ram u (l_ram l))\<rparr>)" "ok s2"
      "contents s2 = fold undo_byte k (undo_byte u (contents (fst (jst l))))" by auto
  with s' show ?case by auto
qed

lemma rollback_restores:
  assumes "since contents ok H l0 l"
  obtains l' where "bnd (rollbackTo S (mark l0)) (\<lambda>_. afterRollback H S) l = (Ok (), l')"
    and "led_eq contents l0 l'" and "ledger_inv contents ok H l'"
proof -
  let ?s0 = "fst (jst l0)" and ?log0 = "snd (jst l0)" and ?d0 = "l_drive l0"
  from assms obtain k where k: "snd (jst l) = k @ ?log0"
      "\<forall>u\<in>set k. in_image (length (contents (fst (jst l)))) u"
      "fold undo_byte k (contents (fst (jst l))) = contents ?s0"
      "ram_view (fold undo_ram k (l_ram l)) = ram_view (l_ram l0)"
    by (auto simp: since_def jok_def fold_undo_ram_filter)
  have inv0: "drive_inv H (contents ?s0) ?d0" and ok: "ok (fst (jst l))" and c: "d_cfg (l_drive l) = d_cfg ?d0"
    and f0: "facades (l_ram l0) = facades_from H (d_tokens ?d0) 0 Map.empty"
    using assms by (auto simp: since_def ledger_inv_def)
  obtain s' where s': "rollback_loop S (length ?log0) (k @ ?log0) l =
      (Ok (), l\<lparr>jst := (s', ?log0), l_ram := fold undo_ram k (l_ram l)\<rparr>)" "ok s'" "contents s' = contents ?s0"
    using rollback_loop_runs [OF ok k(1,2)] k(3) by auto
  have "jok contents ok (contents s') ?log0 [] (s', ?log0)" using s'(2) by (auto simp: jok_def)
  from byte_store.reloadRegistry_runs [OF journaled_byte_store this, of ?d0 "l_drive l"]
  have re: "reloadRegistry (JournaledStore S) ((s', ?log0), l_drive l) = (Ok (), ((s', ?log0), ?d0))"
    using drive_invD(1,5) [OF inv0] s'(3) c by simp
  let ?l = "l\<lparr>jst := (s', ?log0), l_drive := ?d0,
      l_ram := (fold undo_ram k (l_ram l))\<lparr>facades := facades_from H (d_tokens ?d0) 0 Map.empty\<rparr>\<rparr>"
  show ?thesis
  proof (rule that)
    show "bnd (rollbackTo S (mark l0)) (\<lambda>_. afterRollback H S) l = (Ok (), ?l)"
      using s'(1) k(1) re
      by (simp add: rollbackTo_def mark_def afterRollback_def on_led_drive_def zoom_run rebuildFacades_def map_ram_def)
    show "led_eq contents l0 ?l"
      using s'(3) k(4) f0 by (auto simp: led_eq_def ram_view_eq totalSupply_def)
    show "ledger_inv contents ok H ?l" using s' inv0 by (simp add: ledger_inv_def)
  qed
qed

end

end
