(* ===== verification/Evm.thy ===== *)
theory Evm
  imports Ledger_Journal
begin

text \<open>
  The wire vocabulary (\<^verbatim>\<open>evm-compat/js/src\<close>): contexts, outcomes and emissions, the address map, versioned
  nonces, withdrawal messages, relayed messages and their gas, event logs, inspect envelopes and the
  admission of transactions. A \<^verbatim>\<open>Hex\<close> value is its bytes.

  \<^verbatim>\<open>viem\<close> is not part of this repository: what the code calls of it is the record \<open>Viem\<close>, an argument of
  every definition that uses it. A field returns \<open>Throw\<close> where the library throws.
\<close>

section \<open>The viem interface\<close>

datatype abi =
    VUint nat
  | VNeg nat
  | VAddr bytes
  | VBytes bytes
  | VString string
  | VBool bool
  | VList "abi list"

text \<open>A \<^verbatim>\<open>bigint\<close> handed to an encoder; \<open>VNeg\<close> is a negative one, which decoding never gives.\<close>

definition abi_int :: "int \<Rightarrow> abi" where
  "abi_int i = (if 0 \<le> i then VUint (nat i) else VNeg (nat (- i)))"

record AnyParsedTx =
  tx_type :: "string option"
  tx_from :: "bytes option"
  tx_to :: "bytes option"
  tx_mint :: "nat option"
  tx_value :: "nat option"
  tx_data :: "bytes option"
  tx_chainId :: "nat option"
  tx_nonce :: "nat option"
  tx_r :: "nat option"
  tx_s :: "nat option"

record Viem =
  toFunctionSelector :: "string \<Rightarrow> bytes"
  encodeAbiParameters :: "string \<Rightarrow> abi list \<Rightarrow> bytes res"
  decodeAbiParameters :: "string \<Rightarrow> bytes \<Rightarrow> abi list res"
  decodeFunctionData :: "string list \<Rightarrow> bytes \<Rightarrow> (string \<times> abi list) res"
  encodeFunctionData :: "string list \<Rightarrow> string \<Rightarrow> abi list \<Rightarrow> bytes res"
  encodeFunctionResult :: "string list \<Rightarrow> string \<Rightarrow> abi \<Rightarrow> bytes res"
  encodeErrorResult :: "string \<Rightarrow> bytes"
  toHex32 :: "nat \<Rightarrow> bytes res"
  padHex32 :: "bytes \<Rightarrow> bytes res"
  parseTransaction :: "bytes \<Rightarrow> AnyParsedTx res"
  recoverTransactionAddress :: "bytes \<Rightarrow> bytes res"
  getAddress :: "bytes \<Rightarrow> string"

section \<open>Contexts, outcomes, emissions\<close>

record BlockContext =
  b_chainId :: nat
  b_appContract :: bytes
  b_blockNumber :: nat
  b_timestamp :: nat
  b_prevRandao :: nat
  b_inputIndex :: nat

record TxContext =
  ctx_block :: BlockContext
  ctx_sender :: bytes
  ctx_to :: bytes
  ctx_value :: nat
  ctx_data :: bytes
  ctx_isDeposit :: bool
  ctx_mint :: nat

record CallContext =
  call_sender :: bytes
  call_to :: bytes
  call_value :: nat
  call_data :: bytes

datatype AdvanceOutcome = Accept | Revert bytes | Fail bytes | Reject string

datatype ViewOutcome = Return bytes | VRevert bytes

datatype Emission =
    Notice bytes
  | Voucher bytes nat bytes
  | Report bytes

definition TAG_APP :: byte where "TAG_APP = 0x00"
definition TAG_RETURN :: byte where "TAG_RETURN = 0x01"
definition TAG_REVERT :: byte where "TAG_REVERT = 0x02"
definition TAG_FAIL :: byte where "TAG_FAIL = 0x03"

section \<open>Addresses\<close>

definition REGISTRY_ADDRESS :: bytes where "REGISTRY_ADDRESS = [0xc7, 0x51] @ zeros 18"
definition BRIDGE_ADDRESS :: bytes where "BRIDGE_ADDRESS = [0xc7, 0x51] @ zeros 17 @ [0x01]"
definition CONFIG_ADDRESS :: bytes where "CONFIG_ADDRESS = [0xc7, 0x51] @ zeros 17 @ [0x02]"
definition L1BLOCK_ADDRESS :: bytes where "L1BLOCK_ADDRESS = [0x42] @ zeros 18 @ [0x15]"
definition L2_MESSENGER_ADDRESS :: bytes where "L2_MESSENGER_ADDRESS = [0x42] @ zeros 18 @ [0x07]"
definition L2_BRIDGE_ADDRESS :: bytes where "L2_BRIDGE_ADDRESS = [0x42] @ zeros 18 @ [0x10]"
definition MESSAGE_PASSER_ADDRESS :: bytes where "MESSAGE_PASSER_ADDRESS = [0x42] @ zeros 18 @ [0x16]"
definition ZERO_ADDRESS :: bytes where "ZERO_ADDRESS = zeros 20"

lemmas address_defs = REGISTRY_ADDRESS_def BRIDGE_ADDRESS_def CONFIG_ADDRESS_def L1BLOCK_ADDRESS_def
  L2_MESSENGER_ADDRESS_def L2_BRIDGE_ADDRESS_def MESSAGE_PASSER_ADDRESS_def ZERO_ADDRESS_def

definition ALIAS_OFFSET :: nat where
  "ALIAS_OFFSET = 0x1111000000000000000000000000000000001111"

definition applyL1ToL2Alias :: "bytes \<Rightarrow> bytes" where
  "applyL1ToL2Alias l1 =
     (let aliased = (readBE l1 + ALIAS_OFFSET) mod push_bit 160 1 in
      hex_pairs (padStart 40 (CHR ''0'') (to_base 16 aliased)))"

text \<open>The string forms the source compares: lower-casing makes equality that of the bytes.\<close>

definition sameAddress :: "string \<Rightarrow> string \<Rightarrow> bool" where
  "sameAddress a b \<longleftrightarrow> toLowerCase a = toLowerCase b"

definition addrKey :: "string \<Rightarrow> string" where
  "addrKey a = ''0x'' @ toLowerCase (drop 2 a)"

section \<open>Nonces and gas\<close>

definition encodeVersionedNonce :: "nat \<Rightarrow> nat \<Rightarrow> nat" where
  "encodeVersionedNonce nonce version = push_bit 240 version OR nonce"

definition decodeVersionedNonce :: "nat \<Rightarrow> nat \<times> nat" where
  "decodeVersionedNonce nonce = (nonce AND (push_bit 240 1 - 1), drop_bit 240 nonce)"

definition versionedWithdrawalNonce :: "nat \<Rightarrow> nat \<Rightarrow> nat res" where
  "versionedWithdrawalNonce inputIndex ordinal =
     (if ordinal \<ge> push_bit 32 1 then Throw (Error ''too many withdrawals in one input'')
      else Ok ((push_bit 240 1 OR push_bit 32 inputIndex) OR ordinal))"

definition RELAY_CONSTANT_OVERHEAD :: nat where "RELAY_CONSTANT_OVERHEAD = 200000"
definition RELAY_CALL_OVERHEAD :: nat where "RELAY_CALL_OVERHEAD = 40000"
definition RELAY_RESERVED_GAS :: nat where "RELAY_RESERVED_GAS = 40000"
definition RELAY_GAS_CHECK_BUFFER :: nat where "RELAY_GAS_CHECK_BUFFER = 5000"
definition MIN_GAS_DYNAMIC_OVERHEAD_NUMERATOR :: nat where "MIN_GAS_DYNAMIC_OVERHEAD_NUMERATOR = 64"
definition MIN_GAS_DYNAMIC_OVERHEAD_DENOMINATOR :: nat where "MIN_GAS_DYNAMIC_OVERHEAD_DENOMINATOR = 63"
definition MIN_GAS_CALLDATA_OVERHEAD :: nat where "MIN_GAS_CALLDATA_OVERHEAD = 16"
definition FLOOR_CALLDATA_OVERHEAD :: nat where "FLOOR_CALLDATA_OVERHEAD = 40"
definition ENCODING_OVERHEAD :: nat where "ENCODING_OVERHEAD = 260"
definition TX_BASE_GAS :: nat where "TX_BASE_GAS = 21000"

lemmas gas_defs = RELAY_CONSTANT_OVERHEAD_def RELAY_CALL_OVERHEAD_def RELAY_RESERVED_GAS_def
  RELAY_GAS_CHECK_BUFFER_def MIN_GAS_DYNAMIC_OVERHEAD_NUMERATOR_def MIN_GAS_DYNAMIC_OVERHEAD_DENOMINATOR_def
  MIN_GAS_CALLDATA_OVERHEAD_def FLOOR_CALLDATA_OVERHEAD_def ENCODING_OVERHEAD_def TX_BASE_GAS_def

definition baseGas :: "nat \<Rightarrow> nat \<Rightarrow> nat" where
  "baseGas messageLength minGasLimit = (
     let executionGas = RELAY_CONSTANT_OVERHEAD + RELAY_CALL_OVERHEAD + RELAY_RESERVED_GAS + RELAY_GAS_CHECK_BUFFER
           + (minGasLimit * MIN_GAS_DYNAMIC_OVERHEAD_NUMERATOR) div MIN_GAS_DYNAMIC_OVERHEAD_DENOMINATOR;
         totalMessageSize = messageLength + ENCODING_OVERHEAD;
         withCalldata = executionGas + totalMessageSize * MIN_GAS_CALLDATA_OVERHEAD;
         floor = totalMessageSize * FLOOR_CALLDATA_OVERHEAD
     in TX_BASE_GAS + (if withCalldata > floor then withCalldata else floor))"

section \<open>Messages\<close>

record CrossDomainMessage =
  m_nonce :: nat
  m_sender :: bytes
  m_target :: bytes
  m_value :: nat
  m_minGasLimit :: nat
  m_message :: bytes

definition RELAY_MESSAGE_SELECTOR :: "Viem \<Rightarrow> bytes" where
  "RELAY_MESSAGE_SELECTOR V = toFunctionSelector V ''relayMessage(uint256,address,address,uint256,uint256,bytes)''"

definition RELAY_MESSAGE_PARAMS :: string where
  "RELAY_MESSAGE_PARAMS = ''uint256 nonce, address sender, address target, uint256 value, uint256 minGasLimit, bytes message''"

definition encodeRelayMessage :: "Viem \<Rightarrow> CrossDomainMessage \<Rightarrow> bytes res" where
  "encodeRelayMessage V m =
     rbind (encodeAbiParameters V RELAY_MESSAGE_PARAMS
         [VUint (m_nonce m), VAddr (m_sender m), VAddr (m_target m), VUint (m_value m), VUint (m_minGasLimit m),
          VBytes (m_message m)])
       (\<lambda>body. Ok (RELAY_MESSAGE_SELECTOR V @ body))"

definition starts_with :: "bytes \<Rightarrow> bytes \<Rightarrow> bool" where
  "starts_with p bs \<longleftrightarrow> take (length p) bs = p"

definition decodeRelayMessage :: "Viem \<Rightarrow> bytes \<Rightarrow> CrossDomainMessage option" where
  "decodeRelayMessage V data =
     (if \<not> starts_with (RELAY_MESSAGE_SELECTOR V) data then None
      else case decodeAbiParameters V RELAY_MESSAGE_PARAMS (drop (length (RELAY_MESSAGE_SELECTOR V)) data) of
        Ok [VUint n, VAddr s, VAddr t, VUint v, VUint g, VBytes b] \<Rightarrow>
          Some \<lparr>m_nonce = n, m_sender = s, m_target = t, m_value = v, m_minGasLimit = g, m_message = b\<rparr>
      | _ \<Rightarrow> None)"

definition hashCrossDomainMessageV1 :: "(bytes \<Rightarrow> bytes) \<Rightarrow> Viem \<Rightarrow> CrossDomainMessage \<Rightarrow> bytes res" where
  "hashCrossDomainMessageV1 H V m = rbind (encodeRelayMessage V m) (\<lambda>bs. Ok (H bs))"

record WithdrawalMessage =
  w_nonce :: nat
  w_sender :: bytes
  w_target :: bytes
  w_value :: nat
  w_gasLimit :: nat
  w_data :: bytes

definition WITHDRAWAL_SELECTOR :: "Viem \<Rightarrow> bytes" where
  "WITHDRAWAL_SELECTOR V = toFunctionSelector V ''Withdrawal(uint256,address,address,uint256,uint256,bytes)''"

definition WITHDRAWAL_PARAMS :: string where
  "WITHDRAWAL_PARAMS = ''uint256 nonce, address sender, address target, uint256 value, uint256 gasLimit, bytes data''"

definition WITHDRAWAL_DEFAULT_GAS_LIMIT :: nat where "WITHDRAWAL_DEFAULT_GAS_LIMIT = 100000"

definition withdrawal_args :: "WithdrawalMessage \<Rightarrow> abi list" where
  "withdrawal_args w = [VUint (w_nonce w), VAddr (w_sender w), VAddr (w_target w), VUint (w_value w),
     VUint (w_gasLimit w), VBytes (w_data w)]"

definition encodeWithdrawal :: "Viem \<Rightarrow> WithdrawalMessage \<Rightarrow> bytes res" where
  "encodeWithdrawal V w =
     rbind (encodeAbiParameters V WITHDRAWAL_PARAMS (withdrawal_args w)) (\<lambda>body. Ok (WITHDRAWAL_SELECTOR V @ body))"

definition decodeWithdrawal :: "Viem \<Rightarrow> bytes \<Rightarrow> WithdrawalMessage option" where
  "decodeWithdrawal V payload =
     (if \<not> starts_with (WITHDRAWAL_SELECTOR V) payload then None
      else case decodeAbiParameters V WITHDRAWAL_PARAMS (drop (length (WITHDRAWAL_SELECTOR V)) payload) of
        Ok [VUint n, VAddr s, VAddr t, VUint v, VUint g, VBytes b] \<Rightarrow>
          Some \<lparr>w_nonce = n, w_sender = s, w_target = t, w_value = v, w_gasLimit = g, w_data = b\<rparr>
      | _ \<Rightarrow> None)"

definition NOTICE_SELECTOR :: "Viem \<Rightarrow> bytes" where
  "NOTICE_SELECTOR V = toFunctionSelector V ''Notice(bytes)''"

definition decodeWithdrawalOutput :: "Viem \<Rightarrow> bytes \<Rightarrow> WithdrawalMessage option" where
  "decodeWithdrawalOutput V output =
     (if \<not> starts_with (NOTICE_SELECTOR V) output then None
      else case decodeAbiParameters V ''bytes'' (drop (length (NOTICE_SELECTOR V)) output) of
        Ok [VBytes payload] \<Rightarrow> decodeWithdrawal V payload
      | _ \<Rightarrow> None)"

definition withdrawalHash :: "(bytes \<Rightarrow> bytes) \<Rightarrow> Viem \<Rightarrow> WithdrawalMessage \<Rightarrow> bytes res" where
  "withdrawalHash H V w = rbind (encodeAbiParameters V WITHDRAWAL_PARAMS (withdrawal_args w)) (\<lambda>bs. Ok (H bs))"

definition withdrawalSlot :: "(bytes \<Rightarrow> bytes) \<Rightarrow> Viem \<Rightarrow> bytes \<Rightarrow> bytes res" where
  "withdrawalSlot H V hash = rbind (encodeAbiParameters V ''bytes32, uint256'' [VBytes hash, VUint 0]) (\<lambda>bs. Ok (H bs))"

section \<open>Logs\<close>

type_synonym log = "bytes list \<times> bytes"

definition TRANSFER_TOPIC :: "(bytes \<Rightarrow> bytes) \<Rightarrow> bytes" where
  "TRANSFER_TOPIC H = H (ascii ''Transfer(address,address,uint256)'')"

definition MESSAGE_PASSED_TOPIC :: "(bytes \<Rightarrow> bytes) \<Rightarrow> bytes" where
  "MESSAGE_PASSED_TOPIC H = H (ascii ''MessagePassed(uint256,address,address,uint256,uint256,bytes,bytes32)'')"

definition SENT_MESSAGE_TOPIC :: "(bytes \<Rightarrow> bytes) \<Rightarrow> bytes" where
  "SENT_MESSAGE_TOPIC H = H (ascii ''SentMessage(address,address,bytes,uint256,uint256)'')"

definition SENT_MESSAGE_EXTENSION_1_TOPIC :: "(bytes \<Rightarrow> bytes) \<Rightarrow> bytes" where
  "SENT_MESSAGE_EXTENSION_1_TOPIC H = H (ascii ''SentMessageExtension1(address,uint256)'')"

definition RELAYED_MESSAGE_TOPIC :: "(bytes \<Rightarrow> bytes) \<Rightarrow> bytes" where
  "RELAYED_MESSAGE_TOPIC H = H (ascii ''RelayedMessage(bytes32)'')"

definition FAILED_RELAYED_MESSAGE_TOPIC :: "(bytes \<Rightarrow> bytes) \<Rightarrow> bytes" where
  "FAILED_RELAYED_MESSAGE_TOPIC H = H (ascii ''FailedRelayedMessage(bytes32)'')"

definition ERC20_BRIDGE_INITIATED_TOPIC :: "(bytes \<Rightarrow> bytes) \<Rightarrow> bytes" where
  "ERC20_BRIDGE_INITIATED_TOPIC H = H (ascii ''ERC20BridgeInitiated(address,address,address,uint256,bytes)'')"

definition ERC20_BRIDGE_FINALIZED_TOPIC :: "(bytes \<Rightarrow> bytes) \<Rightarrow> bytes" where
  "ERC20_BRIDGE_FINALIZED_TOPIC H = H (ascii ''ERC20BridgeFinalized(address,address,address,uint256,bytes)'')"

definition EVM_LOG_SELECTOR :: "Viem \<Rightarrow> bytes" where
  "EVM_LOG_SELECTOR V = toFunctionSelector V ''EvmLog(address,bytes32[],bytes)''"

definition encodeEvmLog :: "Viem \<Rightarrow> bytes \<Rightarrow> bytes list \<Rightarrow> bytes \<Rightarrow> bytes res" where
  "encodeEvmLog V emitter topics data =
     rbind (encodeAbiParameters V ''address emitter, bytes32[] topics, bytes data''
         [VAddr emitter, VList (map VBytes topics), VBytes data])
       (\<lambda>body. Ok (EVM_LOG_SELECTOR V @ body))"

definition transferLog :: "(bytes \<Rightarrow> bytes) \<Rightarrow> Viem \<Rightarrow> bytes \<Rightarrow> bytes \<Rightarrow> nat \<Rightarrow> log res" where
  "transferLog H V src dst v =
     rbind (padHex32 V src) (\<lambda>f. rbind (padHex32 V dst) (\<lambda>t. rbind (toHex32 V v) (\<lambda>d.
       Ok ([TRANSFER_TOPIC H, f, t], d))))"

definition messagePassedLog :: "(bytes \<Rightarrow> bytes) \<Rightarrow> Viem \<Rightarrow> WithdrawalMessage \<Rightarrow> bytes \<Rightarrow> log res" where
  "messagePassedLog H V w hash =
     rbind (toHex32 V (w_nonce w)) (\<lambda>n.
     rbind (padHex32 V (w_sender w)) (\<lambda>s.
     rbind (padHex32 V (w_target w)) (\<lambda>t.
     rbind (encodeAbiParameters V ''uint256 value, uint256 gasLimit, bytes data, bytes32 withdrawalHash''
         [VUint (w_value w), VUint (w_gasLimit w), VBytes (w_data w), VBytes hash]) (\<lambda>d.
       Ok ([MESSAGE_PASSED_TOPIC H, n, s, t], d)))))"

definition sentMessageLog :: "(bytes \<Rightarrow> bytes) \<Rightarrow> Viem \<Rightarrow> bytes \<Rightarrow> bytes \<Rightarrow> bytes \<Rightarrow> nat \<Rightarrow> nat \<Rightarrow> log res" where
  "sentMessageLog H V target sender message messageNonce gasLimit =
     rbind (padHex32 V target) (\<lambda>t.
     rbind (encodeAbiParameters V ''address sender, bytes message, uint256 messageNonce, uint256 gasLimit''
         [VAddr sender, VBytes message, VUint messageNonce, VUint gasLimit]) (\<lambda>d.
       Ok ([SENT_MESSAGE_TOPIC H, t], d)))"

definition sentMessageExtension1Log :: "(bytes \<Rightarrow> bytes) \<Rightarrow> Viem \<Rightarrow> bytes \<Rightarrow> nat \<Rightarrow> log res" where
  "sentMessageExtension1Log H V sender v =
     rbind (padHex32 V sender) (\<lambda>s. rbind (toHex32 V v) (\<lambda>d.
       Ok ([SENT_MESSAGE_EXTENSION_1_TOPIC H, s], d)))"

definition relayedMessageLog :: "(bytes \<Rightarrow> bytes) \<Rightarrow> bytes \<Rightarrow> bool \<Rightarrow> log" where
  "relayedMessageLog H msgHash isFailed =
     ([if isFailed then FAILED_RELAYED_MESSAGE_TOPIC H else RELAYED_MESSAGE_TOPIC H, msgHash], [])"

definition erc20BridgeLog ::
  "Viem \<Rightarrow> bytes \<Rightarrow> bytes \<Rightarrow> bytes \<Rightarrow> bytes \<Rightarrow> bytes \<Rightarrow> nat \<Rightarrow> bytes \<Rightarrow> log res" where
  "erc20BridgeLog V topic localToken remoteToken src dst amount extraData =
     rbind (padHex32 V localToken) (\<lambda>a. rbind (padHex32 V remoteToken) (\<lambda>b. rbind (padHex32 V src) (\<lambda>c.
     rbind (encodeAbiParameters V ''address to, uint256 amount, bytes extraData''
         [VAddr dst, VUint amount, VBytes extraData]) (\<lambda>d.
       Ok ([topic, a, b, c], d)))))"

section \<open>Calls\<close>

definition errorRevert :: "Viem \<Rightarrow> string \<Rightarrow> bytes" where
  "errorRevert V message = encodeErrorResult V message"

definition tryDecodeCalldata :: "Viem \<Rightarrow> string list \<Rightarrow> bytes \<Rightarrow> (string \<times> abi list) option" where
  "tryDecodeCalldata V fns data = (case decodeFunctionData V fns data of Ok r \<Rightarrow> Some r | _ \<Rightarrow> None)"

record DecodedCall =
  dc_simulate :: bool
  dc_chainId :: nat
  dc_from :: bytes
  dc_to :: bytes
  dc_value :: nat
  dc_data :: bytes

definition EVM_CALL_SELECTOR :: "Viem \<Rightarrow> bytes" where
  "EVM_CALL_SELECTOR V = toFunctionSelector V ''EvmCall(uint256,address,address,uint256,bytes)''"

definition EVM_SIMULATE_SELECTOR :: "Viem \<Rightarrow> bytes" where
  "EVM_SIMULATE_SELECTOR V = toFunctionSelector V ''EvmSimulate(uint256,address,address,uint256,bytes)''"

definition CALL_PARAMS :: string where
  "CALL_PARAMS = ''uint256 chainId, address from, address to, uint256 value, bytes data''"

definition decodeEvmCall :: "Viem \<Rightarrow> bytes \<Rightarrow> DecodedCall option" where
  "decodeEvmCall V payload =
     (if length payload < 4 then None
      else let selector = slice payload 0 4; simulate = (selector = EVM_SIMULATE_SELECTOR V) in
      if \<not> simulate \<and> selector \<noteq> EVM_CALL_SELECTOR V then None
      else case decodeAbiParameters V CALL_PARAMS (drop 4 payload) of
        Ok [VUint chainId, VAddr src, VAddr dst, VUint v, VBytes data] \<Rightarrow>
          Some \<lparr>dc_simulate = simulate, dc_chainId = chainId, dc_from = src, dc_to = dst, dc_value = v, dc_data = data\<rparr>
      | _ \<Rightarrow> None)"

definition encodeEvmCall :: "Viem \<Rightarrow> DecodedCall \<Rightarrow> bytes res" where
  "encodeEvmCall V c =
     rbind (encodeAbiParameters V CALL_PARAMS
         [VUint (dc_chainId c), VAddr (dc_from c), VAddr (dc_to c), VUint (dc_value c), VBytes (dc_data c)])
       (\<lambda>body. Ok ((if dc_simulate c then EVM_SIMULATE_SELECTOR V else EVM_CALL_SELECTOR V) @ body))"

section \<open>Transactions\<close>

definition HALF_N :: nat where
  "HALF_N = 0x7fffffffffffffffffffffffffffffff5d576e7357a4501ddfe92f46681b20a0"

record DepositTx =
  dep_from :: bytes
  dep_to :: "bytes option"
  dep_mint :: nat
  dep_value :: nat
  dep_data :: bytes

record SignedTx =
  sg_type :: string
  sg_chainId :: "nat option"
  sg_nonce :: nat
  sg_to :: "bytes option"
  sg_value :: nat
  sg_data :: bytes
  sg_s :: nat
  sg_raw :: bytes

datatype ParsedInput = Deposit DepositTx | Signed SignedTx | Opaque | Refused string

definition or_zero :: "nat option \<Rightarrow> nat" where
  "or_zero x = (case x of None \<Rightarrow> 0 | Some n \<Rightarrow> n)"

definition dataBytes :: "bytes option \<Rightarrow> bytes" where
  "dataBytes d = (case d of None \<Rightarrow> [] | Some b \<Rightarrow> b)"

definition isSerializedTransaction :: "bytes \<Rightarrow> bool" where
  "isSerializedTransaction raw \<longleftrightarrow> raw \<noteq> [] \<and>
     (let first = unat (hd raw) in first \<ge> 0xc0 \<or> (first \<ge> 0x01 \<and> first \<le> 0x04))"

definition type_text :: "string option \<Rightarrow> string" where
  "type_text t = (case t of None \<Rightarrow> ''undefined'' | Some s \<Rightarrow> s)"

definition parseInput :: "Viem \<Rightarrow> bytes \<Rightarrow> ParsedInput" where
  "parseInput V raw = (case parseTransaction V raw of
       Ok tx \<Rightarrow>
         if tx_type tx = Some ''deposit'' then
           (case tx_from tx of
              None \<Rightarrow> Opaque
            | Some src \<Rightarrow> Deposit \<lparr>dep_from = src, dep_to = tx_to tx, dep_mint = or_zero (tx_mint tx),
                dep_value = or_zero (tx_value tx), dep_data = dataBytes (tx_data tx)\<rparr>)
         else if tx_type tx \<noteq> Some ''legacy'' \<and> tx_type tx \<noteq> Some ''eip2930'' \<and> tx_type tx \<noteq> Some ''eip1559'' then
           Refused (''transaction type '' @ type_text (tx_type tx) @ '' not admitted'')
         else if tx_r tx = None \<or> tx_s tx = None then Opaque
         else if \<not> isSerializedTransaction raw then Opaque
         else Signed \<lparr>sg_type = type_text (tx_type tx), sg_chainId = tx_chainId tx, sg_nonce = or_zero (tx_nonce tx),
                sg_to = tx_to tx, sg_value = or_zero (tx_value tx), sg_data = dataBytes (tx_data tx),
                sg_s = the (tx_s tx), sg_raw = raw\<rparr>
     | _ \<Rightarrow> Opaque)"

definition recoverSender :: "Viem \<Rightarrow> SignedTx \<Rightarrow> bytes option" where
  "recoverSender V parsed =
     (if sg_s parsed > HALF_N then None
      else case recoverTransactionAddress V (sg_raw parsed) of Ok a \<Rightarrow> Some a | _ \<Rightarrow> None)"

end
