(* ===== verification/World.thy ===== *)
theory World
  imports Evm
begin

text \<open>
  What a handler runs on. The world holds the ledger, the outputs buffered for the input at hand
  (\<^verbatim>\<open>BufferSink\<close>, \<^verbatim>\<open>app/src/router.ts\<close>), the attributes the \<^verbatim>\<open>L1Block\<close> handler keeps in its own RAM, and the RAM of
  the application's contracts, of any type. Only the ledger is journaled.
\<close>

section \<open>State\<close>

record Sink =
  emissions :: "Emission list"
  withdrawals :: nat
  inputIndex :: nat

record L1Attributes =
  l1_baseFeeScalar :: nat
  l1_blobBaseFeeScalar :: nat
  l1_sequenceNumber :: nat
  l1_timestamp :: nat
  l1_number :: nat
  l1_basefee :: nat
  l1_blobBaseFee :: nat
  l1_hash :: bytes
  l1_batcherHash :: bytes

record ('s, 'r) World =
  w_led :: "'s Ledger"
  w_sink :: Sink
  w_attributes :: "L1Attributes option"
  w_app :: 'r

definition on_led :: "('s Ledger, 'a) prog \<Rightarrow> (('s, 'r) World, 'a) prog" where
  "on_led m = zoom w_led (\<lambda>l w. w\<lparr>w_led := l\<rparr>) m"

definition on_sink :: "(Sink, 'a) prog \<Rightarrow> (('s, 'r) World, 'a) prog" where
  "on_sink m = zoom w_sink (\<lambda>k w. w\<lparr>w_sink := k\<rparr>) m"

definition ram :: "('s, 'r) World \<Rightarrow> Ram" where
  "ram w = l_ram (w_led w)"

section \<open>The outputs buffer\<close>

definition BufferSink :: "nat \<Rightarrow> Sink" where
  "BufferSink idx = \<lparr>emissions = [], withdrawals = 0, inputIndex = idx\<rparr>"

definition push :: "Emission \<Rightarrow> (Sink, unit) prog" where
  "push e = modify (\<lambda>k. k\<lparr>emissions := emissions k @ [e]\<rparr>)"

definition sink_notice :: "bytes \<Rightarrow> (Sink, unit) prog" where
  "sink_notice payload = push (Notice payload)"

definition sink_voucher :: "bytes \<Rightarrow> nat option \<Rightarrow> bytes option \<Rightarrow> (Sink, unit) prog" where
  "sink_voucher destination v payload =
     push (Voucher destination (case v of None \<Rightarrow> 0 | Some n \<Rightarrow> n) (case payload of None \<Rightarrow> [] | Some b \<Rightarrow> b))"

definition sink_report :: "bytes \<Rightarrow> (Sink, unit) prog" where
  "sink_report payload = push (Report (TAG_APP # payload))"

definition sink_log :: "Viem \<Rightarrow> bytes \<Rightarrow> log \<Rightarrow> (Sink, unit) prog" where
  "sink_log V emitter l =
     bnd (lift (encodeEvmLog V emitter (fst l) (snd l))) sink_notice"

definition sink_withdrawal ::
  "(bytes \<Rightarrow> bytes) \<Rightarrow> Viem \<Rightarrow> bytes \<Rightarrow> bytes \<Rightarrow> nat option \<Rightarrow> nat option \<Rightarrow> bytes option \<Rightarrow> (Sink, unit) prog" where
  "sink_withdrawal H V sender target v gasLimit data =
     bnd (gets (\<lambda>k. (inputIndex k, withdrawals k))) (\<lambda>(idx, ordinal).
     bnd (modify (\<lambda>k. k\<lparr>withdrawals := withdrawals k + 1\<rparr>)) (\<lambda>_.
     bnd (lift (versionedWithdrawalNonce idx ordinal)) (\<lambda>nonce.
       let message = \<lparr>w_nonce = nonce, w_sender = sender, w_target = target,
             w_value = (case v of None \<Rightarrow> 0 | Some n \<Rightarrow> n),
             w_gasLimit = (case gasLimit of None \<Rightarrow> WITHDRAWAL_DEFAULT_GAS_LIMIT | Some g \<Rightarrow> g),
             w_data = (case data of None \<Rightarrow> [] | Some b \<Rightarrow> b)\<rparr> in
       bnd (bnd (lift (encodeWithdrawal V message)) sink_notice) (\<lambda>_.
       bnd (lift (withdrawalHash H V message)) (\<lambda>hash.
       bnd (lift (messagePassedLog H V message hash)) (\<lambda>l.
       sink_log V MESSAGE_PASSER_ADDRESS l))))))"

fun is_report :: "Emission \<Rightarrow> bool" where
  "is_report (Report payload) = True"
| "is_report e = False"

definition reportsOnly :: "Sink \<Rightarrow> Emission list" where
  "reportsOnly k = filter is_report (emissions k)"

definition tagged :: "byte \<Rightarrow> bytes \<Rightarrow> bytes" where
  "tagged tag data = tag # data"

text \<open>What handlers call.\<close>

definition out_log :: "Viem \<Rightarrow> bytes \<Rightarrow> log res \<Rightarrow> (('s, 'r) World, unit) prog" where
  "out_log V emitter l = bnd (lift l) (\<lambda>l. on_sink (sink_log V emitter l))"

definition out_voucher :: "bytes \<Rightarrow> bytes \<Rightarrow> (('s, 'r) World, unit) prog" where
  "out_voucher destination payload = on_sink (sink_voucher destination None (Some payload))"

definition out_withdrawal ::
  "(bytes \<Rightarrow> bytes) \<Rightarrow> Viem \<Rightarrow> bytes \<Rightarrow> bytes \<Rightarrow> nat \<Rightarrow> nat option \<Rightarrow> bytes option \<Rightarrow> (('s, 'r) World, unit) prog" where
  "out_withdrawal H V sender target v gasLimit data = on_sink (sink_withdrawal H V sender target (Some v) gasLimit data)"

definition revert :: "Viem \<Rightarrow> string \<Rightarrow> (('s, 'r) World, AdvanceOutcome) prog" where
  "revert V reason = ret (Revert (errorRevert V reason))"

definition view_revert :: "Viem \<Rightarrow> string \<Rightarrow> (('s, 'r) World, ViewOutcome) prog" where
  "view_revert V reason = ret (VRevert (errorRevert V reason))"

definition view_return :: "Viem \<Rightarrow> string list \<Rightarrow> string \<Rightarrow> abi \<Rightarrow> (('s, 'r) World, ViewOutcome) prog" where
  "view_return V abi fn v = bnd (lift (encodeFunctionResult V abi fn v)) (\<lambda>bs. ret (Return bs))"

definition is_InsufficientFunds :: "exn \<Rightarrow> bool" where
  "is_InsufficientFunds e = (case e of InsufficientFunds _ \<Rightarrow> True | _ \<Rightarrow> False)"

end
