(* ===== verification/Handlers.thy ===== *)
theory Handlers
  imports World
begin

text \<open>
  The built-in handlers (\<^verbatim>\<open>app/src/handlers\<close>), one entry point per definition. Calldata is decoded against the ABI
  by \<^verbatim>\<open>viem\<close>; arguments of another shape than the ABI's never come back from it, and fall into the last branch.
\<close>

section \<open>ABIs\<close>

definition bridgeAbi :: "string list" where
  "bridgeAbi =
     [''function withdrawEther(address to) payable'',
      ''function withdrawERC20(address token, address to, uint256 amount)'']"

definition configAbi :: "string list" where
  "configAbi =
     [''function setFee(uint256 fee)'',
      ''function registerPortal(uint8 kind, address portal)'',
      ''function registerMessenger(address l1Messenger, address l1Bridge)'',
      ''function registerToken(address l1Token, uint8 width, string name, string symbol, uint8 decimals)'',
      ''function setTokenMetadata(address l1Token, string name, string symbol, uint8 decimals)'',
      ''function fee() view returns (uint256)'',
      ''function owner() view returns (address)'']"

definition registryAbi :: "string list" where
  "registryAbi =
     [''function handlerAt(address target) view returns (bool routed, bool isPayable)'',
      ''function handlers() view returns (address[])'',
      ''function l2TokenOf(address l1Token) view returns (address)'']"

definition erc20FacadeAbi :: "string list" where
  "erc20FacadeAbi =
     [''function balanceOf(address owner) view returns (uint256)'',
      ''function totalSupply() view returns (uint256)'',
      ''function decimals() view returns (uint8)'',
      ''function name() view returns (string)'',
      ''function symbol() view returns (string)'',
      ''function transfer(address to, uint256 value) returns (bool)'']"

definition messagePasserAbi :: "string list" where
  "messagePasserAbi = [''function initiateWithdrawal(address target, uint256 gasLimit, bytes data) payable'']"

definition l1BlockAbi :: "string list" where
  "l1BlockAbi =
     [''function number() view returns (uint64)'',
      ''function timestamp() view returns (uint64)'',
      ''function basefee() view returns (uint256)'',
      ''function blobBaseFee() view returns (uint256)'',
      ''function hash() view returns (bytes32)'',
      ''function sequenceNumber() view returns (uint64)'',
      ''function batcherHash() view returns (bytes32)'',
      ''function baseFeeScalar() view returns (uint32)'',
      ''function blobBaseFeeScalar() view returns (uint32)'']"

definition l2CrossDomainMessengerAbi :: "string list" where
  "l2CrossDomainMessengerAbi =
     [''function relayMessage(uint256 nonce, address sender, address target, uint256 value, uint256 minGasLimit, bytes message) payable'',
      ''function messageNonce() view returns (uint256)'',
      ''function successfulMessages(bytes32 hash) view returns (bool)'',
      ''function failedMessages(bytes32 hash) view returns (bool)'']"

definition l2StandardBridgeAbi :: "string list" where
  "l2StandardBridgeAbi =
     [''function bridgeERC20(address localToken, address remoteToken, uint256 amount, uint32 minGasLimit, bytes extraData)'',
      ''function bridgeERC20To(address localToken, address remoteToken, address to, uint256 amount, uint32 minGasLimit, bytes extraData)'',
      ''function finalizeBridgeERC20(address localToken, address remoteToken, address from, address to, uint256 amount, bytes extraData)'',
      ''function finalizeBridgeETH(address from, address to, uint256 amount, bytes extraData)'']"

definition erc20TransferAbi :: "string list" where
  "erc20TransferAbi = [''function transfer(address to, uint256 amount) returns (bool)'']"

section \<open>The message passer\<close>

definition passer_advance ::
  "(bytes \<Rightarrow> bytes) \<Rightarrow> 's store \<Rightarrow> Viem \<Rightarrow> TxContext \<Rightarrow> (('s, 'r) World, AdvanceOutcome) prog" where
  "passer_advance H S V ctx =
     (if ctx_data ctx = [] then
        bnd (on_led (debitEther H S (ctx_to ctx) (int (ctx_value ctx)))) (\<lambda>_.
        bnd (out_withdrawal H V (ctx_sender ctx) (ctx_sender ctx) (ctx_value ctx) None None) (\<lambda>_.
        ret Accept))
      else case tryDecodeCalldata V messagePasserAbi (ctx_data ctx) of
        Some (_, [VAddr target, VUint gasLimit, VBytes data]) \<Rightarrow>
          bnd (on_led (debitEther H S (ctx_to ctx) (int (ctx_value ctx)))) (\<lambda>_.
          bnd (out_withdrawal H V (ctx_sender ctx) target (ctx_value ctx) (Some gasLimit) (Some data)) (\<lambda>_.
          ret Accept))
      | _ \<Rightarrow> revert V ''unknown function'')"

section \<open>The registry\<close>

definition registry_view ::
  "(bytes \<Rightarrow> bytes) \<Rightarrow> Viem \<Rightarrow> (bytes \<Rightarrow> 's Ledger \<Rightarrow> bool option) \<Rightarrow> bytes list \<Rightarrow> CallContext \<Rightarrow>
     (('s, 'r) World, ViewOutcome) prog" where
  "registry_view H V look manifestKeys call =
     (case tryDecodeCalldata V registryAbi (call_data call) of
        Some (fn, args) \<Rightarrow>
          if fn = ''handlerAt'' then
            (case args of [VAddr target] \<Rightarrow>
               bnd (gets w_led) (\<lambda>l.
                 let h = (case look target l of Some p \<Rightarrow> Some p
                          | None \<Rightarrow> if tokenByL2Address target l \<noteq> None then Some False else None) in
                 view_return V registryAbi ''handlerAt'' (VList [VBool (h \<noteq> None), VBool (h = Some True)]))
             | _ \<Rightarrow> view_revert V ''unknown function'')
          else if fn = ''handlers'' then
            bnd (gets (\<lambda>w. d_tokens (l_drive (w_led w)))) (\<lambda>ks.
              view_return V registryAbi ''handlers''
                (VList (map VAddr (manifestKeys @ map (\<lambda>k. l2TokenAddress H (tok_address k)) ks))))
          else if fn = ''l2TokenOf'' then
            (case args of [VAddr l1Token] \<Rightarrow> view_return V registryAbi ''l2TokenOf'' (VAddr (l2TokenAddress H l1Token))
             | _ \<Rightarrow> view_revert V ''unknown function'')
          else view_revert V ''unknown function''
      | None \<Rightarrow> view_revert V ''unknown function'')"

section \<open>The portal receiver\<close>

definition addressAt :: "bytes \<Rightarrow> nat \<Rightarrow> bytes" where
  "addressAt data off = slice data off 20"

definition uint256At :: "bytes \<Rightarrow> nat \<Rightarrow> nat" where
  "uint256At data off = readBE (slice data off 32)"

text \<open>First-seen registration: the id of the token, registered now if it is not.\<close>

definition ensure_token :: "(bytes \<Rightarrow> bytes) \<Rightarrow> 's store \<Rightarrow> bytes \<Rightarrow> ('s Ledger, nat) prog" where
  "ensure_token H S l1Token =
     bnd (tokenByL1Address l1Token) (\<lambda>token. case token of
       Some t \<Rightarrow> ret (rf_id t)
     | None \<Rightarrow> bnd (led_registerToken H S l1Token None) (\<lambda>(tid, _). ret tid))"

definition portal_ether ::
  "(bytes \<Rightarrow> bytes) \<Rightarrow> 's store \<Rightarrow> Viem \<Rightarrow> TxContext \<Rightarrow> (('s, 'r) World, AdvanceOutcome) prog" where
  "portal_ether H S V ctx =
     (if length (ctx_data ctx) < 52 then revert V ''short ether deposit''
      else let beneficiary = addressAt (ctx_data ctx) 0; amount = uint256At (ctx_data ctx) 20 in
        try_catch
          (bnd (on_led (debitEther H S (ctx_to ctx) (int amount))) (\<lambda>_.
           bnd (on_led (creditEther H S beneficiary (int amount))) (\<lambda>_. ret Accept)))
          (\<lambda>e. if is_InsufficientFunds e then revert V ''deposit value does not cover the credit'' else raise e))"

definition portal_erc20 ::
  "(bytes \<Rightarrow> bytes) \<Rightarrow> 's store \<Rightarrow> Viem \<Rightarrow> TxContext \<Rightarrow> (('s, 'r) World, AdvanceOutcome) prog" where
  "portal_erc20 H S V ctx =
     (if length (ctx_data ctx) < 72 then revert V ''short erc20 deposit''
      else let l1Token = addressAt (ctx_data ctx) 0; beneficiary = addressAt (ctx_data ctx) 20;
               amount = uint256At (ctx_data ctx) 40 in
        bnd (on_led (ensure_token H S l1Token)) (\<lambda>tid.
        bnd (on_led (creditToken H S beneficiary tid (int amount))) (\<lambda>_.
        bnd (out_log V (l2TokenAddress H l1Token) (transferLog H V ZERO_ADDRESS beneficiary amount)) (\<lambda>_.
        ret Accept))))"

definition portal_advance ::
  "(bytes \<Rightarrow> bytes) \<Rightarrow> 's store \<Rightarrow> Viem \<Rightarrow> TxContext \<Rightarrow> (('s, 'r) World, AdvanceOutcome) prog" where
  "portal_advance H S V ctx =
     (if \<not> ctx_isDeposit ctx then revert V ''not a portal deposit''
      else bnd (gets (\<lambda>w. portalKind (ctx_sender ctx) (ram w))) (\<lambda>kind. case kind of
        None \<Rightarrow> revert V ''unregistered portal''
      | Some k \<Rightarrow> if k = PORTAL_ETHER then portal_ether H S V ctx else portal_erc20 H S V ctx))"

section \<open>The bridge\<close>

text \<open>The character U+2026 of a reason, in UTF-8.\<close>

definition ellipsis :: string where
  "ellipsis = [CHR 0xE2, CHR 0x80, CHR 0xA6]"

definition withdrawEther ::
  "(bytes \<Rightarrow> bytes) \<Rightarrow> 's store \<Rightarrow> Viem \<Rightarrow> TxContext \<Rightarrow> bytes \<Rightarrow> (('s, 'r) World, AdvanceOutcome) prog" where
  "withdrawEther H S V ctx dst =
     (if ctx_value ctx = 0 then revert V ''withdrawEther: no value''
      else bnd (on_led (debitEther H S (ctx_to ctx) (int (ctx_value ctx)))) (\<lambda>_.
           bnd (out_withdrawal H V (ctx_sender ctx) dst (ctx_value ctx) None None) (\<lambda>_.
           ret Accept)))"

text \<open>\<^verbatim>\<open>debitToken\<close> of the sender, an insufficient balance answered by a revert.\<close>

definition debit_or_revert ::
  "(bytes \<Rightarrow> bytes) \<Rightarrow> 's store \<Rightarrow> Viem \<Rightarrow> bytes \<Rightarrow> nat \<Rightarrow> nat \<Rightarrow> string \<Rightarrow>
     (('s, 'r) World, AdvanceOutcome) prog \<Rightarrow> (('s, 'r) World, AdvanceOutcome) prog" where
  "debit_or_revert H S V sender tid amount reason k =
     bnd (try_catch (bnd (on_led (debitToken H S sender tid (int amount))) (\<lambda>_. ret None))
            (\<lambda>e. if is_InsufficientFunds e then ret (Some (Revert (errorRevert V reason))) else raise e))
       (\<lambda>refused. case refused of Some r \<Rightarrow> ret r | None \<Rightarrow> k)"

definition withdrawERC20 ::
  "(bytes \<Rightarrow> bytes) \<Rightarrow> 's store \<Rightarrow> Viem \<Rightarrow> TxContext \<Rightarrow> bytes \<Rightarrow> bytes \<Rightarrow> nat \<Rightarrow> (('s, 'r) World, AdvanceOutcome) prog" where
  "withdrawERC20 H S V ctx l2Token dst amount =
     bnd (gets w_led) (\<lambda>l.
       if crossDomain (l_ram l) \<noteq> None then
         revert V (''ERC-20 leaves through the standard bridge (0x4200'' @ ellipsis @ ''0010) on this chain'')
       else case tokenByL2Address l2Token l of
         None \<Rightarrow> revert V ''unknown token''
       | Some token \<Rightarrow>
           debit_or_revert H S V (ctx_sender ctx) (rf_id token) amount ''withdrawERC20: amount exceeds balance''
             (bnd (lift (encodeFunctionData V erc20TransferAbi ''transfer'' [VAddr dst, VUint amount])) (\<lambda>payload.
              bnd (out_voucher (rf_l1Token token) payload) (\<lambda>_.
              bnd (out_log V l2Token (transferLog H V (ctx_sender ctx) ZERO_ADDRESS amount)) (\<lambda>_.
              ret Accept)))))"

definition bridge_advance ::
  "(bytes \<Rightarrow> bytes) \<Rightarrow> 's store \<Rightarrow> Viem \<Rightarrow> TxContext \<Rightarrow> (('s, 'r) World, AdvanceOutcome) prog" where
  "bridge_advance H S V ctx =
     (case tryDecodeCalldata V bridgeAbi (ctx_data ctx) of
        Some (fn, args) \<Rightarrow>
          if fn = ''withdrawEther'' then
            (case args of [VAddr dst] \<Rightarrow> withdrawEther H S V ctx dst | _ \<Rightarrow> revert V ''unknown function'')
          else if fn = ''withdrawERC20'' then
            (case args of [VAddr l2Token, VAddr dst, VUint amount] \<Rightarrow> withdrawERC20 H S V ctx l2Token dst amount
             | _ \<Rightarrow> revert V ''unknown function'')
          else revert V ''unknown function''
      | None \<Rightarrow> revert V ''unknown function'')"

section \<open>The ERC-20 facade\<close>

definition erc20_transfer ::
  "(bytes \<Rightarrow> bytes) \<Rightarrow> 's store \<Rightarrow> Viem \<Rightarrow> TxContext \<Rightarrow> nat \<Rightarrow> bytes \<Rightarrow> nat \<Rightarrow> (('s, 'r) World, AdvanceOutcome) prog" where
  "erc20_transfer H S V ctx tid dst v =
     bnd (try_catch
           (bnd (on_led (debitToken H S (ctx_sender ctx) tid (int v))) (\<lambda>_.
            bnd (on_led (creditToken H S dst tid (int v))) (\<lambda>_. ret None)))
           (\<lambda>e. if is_InsufficientFunds e
                then ret (Some (Revert (errorRevert V ''ERC20: transfer amount exceeds balance''))) else raise e))
       (\<lambda>refused. case refused of
          Some r \<Rightarrow> ret r
        | None \<Rightarrow> bnd (out_log V (ctx_to ctx) (transferLog H V (ctx_sender ctx) dst v)) (\<lambda>_. ret Accept))"

definition erc20_advance ::
  "(bytes \<Rightarrow> bytes) \<Rightarrow> 's store \<Rightarrow> Viem \<Rightarrow> TxContext \<Rightarrow> (('s, 'r) World, AdvanceOutcome) prog" where
  "erc20_advance H S V ctx =
     bnd (gets (\<lambda>w. tokenByL2Address (ctx_to ctx) (w_led w))) (\<lambda>token. case token of
       None \<Rightarrow> revert V ''unknown token''
     | Some t \<Rightarrow> (case tryDecodeCalldata V erc20FacadeAbi (ctx_data ctx) of
         None \<Rightarrow> revert V ''unknown function''
       | Some (fn, args) \<Rightarrow>
           if fn \<noteq> ''transfer'' then revert V (fn @ '' is not a transaction'')
           else (case args of [VAddr dst, VUint v] \<Rightarrow> erc20_transfer H S V ctx (rf_id t) dst v
                 | _ \<Rightarrow> revert V ''unknown function'')))"

definition erc20_view ::
  "(bytes \<Rightarrow> bytes) \<Rightarrow> 's store \<Rightarrow> Viem \<Rightarrow> CallContext \<Rightarrow> (('s, 'r) World, ViewOutcome) prog" where
  "erc20_view H S V call =
     bnd (gets (\<lambda>w. tokenByL2Address (call_to call) (w_led w))) (\<lambda>token. case token of
       None \<Rightarrow> view_revert V ''unknown token''
     | Some t \<Rightarrow> (case tryDecodeCalldata V erc20FacadeAbi (call_data call) of
         None \<Rightarrow> view_revert V ''unknown function''
       | Some (fn, args) \<Rightarrow>
           if fn = ''balanceOf'' then
             (case args of [VAddr owner] \<Rightarrow>
                bnd (on_led (tokenBalance H S owner (rf_id t))) (\<lambda>b. view_return V erc20FacadeAbi ''balanceOf'' (abi_int b))
              | _ \<Rightarrow> view_revert V ''unknown function'')
           else bnd (gets ram) (\<lambda>r.
             if fn = ''totalSupply'' then view_return V erc20FacadeAbi fn (abi_int (totalSupply (rf_id t) r))
             else if fn = ''decimals'' then view_return V erc20FacadeAbi fn (VUint (md_decimals (metadataOf (rf_id t) r)))
             else if fn = ''name'' then view_return V erc20FacadeAbi fn (VString (md_name (metadataOf (rf_id t) r)))
             else if fn = ''symbol'' then view_return V erc20FacadeAbi fn (VString (md_symbol (metadataOf (rf_id t) r)))
             else view_revert V (fn @ '' is not a view''))))"

section \<open>L1Block\<close>

definition SET_ECOTONE :: "Viem \<Rightarrow> bytes" where
  "SET_ECOTONE V = toFunctionSelector V ''setL1BlockValuesEcotone()''"

definition SET_ISTHMUS :: "Viem \<Rightarrow> bytes" where
  "SET_ISTHMUS V = toFunctionSelector V ''setL1BlockValuesIsthmus()''"

fun u_loop :: "bytes \<Rightarrow> nat \<Rightarrow> nat" where
  "u_loop [] v = v"
| "u_loop (b # bs) v = u_loop bs (push_bit 8 v OR unat b)"

definition u :: "bytes \<Rightarrow> nat \<Rightarrow> nat \<Rightarrow> nat" where
  "u view off n = u_loop (slice view off n) 0"

definition decode_attributes :: "bytes \<Rightarrow> L1Attributes" where
  "decode_attributes body =
     \<lparr>l1_baseFeeScalar = u body 0 4, l1_blobBaseFeeScalar = u body 4 4, l1_sequenceNumber = u body 8 8,
      l1_timestamp = u body 16 8, l1_number = u body 24 8, l1_basefee = u body 32 32, l1_blobBaseFee = u body 64 32,
      l1_hash = slice body 96 32, l1_batcherHash = slice body 128 32\<rparr>"

definition l1block_advance :: "Viem \<Rightarrow> TxContext \<Rightarrow> (('s, 'r) World, AdvanceOutcome) prog" where
  "l1block_advance V ctx =
     (if length (ctx_data ctx) < 4 then revert V ''unknown function''
      else let selector = slice (ctx_data ctx) 0 4 in
      if selector \<noteq> SET_ECOTONE V \<and> selector \<noteq> SET_ISTHMUS V then revert V ''unknown function''
      else let body = drop 4 (ctx_data ctx) in
      if length body < 160 then revert V ''short attributes''
      else bnd (modify (\<lambda>w. w\<lparr>w_attributes := Some (decode_attributes body)\<rparr>)) (\<lambda>_. ret Accept))"

definition l1block_view :: "Viem \<Rightarrow> CallContext \<Rightarrow> (('s, 'r) World, ViewOutcome) prog" where
  "l1block_view V call =
     (case tryDecodeCalldata V l1BlockAbi (call_data call) of
        None \<Rightarrow> view_revert V ''unknown function''
      | Some (fn, _) \<Rightarrow> bnd (gets w_attributes) (\<lambda>attributes. case attributes of
          None \<Rightarrow> view_revert V ''no L1 attributes yet''
        | Some a \<Rightarrow>
            if fn = ''number'' then view_return V l1BlockAbi fn (VUint (l1_number a))
            else if fn = ''timestamp'' then view_return V l1BlockAbi fn (VUint (l1_timestamp a))
            else if fn = ''basefee'' then view_return V l1BlockAbi fn (VUint (l1_basefee a))
            else if fn = ''blobBaseFee'' then view_return V l1BlockAbi fn (VUint (l1_blobBaseFee a))
            else if fn = ''hash'' then view_return V l1BlockAbi fn (VBytes (l1_hash a))
            else if fn = ''sequenceNumber'' then view_return V l1BlockAbi fn (VUint (l1_sequenceNumber a))
            else if fn = ''batcherHash'' then view_return V l1BlockAbi fn (VBytes (l1_batcherHash a))
            else if fn = ''baseFeeScalar'' then view_return V l1BlockAbi fn (VUint (l1_baseFeeScalar a))
            else view_return V l1BlockAbi fn (VUint (l1_blobBaseFeeScalar a))))"

section \<open>The config contract\<close>

definition FEE_SET_TOPIC :: "(bytes \<Rightarrow> bytes) \<Rightarrow> bytes" where
  "FEE_SET_TOPIC H = H (ascii ''FeeSet(uint256)'')"

definition PORTAL_REGISTERED_TOPIC :: "(bytes \<Rightarrow> bytes) \<Rightarrow> bytes" where
  "PORTAL_REGISTERED_TOPIC H = H (ascii ''PortalRegistered(uint8,address,address)'')"

definition MESSENGER_REGISTERED_TOPIC :: "(bytes \<Rightarrow> bytes) \<Rightarrow> bytes" where
  "MESSENGER_REGISTERED_TOPIC H = H (ascii ''MessengerRegistered(address,address)'')"

definition TOKEN_REGISTERED_TOPIC :: "(bytes \<Rightarrow> bytes) \<Rightarrow> bytes" where
  "TOKEN_REGISTERED_TOPIC H = H (ascii ''TokenRegistered(address,address,uint16)'')"

definition config_setFee :: "(bytes \<Rightarrow> bytes) \<Rightarrow> Viem \<Rightarrow> bytes \<Rightarrow> nat \<Rightarrow> (('s, 'r) World, AdvanceOutcome) prog" where
  "config_setFee H V self v =
     bnd (on_led (setFee (int v))) (\<lambda>_.
     bnd (out_log V self (rbind (toHex32 V v) (\<lambda>d. Ok ([FEE_SET_TOPIC H], d)))) (\<lambda>_. ret Accept))"

definition config_registerPortal ::
  "(bytes \<Rightarrow> bytes) \<Rightarrow> Viem \<Rightarrow> bytes \<Rightarrow> nat \<Rightarrow> bytes \<Rightarrow> (('s, 'r) World, AdvanceOutcome) prog" where
  "config_registerPortal H V self kind portal =
     (if kind \<noteq> PORTAL_ETHER \<and> kind \<noteq> PORTAL_ERC20 then revert V ''unknown portal kind''
      else bnd (gets ram) (\<lambda>r.
        if kind = PORTAL_ERC20 \<and> crossDomain r \<noteq> None then
          revert V ''the standard bridge is registered; escrows are exclusive''
        else let aliased = applyL1ToL2Alias portal in
          bnd (on_led (registerPortal aliased kind)) (\<lambda>_.
          bnd (out_log V self (rbind (encodeAbiParameters V ''uint8, address, address'' [VUint kind, VAddr portal, VAddr aliased])
                 (\<lambda>d. Ok ([PORTAL_REGISTERED_TOPIC H], d)))) (\<lambda>_.
          ret Accept))))"

definition config_registerMessenger ::
  "(bytes \<Rightarrow> bytes) \<Rightarrow> Viem \<Rightarrow> bytes \<Rightarrow> bytes \<Rightarrow> bytes \<Rightarrow> (('s, 'r) World, AdvanceOutcome) prog" where
  "config_registerMessenger H V self messenger bridge =
     bnd (gets ram) (\<lambda>r.
       if hasErc20Portal r then revert V ''an ERC-20 portal is registered; escrows are exclusive''
       else
         bnd (on_led (registerCrossDomain \<lparr>l1Messenger = messenger, l1MessengerAliased = applyL1ToL2Alias messenger, l1Bridge = bridge\<rparr>)) (\<lambda>_.
         bnd (out_log V self (rbind (encodeAbiParameters V ''address, address'' [VAddr messenger, VAddr bridge])
                (\<lambda>d. Ok ([MESSENGER_REGISTERED_TOPIC H], d)))) (\<lambda>_.
         ret Accept)))"

definition config_registerToken ::
  "(bytes \<Rightarrow> bytes) \<Rightarrow> 's store \<Rightarrow> Viem \<Rightarrow> bytes \<Rightarrow> bytes \<Rightarrow> TokenMetadata \<Rightarrow> (('s, 'r) World, AdvanceOutcome) prog" where
  "config_registerToken H S V self l1Token md =
     try_catch
       (bnd (on_led (led_registerToken H S l1Token (Some md))) (\<lambda>(tid, l2Token).
        bnd (out_log V self (rbind (padHex32 V l1Token) (\<lambda>a. rbind (padHex32 V l2Token) (\<lambda>b. rbind (toHex32 V tid) (\<lambda>d.
               Ok ([TOKEN_REGISTERED_TOPIC H, a, b], d)))))) (\<lambda>_.
        ret Accept)))
       (\<lambda>e. case e of AccountsDriveError duplicateToken _ \<Rightarrow> revert V ''token already registered'' | _ \<Rightarrow> raise e)"

definition config_setTokenMetadata ::
  "Viem \<Rightarrow> bytes \<Rightarrow> TokenMetadata \<Rightarrow> (('s, 'r) World, AdvanceOutcome) prog" where
  "config_setTokenMetadata V l1Token md =
     bnd (on_led (tokenByL1Address l1Token)) (\<lambda>token. case token of
       None \<Rightarrow> revert V ''unknown token''
     | Some t \<Rightarrow> bnd (on_led (setMetadata (rf_id t) md)) (\<lambda>_. ret Accept))"

definition config_advance ::
  "(bytes \<Rightarrow> bytes) \<Rightarrow> 's store \<Rightarrow> Viem \<Rightarrow> bytes \<Rightarrow> bytes \<Rightarrow> TxContext \<Rightarrow> (('s, 'r) World, AdvanceOutcome) prog" where
  "config_advance H S V owner self ctx =
     (if ctx_sender ctx \<noteq> owner then revert V ''not the owner''
      else case tryDecodeCalldata V configAbi (ctx_data ctx) of
        None \<Rightarrow> revert V ''unknown function''
      | Some (fn, args) \<Rightarrow>
          (case args of
             [VUint v] \<Rightarrow>
               if fn = ''setFee'' then config_setFee H V self v else revert V (fn @ '' is not a transaction'')
           | [VUint kind, VAddr portal] \<Rightarrow>
               if fn = ''registerPortal'' then config_registerPortal H V self kind portal
               else revert V (fn @ '' is not a transaction'')
           | [VAddr messenger, VAddr bridge] \<Rightarrow>
               if fn = ''registerMessenger'' then config_registerMessenger H V self messenger bridge
               else revert V (fn @ '' is not a transaction'')
           | [VAddr l1Token, VUint width, VString name, VString symbol, VUint decimals] \<Rightarrow>
               if fn = ''registerToken''
               then config_registerToken H S V self l1Token \<lparr>md_name = name, md_symbol = symbol, md_decimals = decimals\<rparr>
               else revert V (fn @ '' is not a transaction'')
           | [VAddr l1Token, VString name, VString symbol, VUint decimals] \<Rightarrow>
               if fn = ''setTokenMetadata''
               then config_setTokenMetadata V l1Token \<lparr>md_name = name, md_symbol = symbol, md_decimals = decimals\<rparr>
               else revert V (fn @ '' is not a transaction'')
           | _ \<Rightarrow> revert V (fn @ '' is not a transaction'')))"

definition config_view ::
  "Viem \<Rightarrow> bytes \<Rightarrow> CallContext \<Rightarrow> (('s, 'r) World, ViewOutcome) prog" where
  "config_view V owner call =
     (case tryDecodeCalldata V configAbi (call_data call) of
        None \<Rightarrow> view_revert V ''unknown function''
      | Some (fn, _) \<Rightarrow>
          if fn = ''fee'' then bnd (gets ram) (\<lambda>r. view_return V configAbi ''fee'' (abi_int (fee r)))
          else if fn = ''owner'' then view_return V configAbi ''owner'' (VAddr owner)
          else view_revert V (fn @ '' is not a view''))"

end
