(* ===== verification/Cross_Domain.thy ===== *)
theory Cross_Domain
  imports Handlers
begin

text \<open>
  The standard messaging pair (\<^verbatim>\<open>app/src/handlers/messenger.ts\<close>, \<^verbatim>\<open>app/src/handlers/l2bridge.ts\<close>): relaying messages from
  L1, whose failure is rolled back to a mark of the journal and recorded, and sending messages to L1.
\<close>

section \<open>Sending\<close>

definition MESSAGE_VERSION :: nat where "MESSAGE_VERSION = 1"

record SendArgs =
  sa_sender :: bytes
  sa_target :: bytes
  sa_message :: bytes
  sa_minGasLimit :: nat
  sa_value :: nat

definition sendCrossDomainMessage ::
  "(bytes \<Rightarrow> bytes) \<Rightarrow> Viem \<Rightarrow> CrossDomainConfig \<Rightarrow> SendArgs \<Rightarrow> (('s, 'r) World, unit) prog" where
  "sendCrossDomainMessage H V cd a =
     bnd (on_led nextMessageNonce) (\<lambda>n.
       let nonce = encodeVersionedNonce n MESSAGE_VERSION;
           gas = baseGas (length (sa_message a)) (sa_minGasLimit a) in
       bnd (lift (encodeRelayMessage V \<lparr>m_nonce = nonce, m_sender = sa_sender a, m_target = sa_target a,
              m_value = sa_value a, m_minGasLimit = sa_minGasLimit a, m_message = sa_message a\<rparr>)) (\<lambda>relay.
       bnd (out_withdrawal H V L2_MESSENGER_ADDRESS (l1Messenger cd) (sa_value a) (Some gas) (Some relay)) (\<lambda>_.
       bnd (out_log V L2_MESSENGER_ADDRESS
              (sentMessageLog H V (sa_target a) (sa_sender a) (sa_message a) nonce gas)) (\<lambda>_.
       out_log V L2_MESSENGER_ADDRESS (sentMessageExtension1Log H V (sa_sender a) (sa_value a))))))"

section \<open>The L2 standard bridge\<close>

definition ETH_BRIDGE_FINALIZED_TOPIC :: "(bytes \<Rightarrow> bytes) \<Rightarrow> bytes" where
  "ETH_BRIDGE_FINALIZED_TOPIC H = H (ascii ''ETHBridgeFinalized(address,address,uint256,bytes)'')"

record BridgeArgs =
  ba_localToken :: bytes
  ba_remoteToken :: bytes
  ba_to :: bytes
  ba_amount :: nat
  ba_minGasLimit :: nat
  ba_extraData :: bytes

definition l2bridge_initiate ::
  "(bytes \<Rightarrow> bytes) \<Rightarrow> 's store \<Rightarrow> Viem \<Rightarrow> TxContext \<Rightarrow> CrossDomainConfig \<Rightarrow> BridgeArgs \<Rightarrow>
     (('s, 'r) World, AdvanceOutcome) prog" where
  "l2bridge_initiate H S V ctx cd a =
     bnd (gets (\<lambda>w. tokenByL2Address (ba_localToken a) (w_led w))) (\<lambda>token. case token of
       None \<Rightarrow> revert V ''wrong token pair''
     | Some t \<Rightarrow>
         if rf_l1Token t \<noteq> ba_remoteToken a then revert V ''wrong token pair''
         else debit_or_revert H S V (ctx_sender ctx) (rf_id t) (ba_amount a) ''amount exceeds balance''
           (bnd (out_log V (ba_localToken a) (transferLog H V (ctx_sender ctx) ZERO_ADDRESS (ba_amount a))) (\<lambda>_.
            bnd (out_log V L2_BRIDGE_ADDRESS
                   (erc20BridgeLog V (ERC20_BRIDGE_INITIATED_TOPIC H) (ba_localToken a) (ba_remoteToken a)
                      (ctx_sender ctx) (ba_to a) (ba_amount a) (ba_extraData a))) (\<lambda>_.
            bnd (lift (encodeFunctionData V l2StandardBridgeAbi ''finalizeBridgeERC20''
                   [VAddr (ba_remoteToken a), VAddr (ba_localToken a), VAddr (ctx_sender ctx), VAddr (ba_to a),
                    VUint (ba_amount a), VBytes (ba_extraData a)])) (\<lambda>message.
            bnd (sendCrossDomainMessage H V cd \<lparr>sa_sender = L2_BRIDGE_ADDRESS, sa_target = l1Bridge cd,
                   sa_message = message, sa_minGasLimit = ba_minGasLimit a, sa_value = 0\<rparr>) (\<lambda>_.
            ret Accept))))))"

definition l2bridge_advance ::
  "(bytes \<Rightarrow> bytes) \<Rightarrow> 's store \<Rightarrow> Viem \<Rightarrow> TxContext \<Rightarrow> (('s, 'r) World, AdvanceOutcome) prog" where
  "l2bridge_advance H S V ctx =
     bnd (gets (\<lambda>w. crossDomain (ram w))) (\<lambda>cross. case cross of
       None \<Rightarrow> revert V ''no standard bridge registered''
     | Some cd \<Rightarrow> (case tryDecodeCalldata V l2StandardBridgeAbi (ctx_data ctx) of
         None \<Rightarrow> revert V ''unknown function''
       | Some (fn, args) \<Rightarrow>
           (case args of
              [VAddr localToken, VAddr remoteToken, VUint amount, VUint minGasLimit, VBytes extraData] \<Rightarrow>
                if fn = ''bridgeERC20'' then
                  l2bridge_initiate H S V ctx cd \<lparr>ba_localToken = localToken, ba_remoteToken = remoteToken,
                    ba_to = ctx_sender ctx, ba_amount = amount, ba_minGasLimit = minGasLimit, ba_extraData = extraData\<rparr>
                else revert V ''finalize is only callable by the messenger''
            | [VAddr localToken, VAddr remoteToken, VAddr dst, VUint amount, VUint minGasLimit, VBytes extraData] \<Rightarrow>
                if fn = ''bridgeERC20To'' then
                  l2bridge_initiate H S V ctx cd \<lparr>ba_localToken = localToken, ba_remoteToken = remoteToken,
                    ba_to = dst, ba_amount = amount, ba_minGasLimit = minGasLimit, ba_extraData = extraData\<rparr>
                else revert V ''finalize is only callable by the messenger''
            | _ \<Rightarrow> revert V ''finalize is only callable by the messenger'')))"

definition finalizeBridgeERC20 ::
  "(bytes \<Rightarrow> bytes) \<Rightarrow> 's store \<Rightarrow> Viem \<Rightarrow> CrossDomainMessage \<Rightarrow> bytes \<Rightarrow> bytes \<Rightarrow> bytes \<Rightarrow> bytes \<Rightarrow> nat \<Rightarrow> bytes \<Rightarrow>
     (('s, 'r) World, unit) prog" where
  "finalizeBridgeERC20 H S V m localToken remoteToken src dst amount extraData =
     (if m_value m \<noteq> 0 then raise (Error ''ERC-20 message carries value'')
      else if localToken \<noteq> l2TokenAddress H remoteToken then raise (Error ''wrong token pair'')
      else bnd (on_led (ensure_token H S remoteToken)) (\<lambda>tid.
        bnd (on_led (creditToken H S dst tid (int amount))) (\<lambda>_.
        bnd (out_log V localToken (transferLog H V ZERO_ADDRESS dst amount)) (\<lambda>_.
        out_log V L2_BRIDGE_ADDRESS
          (erc20BridgeLog V (ERC20_BRIDGE_FINALIZED_TOPIC H) localToken remoteToken src dst amount extraData)))))"

definition finalizeBridgeETH ::
  "(bytes \<Rightarrow> bytes) \<Rightarrow> 's store \<Rightarrow> Viem \<Rightarrow> CrossDomainMessage \<Rightarrow> bytes \<Rightarrow> bytes \<Rightarrow> nat \<Rightarrow> bytes \<Rightarrow> (('s, 'r) World, unit) prog" where
  "finalizeBridgeETH H S V m src dst amount extraData =
     (if m_value m \<noteq> amount then raise (Error ''value does not match amount'')
      else bnd (on_led (debitEther H S L2_MESSENGER_ADDRESS (int amount))) (\<lambda>_.
        bnd (on_led (creditEther H S dst (int amount))) (\<lambda>_.
        out_log V L2_BRIDGE_ADDRESS
          (rbind (padHex32 V src) (\<lambda>f. rbind (padHex32 V dst) (\<lambda>t.
           rbind (encodeAbiParameters V ''uint256, bytes'' [VUint amount, VBytes extraData]) (\<lambda>d.
             Ok ([ETH_BRIDGE_FINALIZED_TOPIC H, f, t], d))))))))"

definition finalizeFromMessenger ::
  "(bytes \<Rightarrow> bytes) \<Rightarrow> 's store \<Rightarrow> Viem \<Rightarrow> CrossDomainMessage \<Rightarrow> CrossDomainConfig \<Rightarrow> (('s, 'r) World, unit) prog" where
  "finalizeFromMessenger H S V m cd =
     (if m_sender m \<noteq> l1Bridge cd then raise (Error ''xDomainMessageSender is not the L1 bridge'')
      else case tryDecodeCalldata V l2StandardBridgeAbi (m_message m) of
        None \<Rightarrow> raise (Error ''not a bridge message'')
      | Some (fn, args) \<Rightarrow>
          (case args of
             [VAddr localToken, VAddr remoteToken, VAddr src, VAddr dst, VUint amount, VBytes extraData] \<Rightarrow>
               if fn = ''finalizeBridgeERC20''
               then finalizeBridgeERC20 H S V m localToken remoteToken src dst amount extraData
               else raise (Error (''unsupported bridge message '' @ fn))
           | [VAddr src, VAddr dst, VUint amount, VBytes extraData] \<Rightarrow>
               if fn = ''finalizeBridgeETH'' then finalizeBridgeETH H S V m src dst amount extraData
               else raise (Error (''unsupported bridge message '' @ fn))
           | _ \<Rightarrow> raise (Error (''unsupported bridge message '' @ fn))))"

section \<open>The messenger\<close>

definition dispatch ::
  "(bytes \<Rightarrow> bytes) \<Rightarrow> 's store \<Rightarrow> Viem \<Rightarrow> CrossDomainMessage \<Rightarrow> CrossDomainConfig \<Rightarrow> (('s, 'r) World, unit) prog" where
  "dispatch H S V m cd =
     (if m_target m = L2_BRIDGE_ADDRESS then finalizeFromMessenger H S V m cd
      else if length (m_message m) > 0 then raise (Error ''unsupported relay target'')
      else bnd (on_led (debitEther H S L2_MESSENGER_ADDRESS (int (m_value m)))) (\<lambda>_.
           on_led (creditEther H S (m_target m) (int (m_value m)))))"

definition rollback_to :: "(bytes \<Rightarrow> bytes) \<Rightarrow> 's store \<Rightarrow> nat \<Rightarrow> ('s Ledger, unit) prog" where
  "rollback_to H S n = bnd (rollbackTo S n) (\<lambda>_. afterRollback H S)"

text \<open>The inner call and its record: the mark bounds exactly the dispatch.\<close>

definition relay ::
  "(bytes \<Rightarrow> bytes) \<Rightarrow> 's store \<Rightarrow> Viem \<Rightarrow> CrossDomainMessage \<Rightarrow> CrossDomainConfig \<Rightarrow> bytes \<Rightarrow> (('s, 'r) World, AdvanceOutcome) prog" where
  "relay H S V m cd hash =
     bnd (gets (\<lambda>w. mark (w_led w))) (\<lambda>mrk.
     bnd (try_catch
           (bnd (dispatch H S V m cd) (\<lambda>_.
            bnd (on_led (setMessageStatus hash successful)) (\<lambda>_.
            out_log V L2_MESSENGER_ADDRESS (Ok (relayedMessageLog H hash False)))))
           (\<lambda>_. bnd (on_led (rollback_to H S mrk)) (\<lambda>_.
            bnd (on_led (setMessageStatus hash failed)) (\<lambda>_.
            out_log V L2_MESSENGER_ADDRESS (Ok (relayedMessageLog H hash True)))))) (\<lambda>_.
     ret Accept))"

text \<open>The checks before the inner call: a first delivery, or the replay of a recorded failure.\<close>

definition relay_refusal :: "TxContext \<Rightarrow> CrossDomainConfig \<Rightarrow> CrossDomainMessage \<Rightarrow> msgStatus option \<Rightarrow> string option" where
  "relay_refusal ctx cd m status =
     (if status = Some successful then Some ''message has already been relayed''
      else if ctx_isDeposit ctx \<and> ctx_sender ctx = l1MessengerAliased cd then
        (if ctx_value ctx \<noteq> m_value m then Some ''value does not match the message''
         else if status = Some failed then Some ''message already received'' else None)
      else
        (if ctx_value ctx \<noteq> 0 then Some ''value must be zero on replay''
         else if status \<noteq> Some failed then Some ''message cannot be replayed'' else None))"

definition relay_checked ::
  "(bytes \<Rightarrow> bytes) \<Rightarrow> 's store \<Rightarrow> Viem \<Rightarrow> TxContext \<Rightarrow> CrossDomainConfig \<Rightarrow> CrossDomainMessage \<Rightarrow> bytes \<Rightarrow>
     (('s, 'r) World, AdvanceOutcome) prog" where
  "relay_checked H S V ctx cd m hash =
     bnd (gets (\<lambda>w. messageStatus hash (ram w))) (\<lambda>status.
       case relay_refusal ctx cd m status of
         Some reason \<Rightarrow> revert V reason
       | None \<Rightarrow> relay H S V m cd hash)"

definition messenger_advance ::
  "(bytes \<Rightarrow> bytes) \<Rightarrow> 's store \<Rightarrow> Viem \<Rightarrow> TxContext \<Rightarrow> (('s, 'r) World, AdvanceOutcome) prog" where
  "messenger_advance H S V ctx =
     bnd (gets (\<lambda>w. crossDomain (ram w))) (\<lambda>cross. case cross of
       None \<Rightarrow> revert V ''no messenger registered''
     | Some cd \<Rightarrow> (case tryDecodeCalldata V l2CrossDomainMessengerAbi (ctx_data ctx) of
         Some (fn, [VUint nonce, VAddr sender, VAddr target, VUint v, VUint minGasLimit, VBytes message]) \<Rightarrow>
           if fn \<noteq> ''relayMessage'' then revert V ''unknown function''
           else let m = \<lparr>m_nonce = nonce, m_sender = sender, m_target = target, m_value = v,
                         m_minGasLimit = minGasLimit, m_message = message\<rparr> in
           if snd (decodeVersionedNonce nonce) \<noteq> MESSAGE_VERSION then revert V ''only version 1 messages are supported''
           else bnd (lift (hashCrossDomainMessageV1 H V m)) (relay_checked H S V ctx cd m)
       | _ \<Rightarrow> revert V ''unknown function''))"

definition messenger_view :: "Viem \<Rightarrow> CallContext \<Rightarrow> (('s, 'r) World, ViewOutcome) prog" where
  "messenger_view V call =
     (case tryDecodeCalldata V l2CrossDomainMessengerAbi (call_data call) of
        None \<Rightarrow> view_revert V ''unknown function''
      | Some (fn, args) \<Rightarrow> bnd (gets ram) (\<lambda>r.
          if fn = ''messageNonce'' then
            view_return V l2CrossDomainMessengerAbi fn (VUint (encodeVersionedNonce (peekMessageNonce r) MESSAGE_VERSION))
          else if fn = ''successfulMessages'' \<or> fn = ''failedMessages'' then
            (case args of [VBytes hash] \<Rightarrow>
               view_return V l2CrossDomainMessengerAbi fn
                 (VBool (messageStatus hash r = Some (if fn = ''successfulMessages'' then successful else failed)))
             | _ \<Rightarrow> view_revert V ''unknown function'')
          else view_revert V (fn @ '' is not a view'')))"

end
