(* ===== verification/Contract.thy ===== *)
theory Contract
  imports Cross_Domain
begin

text \<open>
  The application API (\<^verbatim>\<open>app/src/contract.ts\<close>): a contract is an address, an ABI and callbacks, and becomes a handler.
  A callback is a program on the world. The fields \<open>cs_transactions\<close> and \<open>cs_views\<close> stand for the property lookups
  \<^verbatim>\<open>transactions[name]\<close> and \<^verbatim>\<open>views[name]\<close>, \<open>None\<close> where the property is not a function.
\<close>

record AbiItem =
  ai_type :: string
  ai_name :: string
  ai_stateMutability :: string
  ai_signature :: string
  ai_json :: string

record ('s, 'r) ContractSpec =
  cs_address :: bytes
  cs_abi :: "AbiItem list"
  cs_payable :: "bool option"
  cs_transactions :: "string \<Rightarrow> (abi list \<Rightarrow> TxContext \<Rightarrow> (('s, 'r) World, unit) prog) option"
  cs_views :: "string \<Rightarrow> (abi list \<Rightarrow> CallContext \<Rightarrow> (('s, 'r) World, abi) prog) option"

definition signatures :: "AbiItem list \<Rightarrow> string list" where
  "signatures abi = map ai_signature abi"

fun mutabilityOf :: "AbiItem list \<Rightarrow> string \<Rightarrow> string option" where
  "mutabilityOf [] functionName = None"
| "mutabilityOf (i # abi) functionName =
     (if ai_type i = ''function'' \<and> ai_name i = functionName then Some (ai_stateMutability i)
      else mutabilityOf abi functionName)"

text \<open>\<^verbatim>\<open>Error.message\<close>.\<close>

fun exn_message :: "exn \<Rightarrow> string" where
  "exn_message (AccountsDriveError k msg) = msg"
| "exn_message (InsufficientFunds msg) = msg"
| "exn_message (AbiDriveError k msg) = msg"
| "exn_message (RevertExn data msg) = msg"
| "exn_message (FailExn data msg) = msg"
| "exn_message (Error msg) = msg"
| "exn_message (RangeError msg) = msg"

text \<open>The constructors of the two exceptions a callback throws.\<close>

definition newRevert :: "Viem \<Rightarrow> string + bytes \<Rightarrow> exn" where
  "newRevert V reason = (case reason of Inl r \<Rightarrow> RevertExn (errorRevert V r) r | Inr data \<Rightarrow> RevertExn data ''revert'')"

definition newFail :: "Viem \<Rightarrow> string + bytes \<Rightarrow> exn" where
  "newFail V reason = (case reason of Inl r \<Rightarrow> FailExn (errorRevert V r) r | Inr data \<Rightarrow> FailExn data ''fail'')"

fun failureOutcome :: "Viem \<Rightarrow> exn \<Rightarrow> AdvanceOutcome" where
  "failureOutcome V (FailExn data msg) = Fail data"
| "failureOutcome V (RevertExn data msg) = Revert data"
| "failureOutcome V e = Revert (errorRevert V (exn_message e))"

fun outcome_data :: "AdvanceOutcome \<Rightarrow> bytes" where
  "outcome_data (Revert d) = d"
| "outcome_data (Fail d) = d"
| "outcome_data a = []"

definition contract_advance ::
  "Viem \<Rightarrow> ('s, 'r) ContractSpec \<Rightarrow> TxContext \<Rightarrow> (('s, 'r) World, AdvanceOutcome) prog" where
  "contract_advance V spec ctx =
     (case tryDecodeCalldata V (signatures (cs_abi spec)) (ctx_data ctx) of
        None \<Rightarrow> revert V ''unknown function''
      | Some (name, args) \<Rightarrow>
          let mutability = mutabilityOf (cs_abi spec) name in
          if mutability = Some ''view'' \<or> mutability = Some ''pure'' then revert V (name @ '' is not a transaction'')
          else (case cs_transactions spec name of
            None \<Rightarrow> revert V (name @ '' is not implemented'')
          | Some callback \<Rightarrow>
              try_catch (bnd (callback args ctx) (\<lambda>_. ret Accept)) (\<lambda>e. ret (failureOutcome V e))))"

definition contract_view ::
  "Viem \<Rightarrow> ('s, 'r) ContractSpec \<Rightarrow> CallContext \<Rightarrow> (('s, 'r) World, ViewOutcome) prog" where
  "contract_view V spec call =
     (case tryDecodeCalldata V (signatures (cs_abi spec)) (call_data call) of
        None \<Rightarrow> view_revert V ''unknown function''
      | Some (name, args) \<Rightarrow>
          let mutability = mutabilityOf (cs_abi spec) name in
          if mutability \<noteq> Some ''view'' \<and> mutability \<noteq> Some ''pure'' then view_revert V (name @ '' is not a view'')
          else (case cs_views spec name of
            None \<Rightarrow> view_revert V (name @ '' is not implemented'')
          | Some callback \<Rightarrow>
              try_catch (bnd (callback args call) (\<lambda>result. view_return V (signatures (cs_abi spec)) name result))
                (\<lambda>e. ret (VRevert (outcome_data (failureOutcome V e))))))"

end
