(* ===== verification/Router.thy ===== *)
theory Router
  imports Contract
begin

text \<open>
  The router (\<^verbatim>\<open>app/src/router.ts\<close>): parse, enforce, move value, dispatch on the target, commit one outcome. A handler
  object is a constructor of \<open>Handler\<close>, its methods the functions \<open>handler_advance\<close> and \<open>handler_view\<close>; the manifest
  is an association list in insertion order.
\<close>

section \<open>Handlers\<close>

datatype ('s, 'r) Handler =
    HRegistry | HBridge | HConfig | HL1Block | HMessenger | HL2Bridge | HPasser | HPortal | HErc20
  | HContract "('s, 'r) ContractSpec"

record ('s, 'r) Router =
  manifest :: "(bytes \<times> ('s, 'r) Handler) list"
  cfg_chainId :: nat
  cfg_owner :: bytes
  lastBlock :: "BlockContext option"

fun payable :: "('s, 'r) Handler \<Rightarrow> bool" where
  "payable HRegistry = False"
| "payable HBridge = True"
| "payable HConfig = False"
| "payable HL1Block = False"
| "payable HMessenger = True"
| "payable HL2Bridge = False"
| "payable HPasser = True"
| "payable HPortal = True"
| "payable HErc20 = False"
| "payable (HContract spec) = (cs_payable spec = Some True)"

definition new_Router :: "nat \<Rightarrow> bytes \<Rightarrow> ('s, 'r) Router" where
  "new_Router chainId owner =
     \<lparr>manifest = [(REGISTRY_ADDRESS, HRegistry), (BRIDGE_ADDRESS, HBridge), (CONFIG_ADDRESS, HConfig),
        (L1BLOCK_ADDRESS, HL1Block), (L2_MESSENGER_ADDRESS, HMessenger), (L2_BRIDGE_ADDRESS, HL2Bridge),
        (MESSAGE_PASSER_ADDRESS, HPasser)],
      cfg_chainId = chainId, cfg_owner = owner, lastBlock = None\<rparr>"

text \<open>The address is reported the way the caller wrote it, which \<open>shown\<close> gives.\<close>

definition router_register :: "(bytes \<Rightarrow> string) \<Rightarrow> bytes \<Rightarrow> ('s, 'r) Handler \<Rightarrow> ('s, 'r) Router \<Rightarrow> ('s, 'r) Router res" where
  "router_register shown addr h R =
     (if map_of (manifest R) addr \<noteq> None then Throw (Error (''address '' @ shown addr @ '' is already routed''))
      else Ok (R\<lparr>manifest := manifest R @ [(addr, h)]\<rparr>))"

definition resolve ::
  "('s, 'r) Router \<Rightarrow> bytes \<Rightarrow> BlockContext option \<Rightarrow> bytes option \<Rightarrow> 's Ledger \<Rightarrow> ('s, 'r) Handler option" where
  "resolve R dst block deposit l =
     (case map_of (manifest R) dst of
        Some fixed \<Rightarrow> Some fixed
      | None \<Rightarrow>
          if (case block of None \<Rightarrow> False | Some b \<Rightarrow> dst = b_appContract b) then Some HPortal
          else if (case deposit of None \<Rightarrow> False | Some sender \<Rightarrow> portalKind sender (l_ram l) \<noteq> None) then Some HPortal
          else if tokenByL2Address dst l \<noteq> None then Some HErc20
          else None)"

fun handler_advance ::
  "(bytes \<Rightarrow> bytes) \<Rightarrow> 's store \<Rightarrow> Viem \<Rightarrow> ('s, 'r) Router \<Rightarrow> ('s, 'r) Handler \<Rightarrow>
     (TxContext \<Rightarrow> (('s, 'r) World, AdvanceOutcome) prog) option" where
  "handler_advance H S V R HRegistry = None"
| "handler_advance H S V R HBridge = Some (bridge_advance H S V)"
| "handler_advance H S V R HConfig = Some (config_advance H S V (cfg_owner R) CONFIG_ADDRESS)"
| "handler_advance H S V R HL1Block = Some (l1block_advance V)"
| "handler_advance H S V R HMessenger = Some (messenger_advance H S V)"
| "handler_advance H S V R HL2Bridge = Some (l2bridge_advance H S V)"
| "handler_advance H S V R HPasser = Some (passer_advance H S V)"
| "handler_advance H S V R HPortal = Some (portal_advance H S V)"
| "handler_advance H S V R HErc20 = Some (erc20_advance H S V)"
| "handler_advance H S V R (HContract spec) = Some (contract_advance V spec)"

definition registry_lookup :: "('s, 'r) Router \<Rightarrow> bytes \<Rightarrow> 's Ledger \<Rightarrow> bool option" where
  "registry_lookup R addr l = map_option payable (resolve R addr None None l)"

fun handler_view ::
  "(bytes \<Rightarrow> bytes) \<Rightarrow> 's store \<Rightarrow> Viem \<Rightarrow> ('s, 'r) Router \<Rightarrow> ('s, 'r) Handler \<Rightarrow>
     (CallContext \<Rightarrow> (('s, 'r) World, ViewOutcome) prog) option" where
  "handler_view H S V R HRegistry = Some (registry_view H V (registry_lookup R) (map fst (manifest R)))"
| "handler_view H S V R HConfig = Some (config_view V (cfg_owner R))"
| "handler_view H S V R HL1Block = Some (l1block_view V)"
| "handler_view H S V R HMessenger = Some (messenger_view V)"
| "handler_view H S V R HErc20 = Some (erc20_view H S V)"
| "handler_view H S V R (HContract spec) = Some (contract_view V spec)"
| "handler_view H S V R h = None"

section \<open>Outcomes\<close>

datatype Outcome = OAccept | ORevert | OFail | OReject | OOpaque

record AdvanceResult =
  ar_accept :: bool
  ar_emissions :: "Emission list"
  ar_outcome :: Outcome
  ar_reason :: "string option"

record InspectResult =
  ir_accept :: bool
  ir_reports :: "bytes list"

definition rejected :: "string \<Rightarrow> AdvanceResult" where
  "rejected reason = \<lparr>ar_accept = False, ar_emissions = [], ar_outcome = OReject, ar_reason = Some reason\<rparr>"

definition finished :: "Outcome \<Rightarrow> Emission list \<Rightarrow> AdvanceResult" where
  "finished o' es = \<lparr>ar_accept = True, ar_emissions = es, ar_outcome = o', ar_reason = None\<rparr>"

fun kind_text :: "ErrorKind \<Rightarrow> string" where
  "kind_text tableFull = ''tableFull''"
| "kind_text registryFull = ''registryFull''"
| "kind_text overflow = ''overflow''"
| "kind_text nonceProtected = ''nonceProtected''"
| "kind_text duplicateToken = ''duplicateToken''"
| "kind_text unknownToken = ''unknownToken''"
| "kind_text badWidth = ''badWidth''"
| "kind_text zeroAddress = ''zeroAddress''"
| "kind_text profileKind = ''profile''"

fun describe :: "exn \<Rightarrow> string" where
  "describe (AccountsDriveError k msg) = ''drive: '' @ kind_text k"
| "describe e = exn_message e"

definition rollbackAll :: "(bytes \<Rightarrow> bytes) \<Rightarrow> 's store \<Rightarrow> ('s Ledger, unit) prog" where
  "rollbackAll H S = bnd (journal_rollbackAll S) (\<lambda>_. afterRollback H S)"

section \<open>Advance\<close>

text \<open>Value transfer and dispatch, what the \<^verbatim>\<open>try\<close> of \<^verbatim>\<open>execute\<close> and of \<^verbatim>\<open>EvmSimulate\<close> holds.\<close>

definition transfer_and_dispatch ::
  "(bytes \<Rightarrow> bytes) \<Rightarrow> 's store \<Rightarrow> Viem \<Rightarrow> ('s, 'r) Router \<Rightarrow> TxContext \<Rightarrow> bytes option \<Rightarrow>
     (('s, 'r) World, AdvanceOutcome) prog" where
  "transfer_and_dispatch H S V R ctx deposit =
     bnd (on_led (debitEther H S (ctx_sender ctx) (int (ctx_value ctx)))) (\<lambda>_.
     bnd (on_led (creditEther H S (ctx_to ctx) (int (ctx_value ctx)))) (\<lambda>_.
     bnd (gets (\<lambda>w. resolve R (ctx_to ctx) (Some (ctx_block ctx)) deposit (w_led w))) (\<lambda>h.
       case h of
         None \<Rightarrow> ret Accept
       | Some handler \<Rightarrow>
           if ctx_value ctx > 0 \<and> \<not> payable handler then revert V ''not payable''
           else (case handler_advance H S V R handler of
             None \<Rightarrow> revert V ''not a transaction target''
           | Some adv \<Rightarrow> adv ctx))))"

definition charge ::
  "(bytes \<Rightarrow> bytes) \<Rightarrow> 's store \<Rightarrow> (bytes \<times> int) option \<Rightarrow> ('s Ledger, AdvanceResult option) prog" where
  "charge H S chargeable =
     (case chargeable of
        None \<Rightarrow> ret None
      | Some (addr, amount) \<Rightarrow>
          try_catch (bnd (bumpNonceAndCharge H S addr amount) (\<lambda>_. ret None))
            (\<lambda>e. bnd (rollbackAll H S) (\<lambda>_. ret (Some (rejected (describe e))))))"

text \<open>The charge, then the commit and the result, unless the charge is refused.\<close>

definition settle ::
  "(bytes \<Rightarrow> bytes) \<Rightarrow> 's store \<Rightarrow> (bytes \<times> int) option \<Rightarrow> AdvanceResult \<Rightarrow> ('s Ledger, AdvanceResult) prog" where
  "settle H S chargeable result =
     bnd (charge H S chargeable) (\<lambda>refused. case refused of
       Some r \<Rightarrow> ret r
     | None \<Rightarrow> bnd commit (\<lambda>_. ret result))"

definition finish ::
  "(bytes \<Rightarrow> bytes) \<Rightarrow> 's store \<Rightarrow> nat \<Rightarrow> (bytes \<times> int) option \<Rightarrow> AdvanceOutcome \<Rightarrow> Sink \<Rightarrow> ('s Ledger, AdvanceResult) prog" where
  "finish H S mrk chargeable outcome sink =
     (case outcome of
        Accept \<Rightarrow> settle H S chargeable (finished OAccept (emissions sink))
      | Fail data \<Rightarrow> settle H S chargeable (finished OFail (emissions sink @ [Report (tagged TAG_FAIL data)]))
      | Revert data \<Rightarrow>
          bnd (rollback_to H S mrk) (\<lambda>_.
          settle H S chargeable (finished ORevert (reportsOnly sink @ [Report (tagged TAG_REVERT data)])))
      | Reject reason \<Rightarrow> bnd (rollbackAll H S) (\<lambda>_. ret (rejected reason)))"

definition execute ::
  "(bytes \<Rightarrow> bytes) \<Rightarrow> 's store \<Rightarrow> Viem \<Rightarrow> ('s, 'r) Router \<Rightarrow> TxContext \<Rightarrow> nat \<Rightarrow> (bytes \<times> int) option \<Rightarrow>
     (('s, 'r) World, AdvanceResult) prog" where
  "execute H S V R ctx mrk chargeable =
     bnd (modify (\<lambda>w. w\<lparr>w_sink := BufferSink (b_inputIndex (ctx_block ctx))\<rparr>)) (\<lambda>_.
     bnd (try_catch
            (transfer_and_dispatch H S V R ctx (if ctx_isDeposit ctx then Some (ctx_sender ctx) else None))
            (\<lambda>e. ret (if chargeable \<noteq> None then Revert (errorRevert V (describe e)) else Reject (describe e)))) (\<lambda>outcome.
     bnd (gets w_sink) (\<lambda>sink.
     on_led (finish H S mrk chargeable outcome sink))))"

definition advanceDeposit ::
  "(bytes \<Rightarrow> bytes) \<Rightarrow> 's store \<Rightarrow> Viem \<Rightarrow> ('s, 'r) Router \<Rightarrow> BlockContext \<Rightarrow> DepositTx \<Rightarrow>
     (('s, 'r) World, AdvanceResult) prog" where
  "advanceDeposit H S V R block d =
     (case dep_to d of
        None \<Rightarrow>
          on_led (try_catch
            (bnd (creditEther H S (dep_from d) (int (dep_mint d))) (\<lambda>_. bnd commit (\<lambda>_. ret (finished OAccept []))))
            (\<lambda>_. bnd (rollbackAll H S) (\<lambda>_. ret (rejected ''mint refused''))))
      | Some dst \<Rightarrow>
          let ctx = \<lparr>ctx_block = block, ctx_sender = dep_from d, ctx_to = dst, ctx_value = dep_value d,
                     ctx_data = dep_data d, ctx_isDeposit = True, ctx_mint = dep_mint d\<rparr> in
          bnd (on_led (try_catch
                 (bnd (creditEther H S (dep_from d) (int (dep_mint d))) (\<lambda>_. ret None))
                 (\<lambda>_. bnd (rollbackAll H S) (\<lambda>_. ret (Some (rejected ''mint refused (drive full)'')))))) (\<lambda>refused.
          case refused of
            Some r \<Rightarrow> ret r
          | None \<Rightarrow> bnd (gets (\<lambda>w. mark (w_led w))) (\<lambda>afterMint. execute H S V R ctx afterMint None)))"

definition advanceSigned ::
  "(bytes \<Rightarrow> bytes) \<Rightarrow> 's store \<Rightarrow> Viem \<Rightarrow> ('s, 'r) Router \<Rightarrow> BlockContext \<Rightarrow> SignedTx \<Rightarrow>
     (('s, 'r) World, AdvanceResult) prog" where
  "advanceSigned H S V R block tx =
     (case sg_to tx of
        None \<Rightarrow> ret (rejected ''contract creation is not supported'')
      | Some dst \<Rightarrow>
          if sg_chainId tx \<noteq> None \<and> sg_chainId tx \<noteq> Some (cfg_chainId R) then
            ret (rejected (''transaction signed for chain '' @ dec (the (sg_chainId tx))))
          else (case recoverSender V tx of
            None \<Rightarrow> ret (rejected ''signature does not verify'')
          | Some sender \<Rightarrow>
              bnd (on_led (account H S sender)) (\<lambda>(n, b).
                if int (sg_nonce tx) \<noteq> n then
                  ret (rejected (''nonce '' @ dec (sg_nonce tx) @ '', account nonce '' @ dec_int n))
                else bnd (gets (\<lambda>w. fee (ram w))) (\<lambda>amount.
                  if b < amount + int (sg_value tx) then ret (rejected ''balance does not cover fee and value'')
                  else
                    let ctx = \<lparr>ctx_block = block, ctx_sender = sender, ctx_to = dst, ctx_value = sg_value tx,
                               ctx_data = sg_data tx, ctx_isDeposit = False, ctx_mint = 0\<rparr> in
                    bnd (gets (\<lambda>w. mark (w_led w))) (\<lambda>mrk. execute H S V R ctx mrk (Some (sender, amount)))))))"

definition router_advance ::
  "(bytes \<Rightarrow> bytes) \<Rightarrow> 's store \<Rightarrow> Viem \<Rightarrow> ('s, 'r) Router \<Rightarrow> BlockContext \<Rightarrow> bytes \<Rightarrow> (('s, 'r) World, AdvanceResult) prog" where
  "router_advance H S V R block raw =
     (case parseInput V raw of
        Opaque \<Rightarrow> ret (finished OOpaque [Report (tagged TAG_APP raw)])
      | Refused reason \<Rightarrow> ret (rejected reason)
      | Deposit d \<Rightarrow> advanceDeposit H S V R block d
      | Signed tx \<Rightarrow> advanceSigned H S V R block tx)"

section \<open>Inspect\<close>

definition emptyBlock :: "nat \<Rightarrow> BlockContext" where
  "emptyBlock chainId = \<lparr>b_chainId = chainId, b_appContract = zeros 20, b_blockNumber = 0, b_timestamp = 0,
     b_prevRandao = 0, b_inputIndex = 0\<rparr>"

definition answered :: "bool \<Rightarrow> byte \<Rightarrow> bytes \<Rightarrow> InspectResult" where
  "answered accept tag data = \<lparr>ir_accept = accept, ir_reports = [tagged tag data]\<rparr>"

definition inspect_call ::
  "(bytes \<Rightarrow> bytes) \<Rightarrow> 's store \<Rightarrow> Viem \<Rightarrow> ('s, 'r) Router \<Rightarrow> DecodedCall \<Rightarrow> (('s, 'r) World, InspectResult) prog" where
  "inspect_call H S V R call =
     bnd (gets (\<lambda>w. resolve R (dc_to call) None None (w_led w))) (\<lambda>h. case h of
       None \<Rightarrow> ret (answered True TAG_RETURN [])
     | Some handler \<Rightarrow> (case handler_view H S V R handler of
         None \<Rightarrow> ret (answered False TAG_REVERT (errorRevert V ''not a view target''))
       | Some view \<Rightarrow>
           try_catch
             (bnd (view \<lparr>call_sender = dc_from call, call_to = dc_to call, call_value = dc_value call,
                     call_data = dc_data call\<rparr>) (\<lambda>outcome. ret (case outcome of
                Return data \<Rightarrow> answered True TAG_RETURN data
              | VRevert data \<Rightarrow> answered False TAG_REVERT data)))
             (\<lambda>e. ret (answered False TAG_REVERT (errorRevert V (describe e))))))"

definition inspect_simulate ::
  "(bytes \<Rightarrow> bytes) \<Rightarrow> 's store \<Rightarrow> Viem \<Rightarrow> ('s, 'r) Router \<Rightarrow> DecodedCall \<Rightarrow> (('s, 'r) World, InspectResult) prog" where
  "inspect_simulate H S V R call =
     bnd (gets (\<lambda>w. mark (w_led w))) (\<lambda>mrk.
       let block = (case lastBlock R of Some b \<Rightarrow> b | None \<Rightarrow> emptyBlock (cfg_chainId R));
           ctx = \<lparr>ctx_block = block, ctx_sender = dc_from call, ctx_to = dc_to call, ctx_value = dc_value call,
                  ctx_data = dc_data call, ctx_isDeposit = False, ctx_mint = 0\<rparr> in
       bnd (modify (\<lambda>w. w\<lparr>w_sink := BufferSink (b_inputIndex block)\<rparr>)) (\<lambda>_.
       bnd (try_catch (transfer_and_dispatch H S V R ctx None)
              (\<lambda>e. ret (Revert (errorRevert V (describe e))))) (\<lambda>outcome.
       bnd (on_led (rollback_to H S mrk)) (\<lambda>_.
       ret (case outcome of
              Revert data \<Rightarrow> answered False TAG_REVERT data
            | Fail data \<Rightarrow> answered False TAG_FAIL data
            | _ \<Rightarrow> answered True TAG_RETURN [])))))"

definition router_inspect ::
  "(bytes \<Rightarrow> bytes) \<Rightarrow> 's store \<Rightarrow> Viem \<Rightarrow> ('s, 'r) Router \<Rightarrow> bytes \<Rightarrow> (('s, 'r) World, InspectResult) prog" where
  "router_inspect H S V R payload =
     (case decodeEvmCall V payload of
        None \<Rightarrow> ret (answered False TAG_REVERT (errorRevert V ''not an EvmCall query''))
      | Some call \<Rightarrow> if \<not> dc_simulate call then inspect_call H S V R call else inspect_simulate H S V R call)"

end
