(* ===== verification/Ledger_Abs.thy ===== *)
theory Ledger_Abs
  imports Ledger_Journal "HOL-Library.Sublist"
begin

text \<open>
  The ledger seen through the drive's abstraction: what each operation does to accounts and balances. \<open>labs\<close> is the
  abstract state of the drive below the ledger, and the lemmas \<open>..._runs\<close> give an operation's result and the abstract state
  it leaves, on every branch.
\<close>

definition labs :: "('s \<Rightarrow> bytes) \<Rightarrow> 's Ledger \<Rightarrow> Abs" where
  "labs contents l = abs_drive (l_drive l) (contents (fst (jst l)))"

definition nonceOf :: "Abs \<Rightarrow> bytes \<Rightarrow> nat" where
  "nonceOf a addr = (case a_acct a addr of None \<Rightarrow> 0 | Some (n, b) \<Rightarrow> n)"

definition etherOf :: "Abs \<Rightarrow> bytes \<Rightarrow> nat" where
  "etherOf a addr = (case a_acct a addr of None \<Rightarrow> 0 | Some (n, b) \<Rightarrow> b)"

text \<open>What a step of the ledger that only touches the drive keeps.\<close>

definition drive_step :: "('s \<Rightarrow> bytes) \<Rightarrow> ('s \<Rightarrow> bool) \<Rightarrow> (bytes \<Rightarrow> bytes) \<Rightarrow> 's Ledger \<Rightarrow> 's Ledger \<Rightarrow> bool" where
  "drive_step contents ok H l l' \<longleftrightarrow> ledger_inv contents ok H l' \<and> l_ram l' = l_ram l \<and> d_cfg (l_drive l') = d_cfg (l_drive l)"

text \<open>Ether moved at one address, everything else kept.\<close>

definition ether_moved :: "Abs \<Rightarrow> Abs \<Rightarrow> bytes \<Rightarrow> int \<Rightarrow> bool" where
  "ether_moved a a' addr v \<longleftrightarrow>
     (\<forall>x. int (etherOf a' x) = int (etherOf a x) + (if x = addr then v else 0)) \<and>
     (\<forall>x. nonceOf a' x = nonceOf a x) \<and> a_bal a' = a_bal a \<and> a_toks a' = a_toks a \<and> a_sparse a' = a_sparse a"

definition charged :: "NormalizedConfig \<Rightarrow> bytes \<Rightarrow> int \<Rightarrow> Abs \<Rightarrow> Abs \<Rightarrow> bool" where
  "charged c addr amount a a' \<longleftrightarrow>
     nonceOf a' addr = (nonceOf a addr + 1) mod 256 ^ nonce_bytes c \<and>
     int (etherOf a' addr) = int (etherOf a addr) - amount \<and>
     (\<forall>x. x \<noteq> addr \<longrightarrow> a_acct a' x = a_acct a x) \<and> a_bal a' = a_bal a \<and> a_toks a' = a_toks a \<and> a_sparse a' = a_sparse a"

definition token_moved :: "Abs \<Rightarrow> Abs \<Rightarrow> nat \<Rightarrow> bytes \<Rightarrow> int \<Rightarrow> bool" where
  "token_moved a a' tid addr v \<longleftrightarrow>
     (\<forall>t x. int (a_bal a' t x) = int (a_bal a t x) + (if t = tid \<and> x = addr then v else 0)) \<and>
     (\<forall>x. nonceOf a' x = nonceOf a x) \<and> (\<forall>x. etherOf a' x = etherOf a x) \<and> a_toks a' = a_toks a"

definition total_moved :: "Ram \<Rightarrow> Ram \<Rightarrow> nat \<Rightarrow> int \<Rightarrow> bool" where
  "total_moved r r' tid v \<longleftrightarrow> r' = r\<lparr>totals := totals r'\<rparr> \<and>
     (\<forall>t. totalSupply t r' = totalSupply t r + (if t = tid then v else 0))"

lemma spec_setTokenBalance_moves:
  fixes a :: Abs
  assumes absent: "profile c = ProfileWide \<Longrightarrow> a_acct a addr = None \<Longrightarrow> a_bal a tid addr = 0"
  shows "(\<exists>a'. spec_setTokenBalance c addr (int tid) v a = (Ok (), a') \<and> token_moved a a' tid addr (v - int (a_bal a tid addr))) \<or>
    (\<exists>e. spec_setTokenBalance c addr (int tid) v a = (Throw e, a))"
proof (cases "isZero addr \<or> \<not> tid < length (a_toks a) \<or> \<not> (0 \<le> v \<and> v < 256 ^ tok_width (a_toks a ! tid))")
  case True
  then show ?thesis by (auto simp: spec_setTokenBalance_def)
next
  case False
  let ?bal = "(a_bal a)(tid := (a_bal a tid)(addr := nat v))"
  have put: "token_moved a (a\<lparr>a_bal := ?bal, a_sparse := n\<rparr>) tid addr (v - int (a_bal a tid addr))"
    "token_moved a (a\<lparr>a_bal := ?bal\<rparr>) tid addr (v - int (a_bal a tid addr))"
    "a_acct a addr = None \<Longrightarrow>
      token_moved a (a\<lparr>a_bal := ?bal, a_acct := (a_acct a)(addr \<mapsto> (0, 0)), a_live := n\<rparr>) tid addr (v - int (a_bal a tid addr))"
    "v = 0 \<Longrightarrow> a_bal a tid addr = 0 \<Longrightarrow> token_moved a a tid addr (v - int (a_bal a tid addr))" for n
    using False by (auto simp: token_moved_def nonceOf_def etherOf_def)
  consider "profile c = ProfileWide" | "profile c \<noteq> ProfileWide" "profile c = ProfileSparse"
    | "profile c \<noteq> ProfileWide" "profile c \<noteq> ProfileSparse" by blast
  then show ?thesis
  proof cases
    case 1
    with False put(2-4) absent show ?thesis by (cases "a_acct a addr") (simp_all add: spec_setTokenBalance_def Let_def)
  next
    case 2
    with False put(1) [of "Suc (a_sparse a)"] put(1) [of "a_sparse a"] put(1) [of "a_sparse a - Suc 0"] put(4)
    show ?thesis by (cases "a_bal a tid addr = 0"; cases "v = 0") (simp_all add: spec_setTokenBalance_def Let_def)
  next
    case 3
    with False show ?thesis by (simp add: spec_setTokenBalance_def Let_def)
  qed
qed

lemma le_dec_slice: "le_dec (slice xs off n) < 256 ^ n"
proof -
  have "(256 :: nat) ^ length (slice xs off n) \<le> 256 ^ n" by (intro power_increasing) (simp_all add: slice_def)
  with le_dec_bound [of "slice xs off n"] show ?thesis by (rule less_le_trans)
qed

lemma readBE_slice: "readBE (slice xs off n) < 256 ^ n"
proof -
  have "(256 :: nat) ^ length (slice xs off n) \<le> 256 ^ n" by (intro power_increasing) (simp_all add: slice_def)
  with readBE_bound [of "slice xs off n"] show ?thesis by (rule less_le_trans)
qed

lemma nonce_bound:
  assumes "drive_inv H bs d" and "a_acct (abs_drive d bs) addr = Some (n, b)"
  shows "n < 256 ^ nonce_bytes (d_cfg d)" and "b < 256 ^ balance_bytes (d_cfg d)"
proof -
  let ?c = "d_cfg d"
  obtain sl where sl: "tget (accountsTable ?c) bs addr = Some sl" "acct_dec ?c sl = (n, b)"
    using assms(2) by (auto simp: abs_drive_def)
  have "n = (if compact ?c then le_dec (slice sl 20 4) else le_dec (slice sl 24 8))"
    and "b = (if compact ?c then readBE (slice sl 24 8) else readBE (slice sl 32 32))"
    using sl(2) by (auto simp: acct_dec_def split: if_splits)
  moreover have "le_dec (slice sl 20 4) < 256 ^ 4" "le_dec (slice sl 24 8) < 256 ^ 8"
    and "readBE (slice sl 24 8) < 256 ^ 8" "readBE (slice sl 32 32) < 256 ^ 32"
    by (intro le_dec_slice readBE_slice)+
  ultimately show "n < 256 ^ nonce_bytes ?c" and "b < 256 ^ balance_bytes ?c"
    by (auto simp: nonce_bytes_def balance_bytes_def)
qed

context byte_store
begin

lemma led_runs:
  assumes ref: "\<And>bs0 log0 R. drive_refines (contents \<circ> fst) (jok contents ok bs0 log0 R) H m sp"
    and toks: "\<And>c a. a_toks (snd (sp c a)) = a_toks a"
    and inv: "ledger_inv contents ok H l"
  obtains l' where "on_led_drive m l = (fst (sp (d_cfg (l_drive l)) (labs contents l)), l')"
    and "labs contents l' = snd (sp (d_cfg (l_drive l)) (labs contents l))" and "drive_step contents ok H l l'"
proof -
  have j: "jok contents ok (contents (fst (jst l))) (snd (jst l)) [] (jst l)"
    and d: "drive_inv H ((contents \<circ> fst) (jst l)) (l_drive l)"
    using inv by (auto simp: ledger_inv_def jok_def)
  from drive_refinesE [OF ref j d] obtain r j' d' where m: "m (jst l, l_drive l) = (r, (j', d'))"
      "jok contents ok (contents (fst (jst l))) (snd (jst l)) [] j'" "drive_inv H ((contents \<circ> fst) j') d'"
      "d_cfg d' = d_cfg (l_drive l)"
      "sp (d_cfg (l_drive l)) (abs_drive (l_drive l) ((contents \<circ> fst) (jst l))) = (r, abs_drive d' ((contents \<circ> fst) j'))"
    by blast
  have "a_toks (abs_drive d' ((contents \<circ> fst) j')) = a_toks (abs_drive (l_drive l) ((contents \<circ> fst) (jst l)))"
    using toks m(5) by (metis snd_conv)
  then have t: "d_tokens d' = d_tokens (l_drive l)" by (simp add: abs_drive_def)
  show ?thesis
  proof (rule that)
    show "on_led_drive m l = (fst (sp (d_cfg (l_drive l)) (labs contents l)), l\<lparr>jst := j', l_drive := d'\<rparr>)"
      using m(1,5) by (simp add: on_led_drive_def zoom_run labs_def)
    show "labs contents (l\<lparr>jst := j', l_drive := d'\<rparr>) = snd (sp (d_cfg (l_drive l)) (labs contents l))"
      using m(5) by (simp add: labs_def)
    show "drive_step contents ok H l (l\<lparr>jst := j', l_drive := d'\<rparr>)"
      using m inv t by (auto simp: drive_step_def ledger_inv_def jok_def)
  qed
qed

lemma account_runs:
  assumes "keccak_digest H" and "length addr = 20" and inv: "ledger_inv contents ok H l"
  shows "account H S addr l =
      (if isZero addr then Throw err_zeroAddress
       else Ok (int (nonceOf (labs contents l) addr), int (etherOf (labs contents l) addr)), l)"
proof -
  have "jok contents ok (contents (fst (jst l))) (snd (jst l)) [] (jst l)"
    and "drive_inv H ((contents \<circ> fst) (jst l)) (l_drive l)"
    using inv by (auto simp: ledger_inv_def jok_def)
  note byte_store.getAccount_runs [OF journaled_byte_store assms(1,2) this]
  then show ?thesis
    by (simp add: account_def on_led_drive_def zoom_run spec_getAccount_def nonceOf_def etherOf_def labs_def split: option.split)
qed

lemma led_setAccount_runs:
  assumes "keccak_digest H" and "length addr = 20" and inv: "ledger_inv contents ok H l"
  obtains l' where "led_setAccount H S addr n b l = (fst (spec_setAccount (d_cfg (l_drive l)) addr n b (labs contents l)), l')"
    and "labs contents l' = snd (spec_setAccount (d_cfg (l_drive l)) addr n b (labs contents l))"
    and "drive_step contents ok H l l'"
  unfolding led_setAccount_def
  by (rule led_runs [OF byte_store.setAccount_refines [OF journaled_byte_store assms(1,2)] _ inv])
    (auto simp: spec_setAccount_def)

lemma setAccount_moves:
  assumes "keccak_digest H" and "length addr = 20" and inv: "ledger_inv contents ok H l"
    and n: "n = int (nonceOf (labs contents l) addr)"
  obtains (Ok) l' where "led_setAccount H S addr n b l = (Ok (), l')" and "drive_step contents ok H l l'"
      and "ether_moved (labs contents l) (labs contents l') addr (b - int (etherOf (labs contents l) addr))"
  | (Throw) e l' where "led_setAccount H S addr n b l = (Throw e, l')" and "drive_step contents ok H l l'"
      and "labs contents l' = labs contents l"
proof -
  let ?a = "labs contents l" and ?c = "d_cfg (l_drive l)"
  obtain l' where l': "led_setAccount H S addr n b l = (fst (spec_setAccount ?c addr n b ?a), l')"
      "labs contents l' = snd (spec_setAccount ?c addr n b ?a)" "drive_step contents ok H l l'"
    by (rule led_setAccount_runs [OF assms(1-3)])
  have "nonceOf ?a addr < 256 ^ nonce_bytes ?c"
    using nonce_bound(1) [of H "contents (fst (jst l))" "l_drive l" addr] inv
    by (auto simp: nonceOf_def labs_def ledger_inv_def split: option.split)
  then have "nat (n mod 256 ^ nonce_bytes ?c) = nonceOf ?a addr"
    using n by (metis mod_less nat_int of_nat_numeral of_nat_power zmod_int)
  then show ?thesis
    using l' that by (auto simp: spec_setAccount_def ether_moved_def nonceOf_def etherOf_def split: if_splits)
qed

lemma update_runs:
  assumes "keccak_digest H" and "length addr = 20" and inv: "ledger_inv contents ok H l"
  obtains (Ok) l' where
      "bnd (account H S addr) (\<lambda>(n, b). if P b then raise e else led_setAccount H S addr n (f b)) l = (Ok (), l')"
      and "drive_step contents ok H l l'" and "\<not> P (int (etherOf (labs contents l) addr))"
      and "ether_moved (labs contents l) (labs contents l') addr
        (f (int (etherOf (labs contents l) addr)) - int (etherOf (labs contents l) addr))"
  | (Throw) e' l' where
      "bnd (account H S addr) (\<lambda>(n, b). if P b then raise e else led_setAccount H S addr n (f b)) l = (Throw e', l')"
      and "drive_step contents ok H l l'" and "labs contents l' = labs contents l"
proof -
  let ?n = "int (nonceOf (labs contents l) addr)" and ?b = "int (etherOf (labs contents l) addr)"
  note l1 = account_runs [OF assms]
  show ?thesis
  proof (cases "isZero addr \<or> P ?b")
    case True
    with l1 inv that(2) [of _ l] show ?thesis by (auto simp: drive_step_def split: if_splits)
  next
    case False
    show ?thesis
    proof (rule setAccount_moves [OF assms HOL.refl, of "f ?b"])
      fix l'
      assume "led_setAccount H S addr ?n (f ?b) l = (Ok (), l')" "drive_step contents ok H l l'"
        "ether_moved (labs contents l) (labs contents l') addr (f ?b - ?b)"
      with False l1 that(1) [of l'] show ?thesis by simp
    next
      fix e' l'
      assume "led_setAccount H S addr ?n (f ?b) l = (Throw e', l')"
        "drive_step contents ok H l l'" "labs contents l' = labs contents l"
      with False l1 that(2) [of e' l'] show ?thesis by simp
    qed
  qed
qed

lemma creditEther_runs:
  assumes "keccak_digest H" and "length addr = 20" and inv: "ledger_inv contents ok H l"
  obtains (Ok) l' where "creditEther H S addr (int v) l = (Ok (), l')" and "drive_step contents ok H l l'"
      and "ether_moved (labs contents l) (labs contents l') addr (int v)"
  | (Throw) e l' where "creditEther H S addr (int v) l = (Throw e, l')" and "drive_step contents ok H l l'"
      and "labs contents l' = labs contents l"
proof (cases "v = 0")
  case True
  then show ?thesis using inv that(1) [of l] by (simp add: creditEther_def drive_step_def ether_moved_def)
next
  case False
  then have eq: "creditEther H S addr (int v) =
      bnd (account H S addr) (\<lambda>(n, b). if False then raise (Error []) else led_setAccount H S addr n (b + int v))"
    by (simp add: creditEther_def)
  show ?thesis
    by (rule update_runs [OF assms, where P = "\<lambda>_. False" and e = "Error []" and f = "\<lambda>b. b + int v"])
      (use that in \<open>auto simp: eq\<close>)
qed

lemma debitEther_runs:
  assumes "keccak_digest H" and "length addr = 20" and inv: "ledger_inv contents ok H l"
  obtains (Ok) l' where "debitEther H S addr (int v) l = (Ok (), l')" and "drive_step contents ok H l l'"
      and "ether_moved (labs contents l) (labs contents l') addr (- int v)"
  | (Throw) e l' where "debitEther H S addr (int v) l = (Throw e, l')" and "drive_step contents ok H l l'"
      and "labs contents l' = labs contents l"
proof (cases "v = 0")
  case True
  then show ?thesis using inv that(1) [of l] by (simp add: debitEther_def drive_step_def ether_moved_def)
next
  case False
  then have eq: "debitEther H S addr (int v) = bnd (account H S addr) (\<lambda>(n, b).
      if b < int v then raise (InsufficientFunds ''insufficient ether balance'') else led_setAccount H S addr n (b - int v))"
    by (simp add: debitEther_def)
  show ?thesis
    by (rule update_runs [OF assms, where P = "\<lambda>b. b < int v" and f = "\<lambda>b. b - int v"
          and e = "InsufficientFunds ''insufficient ether balance''"])
      (use that in \<open>auto simp: eq\<close>)
qed

text \<open>The charge of a transaction: one more on the nonce, the fee off the balance.\<close>

lemma bumpNonceAndCharge_runs:
  assumes "keccak_digest H" and "length addr = 20" and inv: "ledger_inv contents ok H l"
  obtains (Ok) l' where "bumpNonceAndCharge H S addr amount l = (Ok (), l')" and "drive_step contents ok H l l'"
      and "charged (d_cfg (l_drive l)) addr amount (labs contents l) (labs contents l')"
  | (Throw) e l' where "bumpNonceAndCharge H S addr amount l = (Throw e, l')" and "drive_step contents ok H l l'"
      and "labs contents l' = labs contents l"
proof -
  let ?a = "labs contents l" and ?c = "d_cfg (l_drive l)"
  let ?n = "int (nonceOf ?a addr)" and ?b = "int (etherOf ?a addr)"
  note l1 = account_runs [OF assms]
  show ?thesis
  proof (cases "isZero addr \<or> ?b < amount")
    case True
    with l1 inv that(2) [of _ l] show ?thesis by (auto simp: bumpNonceAndCharge_def drive_step_def split: if_splits)
  next
    case False
    obtain l' where l': "led_setAccount H S addr (?n + 1) (?b - amount) l = (fst (spec_setAccount ?c addr (?n + 1) (?b - amount) ?a), l')"
        "labs contents l' = snd (spec_setAccount ?c addr (?n + 1) (?b - amount) ?a)" "drive_step contents ok H l l'"
      by (rule led_setAccount_runs [OF assms])
    have run: "bumpNonceAndCharge H S addr amount l = led_setAccount H S addr (?n + 1) (?b - amount) l"
      using False l1 by (simp add: bumpNonceAndCharge_def)
    have "nat ((?n + 1) mod 256 ^ nonce_bytes ?c) = (nonceOf ?a addr + 1) mod 256 ^ nonce_bytes ?c"
      by (metis nat_int of_nat_1 of_nat_add of_nat_numeral of_nat_power zmod_int)
    then show ?thesis
      using l' False run that
      by (auto simp: spec_setAccount_def charged_def nonceOf_def etherOf_def split: if_splits)
  qed
qed

lemma tokenBalance_runs:
  assumes "keccak_digest H" and "length addr = 20" and inv: "ledger_inv contents ok H l"
  shows "tokenBalance H S addr tid l = (Ok (int (a_bal (labs contents l) tid addr)), l) \<or> (\<exists>e. tokenBalance H S addr tid l = (Throw e, l))"
proof -
  have "jok contents ok (contents (fst (jst l))) (snd (jst l)) [] (jst l)"
    and "drive_inv H ((contents \<circ> fst) (jst l)) (l_drive l)"
    using inv by (auto simp: ledger_inv_def jok_def)
  note run = byte_store.getTokenBalance_runs [OF journaled_byte_store assms(1,2) this, of "int tid"]
  obtain r where r: "fst (spec_getTokenBalance (d_cfg (l_drive l)) addr (int tid) (labs contents l)) = r" by blast
  then have "tokenBalance H S addr tid l = (case r of Ok b \<Rightarrow> Ok (int b) | Throw e \<Rightarrow> Throw e | Diverge \<Rightarrow> Diverge, l)"
    using run by (cases r) (simp_all add: tokenBalance_def on_led_drive_def zoom_run labs_def)
  with r show ?thesis by (auto simp: spec_getTokenBalance_def split: if_splits)
qed

lemma led_setTokenBalance_moves:
  assumes "keccak_digest H" and "length addr = 20" and inv: "ledger_inv contents ok H l"
  obtains (Ok) l' where "led_setTokenBalance H S addr tid v l = (Ok (), l')" and "drive_step contents ok H l l'"
      and "token_moved (labs contents l) (labs contents l') tid addr (v - int (a_bal (labs contents l) tid addr))"
  | (Throw) e l' where "led_setTokenBalance H S addr tid v l = (Throw e, l')" and "drive_step contents ok H l l'"
      and "labs contents l' = labs contents l"
proof -
  let ?a = "labs contents l" and ?c = "d_cfg (l_drive l)"
  have "a_toks (snd (spec_setTokenBalance c addr (int tid) v a)) = a_toks a" for c a
    by (simp add: spec_setTokenBalance_def Let_def)
  from led_runs [OF byte_store.setTokenBalance_refines [OF journaled_byte_store assms(1,2)] this inv]
  obtain l' where l': "led_setTokenBalance H S addr tid v l = (fst (spec_setTokenBalance ?c addr (int tid) v ?a), l')"
      "labs contents l' = snd (spec_setTokenBalance ?c addr (int tid) v ?a)" "drive_step contents ok H l l'"
    unfolding led_setTokenBalance_def by blast
  have absent: "a_bal ?a tid addr = 0" if "profile ?c = ProfileWide" "a_acct ?a addr = None"
    using that by (auto simp: labs_def abs_drive_def bal_of_def Let_def)
  show ?thesis
    using spec_setTokenBalance_moves [of ?c ?a addr tid v, OF absent] l' that by auto
qed

text \<open>A balance and its total move together, or nothing does.\<close>

lemma moveToken_runs:
  assumes "keccak_digest H" and "length addr = 20" and inv: "ledger_inv contents ok H l"
  obtains (Ok) l' where "bnd (tokenBalance H S addr tid) (\<lambda>b. if P b then raise e
        else bnd (led_setTokenBalance H S addr tid (b + v)) (\<lambda>_. addTotal tid v)) l = (Ok (), l')"
      and "ledger_inv contents ok H l'" and "token_moved (labs contents l) (labs contents l') tid addr v"
      and "total_moved (l_ram l) (l_ram l') tid v"
  | (Throw) e' l' where "bnd (tokenBalance H S addr tid) (\<lambda>b. if P b then raise e
        else bnd (led_setTokenBalance H S addr tid (b + v)) (\<lambda>_. addTotal tid v)) l = (Throw e', l')"
      and "ledger_inv contents ok H l'" and "labs contents l' = labs contents l" and "l_ram l' = l_ram l"
proof -
  let ?b = "int (a_bal (labs contents l) tid addr)"
  consider (bad) e' where "tokenBalance H S addr tid l = (Throw e', l)" | (refused) "tokenBalance H S addr tid l = (Ok ?b, l)" "P ?b"
    | (good) "tokenBalance H S addr tid l = (Ok ?b, l)" "\<not> P ?b"
    using tokenBalance_runs [OF assms, of tid] by blast
  then show ?thesis
  proof cases
    case bad
    with inv that(2) [of e' l] show ?thesis by simp
  next
    case refused
    with inv that(2) [of e l] show ?thesis by simp
  next
    case good
    show ?thesis
    proof (rule led_setTokenBalance_moves [OF assms, of tid "?b + v"])
      fix e' l'
      assume "led_setTokenBalance H S addr tid (?b + v) l = (Throw e', l')"
        "drive_step contents ok H l l'" "labs contents l' = labs contents l"
      with good that(2) [of e' l'] show ?thesis by (simp add: drive_step_def)
    next
      fix l'
      assume l': "led_setTokenBalance H S addr tid (?b + v) l = (Ok (), l')" "drive_step contents ok H l l'"
        "token_moved (labs contents l) (labs contents l') tid addr (?b + v - ?b)"
      let ?l = "l'\<lparr>jst := (fst (jst l'), UTotal tid (totalSupply tid (l_ram l')) # snd (jst l')),
          l_ram := (l_ram l')\<lparr>totals := (totals (l_ram l'))(tid \<mapsto> totalSupply tid (l_ram l') + v)\<rparr>\<rparr>"
      have "addTotal tid v l' = (Ok (), ?l)" by (simp add: addTotal_def journal_note_def map_ram_def)
      then have "bnd (tokenBalance H S addr tid) (\<lambda>b. if P b then raise e
          else bnd (led_setTokenBalance H S addr tid (b + v)) (\<lambda>_. addTotal tid v)) l = (Ok (), ?l)"
        using good l'(1) by simp
      moreover have "ledger_inv contents ok H ?l" using l'(2) by (auto simp: drive_step_def ledger_inv_def)
      moreover have "token_moved (labs contents l) (labs contents ?l) tid addr v"
        using l'(3) by (simp add: labs_def)
      moreover have "total_moved (l_ram l) (l_ram ?l) tid v"
        using l'(2) by (simp add: total_moved_def totalSupply_def drive_step_def)
      ultimately show ?thesis by (rule that(1))
    qed
  qed
qed

lemma creditToken_runs:
  assumes "keccak_digest H" and "length addr = 20" and inv: "ledger_inv contents ok H l"
  obtains (Ok) l' where "creditToken H S addr tid (int v) l = (Ok (), l')" and "ledger_inv contents ok H l'"
      and "token_moved (labs contents l) (labs contents l') tid addr (int v)" and "total_moved (l_ram l) (l_ram l') tid (int v)"
  | (Throw) e l' where "creditToken H S addr tid (int v) l = (Throw e, l')" and "ledger_inv contents ok H l'"
      and "labs contents l' = labs contents l" and "l_ram l' = l_ram l"
proof (cases "v = 0")
  case True
  then show ?thesis using inv that(1) [of l] by (simp add: creditToken_def token_moved_def total_moved_def)
next
  case False
  then have eq: "creditToken H S addr tid (int v) = bnd (tokenBalance H S addr tid) (\<lambda>b. if False then raise (Error [])
      else bnd (led_setTokenBalance H S addr tid (b + int v)) (\<lambda>_. addTotal tid (int v)))"
    by (simp add: creditToken_def)
  show ?thesis
    by (rule moveToken_runs [OF assms, where P = "\<lambda>_. False" and e = "Error []" and v = "int v"])
      (use that in \<open>auto simp: eq\<close>)
qed

lemma debitToken_runs:
  assumes "keccak_digest H" and "length addr = 20" and inv: "ledger_inv contents ok H l"
  obtains (Ok) l' where "debitToken H S addr tid (int v) l = (Ok (), l')" and "ledger_inv contents ok H l'"
      and "token_moved (labs contents l) (labs contents l') tid addr (- int v)" and "total_moved (l_ram l) (l_ram l') tid (- int v)"
  | (Throw) e l' where "debitToken H S addr tid (int v) l = (Throw e, l')" and "ledger_inv contents ok H l'"
      and "labs contents l' = labs contents l" and "l_ram l' = l_ram l"
proof (cases "v = 0")
  case True
  then show ?thesis using inv that(1) [of l] by (simp add: debitToken_def token_moved_def total_moved_def)
next
  case False
  then have eq: "debitToken H S addr tid (int v) l = bnd (tokenBalance H S addr tid) (\<lambda>b.
      if b < int v then raise (InsufficientFunds ''insufficient token balance'')
      else bnd (led_setTokenBalance H S addr tid (b + - int v)) (\<lambda>_. addTotal tid (- int v))) l"
    unfolding debitToken_def diff_conv_add_uminus by (simp only: of_nat_eq_0_iff if_False)
  show ?thesis
    using that unfolding eq by (rule moveToken_runs [OF assms])
qed

lemma led_registerToken_runs:
  assumes addr: "length addr = 20" and inv: "ledger_inv contents ok H l"
  obtains r l' where "led_registerToken H S addr md l = (r, l')" and "ledger_inv contents ok H l'"
    and "a_acct (labs contents l') = a_acct (labs contents l)" and "a_bal (labs contents l') = a_bal (labs contents l)"
    and "prefix (a_toks (labs contents l)) (a_toks (labs contents l'))"
    and "l_ram l' = (l_ram l)\<lparr>facades := facades (l_ram l'), metadata := metadata (l_ram l')\<rparr>" and "r \<noteq> Diverge"
proof -
  let ?c = "d_cfg (l_drive l)" and ?run = "led_registerToken H S addr md l"
  have j: "jok contents ok (contents (fst (jst l))) (snd (jst l)) [] (jst l)"
    and d: "drive_inv H ((contents \<circ> fst) (jst l)) (l_drive l)"
    using inv by (auto simp: ledger_inv_def jok_def)
  from drive_refinesE [OF byte_store.registerToken_refines [OF journaled_byte_store addr] j d, of 32]
  obtain r j' d' where m: "registerToken (JournaledStore S) (ABytes addr) 32 (jst l, l_drive l) = (r, (j', d'))"
      "spec_registerToken ?c addr 32 (labs contents l) = (r, abs_drive d' (contents (fst j')))"
    unfolding labs_def comp_def by blast
  have "abs_drive d' (contents (fst j')) = snd (spec_registerToken ?c addr 32 (labs contents l))" using m(2) by simp
  then have acct: "a_acct (abs_drive d' (contents (fst j'))) = a_acct (labs contents l)"
      "a_bal (abs_drive d' (contents (fst j'))) = a_bal (labs contents l)"
      "prefix (a_toks (labs contents l)) (a_toks (abs_drive d' (contents (fst j'))))"
    by (simp_all add: spec_registerToken_def split: res.split)
  have "register_check ?c (a_toks (labs contents l)) addr 32 \<noteq> Diverge" by (simp add: register_check_def Let_def)
  then have r: "r \<noteq> Diverge" using m(2) by (auto simp: spec_registerToken_def split: res.splits)
  have drv: "l_drive (snd ?run) = d'" "fst (jst (snd ?run)) = fst j'" "fst ?run \<noteq> Diverge"
      "l_ram (snd ?run) = (l_ram l)\<lparr>facades := facades (l_ram (snd ?run)), metadata := metadata (l_ram (snd ?run))\<rparr>"
    using m(1) r by (cases r; cases md;
        simp add: led_registerToken_def on_led_drive_def zoom_run map_ram_def journal_note_def setMetadata_def Let_def)+
  show ?thesis
  proof (rule that [of "fst ?run" "snd ?run"])
    show "ledger_inv contents ok H (snd ?run)"
      using journaledD [OF led_registerToken_journaled [OF addr] since_refl [OF inv], of md] by (metis prod.collapse since_def)
  qed (use acct drv in \<open>auto simp: labs_def\<close>)
qed

end

section \<open>Supply\<close>

text \<open>The circulating total the facade reports is the sum of the balances.\<close>

definition circulating :: "Abs \<Rightarrow> nat \<Rightarrow> nat" where
  "circulating a tid = (\<Sum>x | length x = 20. a_bal a tid x)"

definition supply_inv :: "('s \<Rightarrow> bytes) \<Rightarrow> 's Ledger \<Rightarrow> bool" where
  "supply_inv contents l \<longleftrightarrow> (\<forall>tid. totalSupply tid (l_ram l) = int (circulating (labs contents l) tid))"

lemma finite_addresses: "finite {x :: bytes. length x = 20}"
  using finite_lists_length_eq [of "UNIV :: byte set" 20] by simp

lemma supply_moved:
  assumes "token_moved a a' tid addr v" and "length addr = 20"
  shows "int (circulating a' t) = int (circulating a t) + (if t = tid then v else 0)"
proof -
  have "int (circulating a' t) = (\<Sum>x | length x = 20. int (a_bal a t x) + (if t = tid \<and> x = addr then v else 0))"
    using assms(1) by (simp add: circulating_def token_moved_def)
  also have "\<dots> = int (circulating a t) + (\<Sum>x | length x = 20. if t = tid \<and> x = addr then v else 0)"
    by (simp add: circulating_def sum.distrib)
  also have "(\<Sum>x | length x = 20. if t = tid \<and> x = addr then v else 0) = (if t = tid then v else 0)"
    using finite_addresses assms(2) by (cases "t = tid") (simp_all add: sum.delta)
  finally show ?thesis .
qed

lemma supply_inv_moved:
  assumes "supply_inv contents l" and "token_moved (labs contents l) (labs contents l') tid addr v"
    and "total_moved (l_ram l) (l_ram l') tid v" and "length addr = 20"
  shows "supply_inv contents l'"
  using assms(1,3) supply_moved [OF assms(2,4)] by (simp add: supply_inv_def total_moved_def)

end
