(* ===== verification/Handler_Steps.thy ===== *)
theory Handler_Steps
  imports Router Ledger_Abs
begin

text \<open>
  Handlers as clients of the ledger. The locale \<open>ledger_client\<close> names what a handler may call: a preorder \<open>R\<close> on ledgers
  that every ledger operation respects, the two registrations under their guards. Every built-in handler then respects \<open>R\<close>,
  whatever it returns or throws (\<open>steps\<close>). \<open>relay_client\<close> adds what rolling back to a mark gives, which is what the messenger
  needs. The preorders it is used with are the journal's, \<open>keeps_since\<close>, and those of Router_Inv.
\<close>

section \<open>Inputs\<close>

fun abi_ok :: "abi \<Rightarrow> bool" where
  "abi_ok (VAddr a) \<longleftrightarrow> length a = 20"
| "abi_ok v \<longleftrightarrow> True"

text \<open>What the code relies on of \<^verbatim>\<open>viem\<close>: an address it decodes, parses or recovers has 20 bytes.\<close>

definition viem_ok :: "Viem \<Rightarrow> bool" where
  "viem_ok V \<longleftrightarrow>
     (\<forall>fns data fn args. decodeFunctionData V fns data = Ok (fn, args) \<longrightarrow> list_all abi_ok args) \<and>
     (\<forall>ts data args. decodeAbiParameters V ts data = Ok args \<longrightarrow> list_all abi_ok args) \<and>
     (\<forall>raw tx. parseTransaction V raw = Ok tx \<longrightarrow>
        (\<forall>a. tx_from tx = Some a \<longrightarrow> length a = 20) \<and> (\<forall>a. tx_to tx = Some a \<longrightarrow> length a = 20)) \<and>
     (\<forall>raw a. recoverTransactionAddress V raw = Ok a \<longrightarrow> length a = 20)"

definition ctx_ok :: "TxContext \<Rightarrow> bool" where
  "ctx_ok ctx \<longleftrightarrow> length (ctx_sender ctx) = 20 \<and> length (ctx_to ctx) = 20"

definition steps :: "('s Ledger \<Rightarrow> 's Ledger \<Rightarrow> bool) \<Rightarrow> (('s, 'r) World, 'a) prog \<Rightarrow> bool" where
  "steps R m \<longleftrightarrow> (\<forall>w. R (w_led w) (w_led (snd (m w))))"

named_theorems steps_intros \<open>programs that respect a preorder on ledgers\<close>

lemma decode_ok: "tryDecodeCalldata V fns data = Some (fn, args) \<Longrightarrow> viem_ok V \<Longrightarrow> list_all abi_ok args"
  by (auto simp: tryDecodeCalldata_def viem_ok_def split: res.splits)

lemma length_address [simp]:
  "length REGISTRY_ADDRESS = 20" "length BRIDGE_ADDRESS = 20" "length CONFIG_ADDRESS = 20" "length L1BLOCK_ADDRESS = 20"
  "length L2_MESSENGER_ADDRESS = 20" "length L2_BRIDGE_ADDRESS = 20" "length MESSAGE_PASSER_ADDRESS = 20"
  "length ZERO_ADDRESS = 20"
  by (simp_all add: address_defs)

lemma length_addressAt: "off + 20 \<le> length data \<Longrightarrow> length (addressAt data off) = 20"
  by (simp add: addressAt_def)

lemma stepsD: "steps R m \<Longrightarrow> m w = (r, w') \<Longrightarrow> R (w_led w) (w_led w')"
  unfolding steps_def by (metis snd_conv)

lemma steps_case_option [steps_intros]:
  "(x = None \<Longrightarrow> steps R f) \<Longrightarrow> (\<And>a. x = Some a \<Longrightarrow> steps R (g a)) \<Longrightarrow> steps R (case x of None \<Rightarrow> f | Some a \<Rightarrow> g a)"
  by (cases x) auto

lemma steps_case_prod [steps_intros]: "(\<And>a b. x = (a, b) \<Longrightarrow> steps R (f a b)) \<Longrightarrow> steps R (case x of (a, b) \<Rightarrow> f a b)"
  by (cases x) auto

lemma steps_case_list [steps_intros]:
  "(xs = [] \<Longrightarrow> steps R f) \<Longrightarrow> (\<And>y ys. xs = y # ys \<Longrightarrow> steps R (g y ys)) \<Longrightarrow>
    steps R (case xs of [] \<Rightarrow> f | y # ys \<Rightarrow> g y ys)"
  by (cases xs) auto

lemma steps_case_abi [steps_intros]:
  assumes "\<And>n. x = VUint n \<Longrightarrow> steps R (f1 n)" and "\<And>n. x = VNeg n \<Longrightarrow> steps R (f2 n)" and "\<And>n. x = VAddr n \<Longrightarrow> steps R (f3 n)"
    and "\<And>n. x = VBytes n \<Longrightarrow> steps R (f4 n)" and "\<And>n. x = VString n \<Longrightarrow> steps R (f5 n)" and "\<And>n. x = VBool n \<Longrightarrow> steps R (f6 n)"
    and "\<And>n. x = VList n \<Longrightarrow> steps R (f7 n)"
  shows "steps R (case x of VUint n \<Rightarrow> f1 n | VNeg n \<Rightarrow> f2 n | VAddr n \<Rightarrow> f3 n | VBytes n \<Rightarrow> f4 n | VString n \<Rightarrow> f5 n
      | VBool n \<Rightarrow> f6 n | VList n \<Rightarrow> f7 n)"
  using assms by (cases x) auto

lemma steps_case_exn [steps_intros]:
  assumes "\<And>k m. x = AccountsDriveError k m \<Longrightarrow> steps R (f1 k m)" and "\<And>m. x = InsufficientFunds m \<Longrightarrow> steps R (f2 m)"
    and "\<And>k m. x = AbiDriveError k m \<Longrightarrow> steps R (f3 k m)" and "\<And>d m. x = RevertExn d m \<Longrightarrow> steps R (f4 d m)"
    and "\<And>d m. x = FailExn d m \<Longrightarrow> steps R (f5 d m)" and "\<And>m. x = Error m \<Longrightarrow> steps R (f6 m)"
    and "\<And>m. x = RangeError m \<Longrightarrow> steps R (f7 m)"
  shows "steps R (case x of AccountsDriveError k m \<Rightarrow> f1 k m | InsufficientFunds m \<Rightarrow> f2 m | AbiDriveError k m \<Rightarrow> f3 k m
      | RevertExn d m \<Rightarrow> f4 d m | FailExn d m \<Rightarrow> f5 d m | Error m \<Rightarrow> f6 m | RangeError m \<Rightarrow> f7 m)"
  using assms by (cases x) auto

lemma steps_if [steps_intros]: "(b \<Longrightarrow> steps R f) \<Longrightarrow> (\<not> b \<Longrightarrow> steps R g) \<Longrightarrow> steps R (if b then f else g)"
  by simp

section \<open>What a handler may call\<close>

locale reader_client =
  fixes S :: "'s store" and H :: "bytes \<Rightarrow> bytes" and R :: "'s Ledger \<Rightarrow> 's Ledger \<Rightarrow> bool"
  assumes refl: "R l l" and trans: "R l l' \<Longrightarrow> R l' l'' \<Longrightarrow> R l l''"
    and balance: "length a = 20 \<Longrightarrow> R l (snd (tokenBalance H S a tid l))"
begin

lemma same_ledger: "(\<And>w. w_led (snd (m w)) = w_led w) \<Longrightarrow> steps R m"
  by (simp add: steps_def refl)

lemma steps_ret [steps_intros]: "steps R (ret a)" and steps_raise [steps_intros]: "steps R (raise e)"
  and steps_lift [steps_intros]: "steps R (lift r)" and steps_gets [steps_intros]: "steps R (gets f)"
  and steps_revert [steps_intros]: "steps R (revert V reason)"
  and steps_view_revert [steps_intros]: "steps R (view_revert V reason)"
  by (rule same_ledger; simp add: revert_def view_revert_def)+

lemma steps_bnd [steps_intros]:
  assumes m: "steps R m" and f: "\<And>a. steps R (f a)"
  shows "steps R (bnd m f)"
  unfolding steps_def
proof
  fix w
  show "R (w_led w) (w_led (snd (bnd m f w)))"
  proof (rule bnd_cases [of m w f])
    fix a w'
    assume "m w = (Ok a, w')" and eq: "bnd m f w = f a w'"
    with m have "R (w_led w) (w_led w')" by (blast intro: stepsD)
    moreover have "R (w_led w') (w_led (snd (f a w')))" using f by (simp add: steps_def)
    ultimately show ?thesis unfolding eq by (rule trans)
  qed (use m in \<open>auto dest: stepsD\<close>)
qed

lemma steps_try_catch [steps_intros]:
  assumes m: "steps R m" and h: "\<And>e. steps R (h e)"
  shows "steps R (try_catch m h)"
  unfolding steps_def
proof
  fix w
  obtain r w' where m': "m w = (r, w')" by (cases "m w")
  then have "R (w_led w) (w_led w')" using m by (rule stepsD [rotated])
  with m' h show "R (w_led w) (w_led (snd (try_catch m h w)))"
    by (cases r) (auto simp: try_catch_def steps_def intro: trans)
qed

lemma steps_on_sink [steps_intros]: "steps R (on_sink m)"
  by (rule same_ledger) (simp add: on_sink_def zoom_def split: prod.split)

lemma steps_on_led: "(\<And>l. R l (snd (m l))) \<Longrightarrow> steps R (on_led m)"
  by (simp add: steps_def on_led_def zoom_def split: prod.split) (metis snd_conv)

lemma steps_out [steps_intros]: "steps R (out_log V e l)" "steps R (out_voucher d p)" "steps R (out_withdrawal H V s t v g x)"
  "steps R (view_return V abi fn y)"
  unfolding out_log_def out_voucher_def out_withdrawal_def view_return_def by (intro steps_intros)+

lemma steps_balance [steps_intros]: "length a = 20 \<Longrightarrow> steps R (on_led (tokenBalance H S a tid))"
  by (rule steps_on_led) (rule balance)

lemma registry_view_steps: "steps R (registry_view H V look keys call)"
  unfolding registry_view_def Let_def by (intro steps_intros)

lemma erc20_view_steps: "viem_ok V \<Longrightarrow> steps R (erc20_view H S V call)"
  unfolding erc20_view_def by (intro steps_intros; auto dest!: decode_ok)

lemma l1block_view_steps: "steps R (l1block_view V call)"
  unfolding l1block_view_def by (intro steps_intros)

lemma config_view_steps: "steps R (config_view V owner call)"
  unfolding config_view_def by (intro steps_intros)

lemma messenger_view_steps: "steps R (messenger_view V call)"
  unfolding messenger_view_def by (intro steps_intros)

end

locale ledger_client = reader_client S H R
  for S :: "'s store" and H :: "bytes \<Rightarrow> bytes" and R :: "'s Ledger \<Rightarrow> 's Ledger \<Rightarrow> bool" +
  assumes credit: "length a = 20 \<Longrightarrow> R l (snd (creditEther H S a (int v) l))"
    and debit: "length a = 20 \<Longrightarrow> R l (snd (debitEther H S a (int v) l))"
    and credit_token: "length a = 20 \<Longrightarrow> R l (snd (creditToken H S a tid (int v) l))"
    and debit_token: "length a = 20 \<Longrightarrow> R l (snd (debitToken H S a tid (int v) l))"
    and register: "length a = 20 \<Longrightarrow> R l (snd (led_registerToken H S a md l))"
    and metadata: "R l (snd (setMetadata tid m l))"
    and set_fee: "R l (snd (setFee (int v) l))"
    and portal: "(kind = PORTAL_ERC20 \<Longrightarrow> crossDomain (l_ram l) = None) \<Longrightarrow> R l (snd (registerPortal a kind l))"
    and cross_domain: "\<not> hasErc20Portal (l_ram l) \<Longrightarrow> R l (snd (registerCrossDomain c l))"
    and message_nonce: "R l (snd (nextMessageNonce l))"
    and message_status: "st = successful \<or> messageStatus h (l_ram l) \<noteq> Some successful \<Longrightarrow> R l (snd (setMessageStatus h st l))"
begin

lemma tokenByL1Address_same: "snd (tokenByL1Address a l) = l"
  by (cases "toAddress (ABytes a)")
    (simp_all add: tokenByL1Address_def on_led_drive_def zoom_def tokenByAddress_def bnd_def lift_def gets_def ret_def)

lemma steps_ledger [steps_intros]:
  "length a = 20 \<Longrightarrow> steps R (on_led (creditEther H S a (int v)))"
  "length a = 20 \<Longrightarrow> steps R (on_led (debitEther H S a (int v)))"
  "length a = 20 \<Longrightarrow> steps R (on_led (creditToken H S a tid (int v)))"
  "length a = 20 \<Longrightarrow> steps R (on_led (debitToken H S a tid (int v)))"
  "length a = 20 \<Longrightarrow> steps R (on_led (led_registerToken H S a md))"
  "steps R (on_led (setMetadata tid m))"
  "steps R (on_led (setFee (int v)))"
  "steps R (on_led nextMessageNonce)"
  "steps R (on_led (setMessageStatus h successful))"
  "steps R (on_led (tokenByL1Address x))"
  by (rule steps_on_led;
      simp add: credit debit credit_token debit_token register metadata set_fee message_nonce message_status
        tokenByL1Address_same refl)+

lemma steps_ensure_token [steps_intros]:
  assumes "length a = 20"
  shows "steps R (on_led (ensure_token H S a))"
proof (rule steps_on_led)
  fix l
  show "R l (snd (ensure_token H S a l))"
    using tokenByL1Address_same [of a l] register [OF assms, of l None] refl [of l]
    by (cases "tokenByL1Address a l"; cases "fst (tokenByL1Address a l)";
        cases "led_registerToken H S a None l"; cases "fst (led_registerToken H S a None l)")
      (auto simp: ensure_token_def split: option.split)
qed

section \<open>The handlers\<close>

lemma passer_steps: "viem_ok V \<Longrightarrow> ctx_ok ctx \<Longrightarrow> steps R (passer_advance H S V ctx)"
  unfolding passer_advance_def by (intro steps_intros; simp add: ctx_ok_def)

lemma portal_steps: "viem_ok V \<Longrightarrow> ctx_ok ctx \<Longrightarrow> steps R (portal_advance H S V ctx)"
  unfolding portal_advance_def portal_ether_def portal_erc20_def Let_def
  by (intro steps_intros; simp add: ctx_ok_def length_addressAt)

lemma bridge_steps: "viem_ok V \<Longrightarrow> ctx_ok ctx \<Longrightarrow> steps R (bridge_advance H S V ctx)"
  unfolding bridge_advance_def withdrawEther_def withdrawERC20_def debit_or_revert_def
  by (intro steps_intros; simp add: ctx_ok_def)

lemma erc20_steps: "viem_ok V \<Longrightarrow> ctx_ok ctx \<Longrightarrow> steps R (erc20_advance H S V ctx)"
  unfolding erc20_advance_def erc20_transfer_def
  by (intro steps_intros; auto simp: ctx_ok_def dest!: decode_ok)

lemma l1block_steps: "steps R (l1block_advance V ctx)"
  unfolding l1block_advance_def Let_def by (intro steps_intros same_ledger) simp

lemma config_registerPortal_steps [steps_intros]: "steps R (config_registerPortal H V self kind p)"
  unfolding steps_def
proof
  fix w :: "('s, 'r) World"
  let ?reg = "on_led (registerPortal (applyL1ToL2Alias p) kind)"
  let ?k = "\<lambda>_ :: unit. bnd (out_log V self (rbind (encodeAbiParameters V ''uint8, address, address''
      [VUint kind, VAddr p, VAddr (applyL1ToL2Alias p)]) (\<lambda>d. Ok ([PORTAL_REGISTERED_TOPIC H], d)))) (\<lambda>_. ret Accept)"
  have k: "steps R (?k ())" by (intro steps_intros)
  show "R (w_led w) (w_led (snd (config_registerPortal H V self kind p w)))"
  proof (cases "kind \<noteq> PORTAL_ETHER \<and> kind \<noteq> PORTAL_ERC20 \<or> kind = PORTAL_ERC20 \<and> crossDomain (ram w) \<noteq> None")
    case True
    then show ?thesis by (auto simp: config_registerPortal_def revert_def refl)
  next
    case False
    have reg: "registerPortal (applyL1ToL2Alias p) kind (w_led w) = (Ok (), snd (registerPortal (applyL1ToL2Alias p) kind (w_led w)))"
      by (simp add: registerPortal_def journal_note_def map_ram_def)
    let ?w = "w\<lparr>w_led := snd (registerPortal (applyL1ToL2Alias p) kind (w_led w))\<rparr>"
    have run: "config_registerPortal H V self kind p w = ?k () ?w"
      using False reg by (auto simp: config_registerPortal_def Let_def on_led_def zoom_run)
    have R1: "R (w_led w) (w_led ?w)" using False portal [of kind "w_led w"] by (auto simp: ram_def)
    have R2: "R (w_led ?w) (w_led (snd (?k () ?w)))" using k unfolding steps_def by blast
    show ?thesis unfolding run by (rule trans [OF R1 R2])
  qed
qed

lemma config_registerMessenger_steps [steps_intros]: "steps R (config_registerMessenger H V self m b)"
  unfolding steps_def
proof
  fix w :: "('s, 'r) World"
  let ?c = "\<lparr>l1Messenger = m, l1MessengerAliased = applyL1ToL2Alias m, l1Bridge = b\<rparr>"
  let ?k = "bnd (out_log V self (rbind (encodeAbiParameters V ''address, address'' [VAddr m, VAddr b])
      (\<lambda>d. Ok ([MESSENGER_REGISTERED_TOPIC H], d)))) (\<lambda>_. ret Accept)"
  have k: "steps R ?k" by (intro steps_intros)
  show "R (w_led w) (w_led (snd (config_registerMessenger H V self m b w)))"
  proof (cases "hasErc20Portal (ram w)")
    case True
    then show ?thesis by (auto simp: config_registerMessenger_def revert_def refl)
  next
    case False
    have reg: "registerCrossDomain ?c (w_led w) = (Ok (), snd (registerCrossDomain ?c (w_led w)))"
      by (simp add: registerCrossDomain_def journal_note_def map_ram_def)
    let ?w = "w\<lparr>w_led := snd (registerCrossDomain ?c (w_led w))\<rparr>"
    have run: "config_registerMessenger H V self m b w = ?k ?w"
      using False reg by (auto simp: config_registerMessenger_def on_led_def zoom_run)
    have R1: "R (w_led w) (w_led ?w)" using False cross_domain [of "w_led w"] by (auto simp: ram_def)
    have R2: "R (w_led ?w) (w_led (snd (?k ?w)))" using k unfolding steps_def by blast
    show ?thesis unfolding run by (rule trans [OF R1 R2])
  qed
qed

lemma config_registerToken_steps [steps_intros]: "length a = 20 \<Longrightarrow> steps R (config_registerToken H S V self a md)"
  unfolding config_registerToken_def by (intro steps_intros) (auto intro!: steps_intros split: ErrorKind.split)

lemma config_steps: "viem_ok V \<Longrightarrow> steps R (config_advance H S V owner self ctx)"
  unfolding config_advance_def config_setFee_def config_setTokenMetadata_def
  by (intro steps_intros; auto dest!: decode_ok)

lemma send_steps [steps_intros]: "steps R (sendCrossDomainMessage H V cd a)"
  unfolding sendCrossDomainMessage_def Let_def by (intro steps_intros)

lemma l2bridge_initiate_steps [steps_intros]: "ctx_ok ctx \<Longrightarrow> steps R (l2bridge_initiate H S V ctx cd a)"
  unfolding l2bridge_initiate_def debit_or_revert_def by (intro steps_intros; simp add: ctx_ok_def)

lemma l2bridge_steps: "viem_ok V \<Longrightarrow> ctx_ok ctx \<Longrightarrow> steps R (l2bridge_advance H S V ctx)"
  unfolding l2bridge_advance_def by (intro steps_intros; assumption)

lemma finalizeBridgeERC20_steps [steps_intros]:
  "length remote = 20 \<Longrightarrow> length dst = 20 \<Longrightarrow> steps R (finalizeBridgeERC20 H S V m local remote src dst amount extra)"
  unfolding finalizeBridgeERC20_def by (intro steps_intros)

lemma finalizeBridgeETH_steps [steps_intros]: "length dst = 20 \<Longrightarrow> steps R (finalizeBridgeETH H S V m src dst amount extra)"
  unfolding finalizeBridgeETH_def by (intro steps_intros; simp)

lemma dispatch_steps [steps_intros]: "viem_ok V \<Longrightarrow> length (m_target m) = 20 \<Longrightarrow> steps R (dispatch H S V m cd)"
  unfolding dispatch_def finalizeFromMessenger_def by (intro steps_intros; auto dest!: decode_ok)

end

section \<open>The messenger\<close>

definition keeps_since :: "('s \<Rightarrow> bytes) \<Rightarrow> ('s \<Rightarrow> bool) \<Rightarrow> (bytes \<Rightarrow> bytes) \<Rightarrow> 's Ledger \<Rightarrow> 's Ledger \<Rightarrow> bool" where
  "keeps_since contents ok H l l' \<longleftrightarrow> (\<forall>l0. since contents ok H l0 l \<longrightarrow> since contents ok H l0 l')"

lemma journaled_keeps: "journaled contents ok H m \<Longrightarrow> keeps_since contents ok H l (snd (m l))"
  by (simp add: journaled_def keeps_since_def)

context byte_store
begin

lemma keeps_since_client:
  assumes "keccak_digest H"
  shows "ledger_client S H (keeps_since contents ok H)"
proof
  show "keeps_since contents ok H l l" for l by (simp add: keeps_since_def)
  show "keeps_since contents ok H l l' \<Longrightarrow> keeps_since contents ok H l' l'' \<Longrightarrow> keeps_since contents ok H l l''" for l l' l''
    by (simp add: keeps_since_def)
qed (intro journaled_keeps journaled_intros assms; assumption)+

end

text \<open>What the messenger needs besides: a ledger rolled back to where it was is where it was.\<close>

locale relay_client = ledger_client S H R + byte_store S contents ok
  for S :: "'s store" and H :: "bytes \<Rightarrow> bytes" and R :: "'s Ledger \<Rightarrow> 's Ledger \<Rightarrow> bool"
    and contents :: "'s \<Rightarrow> bytes" and ok :: "'s \<Rightarrow> bool" +
  assumes invalid: "\<not> ledger_inv contents ok H l \<Longrightarrow> R l l'"
    and restored: "ledger_inv contents ok H l \<Longrightarrow> led_eq contents l l' \<Longrightarrow> ledger_inv contents ok H l' \<Longrightarrow> R l l'"
begin

lemma rollback_since:
  assumes "since contents ok H l0 l"
  obtains l' where "rollback_to H S (mark l0) l = (Ok (), l')" and "led_eq contents l0 l'" and "ledger_inv contents ok H l'"
  using rollback_restores [OF assms] unfolding rollback_to_def by blast

lemma relay_steps:
  assumes H: "keccak_digest H" and V: "viem_ok V" and target: "length (m_target m) = 20"
    and fresh: "messageStatus hash (ram w) \<noteq> Some successful"
  shows "R (w_led w) (w_led (snd (relay H S V m cd hash w)))"
proof (cases "ledger_inv contents ok H (w_led w)")
  case False
  then show ?thesis by (rule invalid)
next
  case inv: True
  let ?body = "bnd (dispatch H S V m cd) (\<lambda>_. bnd (on_led (setMessageStatus hash successful)) (\<lambda>_.
      out_log V L2_MESSENGER_ADDRESS (Ok (relayedMessageLog H hash False))))"
  let ?fail = "bnd (on_led (setMessageStatus hash failed)) (\<lambda>_.
      out_log V L2_MESSENGER_ADDRESS (Ok (relayedMessageLog H hash True)))"
  have body: "steps R ?body" using V target by (intro steps_intros)
  obtain r w1 where run: "?body w = (r, w1)" by (cases "?body w")
  note jc = keeps_since_client [OF H]
  have "steps (keeps_since contents ok H) ?body"
    using V target by (intro ledger_client.dispatch_steps [OF jc] ledger_client.steps_ledger [OF jc]
        reader_client.steps_bnd [OF ledger_client.axioms(1) [OF jc]] reader_client.steps_out [OF ledger_client.axioms(1) [OF jc]])
  from stepsD [OF this run] since_refl [OF inv] have since: "since contents ok H (w_led w) (w_led w1)"
    by (simp add: keeps_since_def)
  show ?thesis
  proof (cases r)
    case (Throw e)
    obtain l' where l': "rollback_to H S (mark (w_led w)) (w_led w1) = (Ok (), l')" "led_eq contents (w_led w) l'"
        "ledger_inv contents ok H l'" by (rule rollback_since [OF since])
    let ?w = "w1\<lparr>w_led := l'\<rparr>"
    have eq: "w_led (snd (relay H S V m cd hash w)) = w_led (snd (?fail ?w))"
      using run Throw l'(1) by (simp add: relay_def on_led_def zoom_run bnd_def split: prod.split res.split)
    have R1: "R (w_led w) l'" by (rule restored [OF inv l'(2,3)])
    have "messageStatus hash (l_ram l') \<noteq> Some successful"
      using fresh l'(2) by (simp add: led_eq_def ram_view_eq messageStatus_def ram_def)
    then have R2: "R l' (snd (setMessageStatus hash failed l'))" by (intro message_status) simp
    have "w_led (snd (?fail ?w)) = snd (setMessageStatus hash failed l')"
      by (simp add: on_led_def zoom_run setMessageStatus_def journal_note_def map_ram_def out_log_def on_sink_def zoom_def
          split: prod.split)
    then show ?thesis unfolding eq using trans [OF R1 R2] by simp
  qed (use stepsD [OF body run] run in \<open>auto simp: relay_def\<close>)
qed

lemma relay_checked_steps [steps_intros]:
  assumes "keccak_digest H" and "viem_ok V" and "length (m_target m) = 20"
  shows "steps R (relay_checked H S V ctx cd m hash)"
  unfolding steps_def
proof
  fix w
  show "R (w_led w) (w_led (snd (relay_checked H S V ctx cd m hash w)))"
  proof (cases "relay_refusal ctx cd m (messageStatus hash (ram w))")
    case None
    then have "messageStatus hash (ram w) \<noteq> Some successful" by (auto simp: relay_refusal_def)
    from relay_steps [OF assms this] None show ?thesis by (simp add: relay_checked_def)
  qed (simp add: relay_checked_def revert_def refl)
qed

lemma messenger_steps: "keccak_digest H \<Longrightarrow> viem_ok V \<Longrightarrow> steps R (messenger_advance H S V ctx)"
  unfolding messenger_advance_def Let_def
  by (intro steps_intros; (assumption | auto dest!: decode_ok)?)

end

end
