(* ===== verification/Router_Steps.thy ===== *)
theory Router_Steps
  imports Handler_Steps
begin

text \<open>
  The router as a client of its handlers. Where the callbacks of the application's contracts respect a preorder \<open>R\<close>
  (\<open>contracts_respect\<close>), value transfer and dispatch respect it too, whichever handler the input resolves to. With the journal's
  preorder this gives what the outcomes do to the ledger, branch by branch: \<open>execute_runs\<close>, \<open>signed_runs\<close>, \<open>deposit_runs\<close> and
  \<open>simulate_runs\<close>. \<open>input_client\<close> adds the settlement to \<open>relay_client\<close>; a whole input then respects \<open>R\<close> (\<open>advance_respects\<close>).
\<close>

text \<open>A predicate of contracts: what their transaction callbacks respect.\<close>

definition contracts_respect :: "('s Ledger \<Rightarrow> 's Ledger \<Rightarrow> bool) \<Rightarrow> ('s, 'r) Router \<Rightarrow> bool" where
  "contracts_respect R Rt \<longleftrightarrow> (\<forall>a spec name cb args ctx. (a, HContract spec) \<in> set (manifest Rt) \<longrightarrow>
     cs_transactions spec name = Some cb \<longrightarrow> steps R (cb args ctx))"

definition views_respect :: "('s Ledger \<Rightarrow> 's Ledger \<Rightarrow> bool) \<Rightarrow> ('s, 'r) Router \<Rightarrow> bool" where
  "views_respect R Rt \<longleftrightarrow> (\<forall>a spec name cb args call. (a, HContract spec) \<in> set (manifest Rt) \<longrightarrow>
     cs_views spec name = Some cb \<longrightarrow> steps R (cb args call))"

text \<open>A ledger settled: the charge applied to the drive, if there is one to charge, and the journal empty.\<close>

definition settled ::
  "('s \<Rightarrow> bytes) \<Rightarrow> ('s \<Rightarrow> bool) \<Rightarrow> (bytes \<Rightarrow> bytes) \<Rightarrow> (bytes \<times> int) option \<Rightarrow> 's Ledger \<Rightarrow> 's Ledger \<Rightarrow> bool" where
  "settled contents ok H ch l l' \<longleftrightarrow>
     ledger_inv contents ok H l' \<and> snd (jst l') = [] \<and> l_ram l' = l_ram l \<and> d_cfg (l_drive l') = d_cfg (l_drive l) \<and>
     (case ch of None \<Rightarrow> labs contents l' = labs contents l
      | Some (addr, amount) \<Rightarrow> charged (d_cfg (l_drive l)) addr amount (labs contents l) (labs contents l'))"

definition payer_ok :: "(bytes \<times> int) option \<Rightarrow> bool" where
  "payer_ok ch \<longleftrightarrow> (case ch of None \<Rightarrow> True | Some (addr, amount) \<Rightarrow> length addr = 20)"

text \<open>The context a signed transaction runs in, and what admits it: the pins on the chain and the signature, the nonce, and a
  balance that covers fee and value.\<close>

definition signed_ctx :: "BlockContext \<Rightarrow> bytes \<Rightarrow> bytes \<Rightarrow> SignedTx \<Rightarrow> TxContext" where
  "signed_ctx block sender dst tx = \<lparr>ctx_block = block, ctx_sender = sender, ctx_to = dst, ctx_value = sg_value tx,
     ctx_data = sg_data tx, ctx_isDeposit = False, ctx_mint = 0\<rparr>"

definition admitted :: "Viem \<Rightarrow> ('s, 'r) Router \<Rightarrow> Abs \<Rightarrow> Ram \<Rightarrow> SignedTx \<Rightarrow> bytes \<Rightarrow> bool" where
  "admitted V Rt a r tx sender \<longleftrightarrow>
     recoverSender V tx = Some sender \<and> (sg_chainId tx = None \<or> sg_chainId tx = Some (cfg_chainId Rt)) \<and>
     sg_nonce tx = nonceOf a sender \<and> fee r + int (sg_value tx) \<le> int (etherOf a sender)"

definition deposit_ctx :: "BlockContext \<Rightarrow> bytes \<Rightarrow> DepositTx \<Rightarrow> TxContext" where
  "deposit_ctx block dst d = \<lparr>ctx_block = block, ctx_sender = dep_from d, ctx_to = dst, ctx_value = dep_value d,
     ctx_data = dep_data d, ctx_isDeposit = True, ctx_mint = dep_mint d\<rparr>"

text \<open>The ledger after a deposit's mint.\<close>

definition minted ::
  "('s \<Rightarrow> bytes) \<Rightarrow> ('s \<Rightarrow> bool) \<Rightarrow> (bytes \<Rightarrow> bytes) \<Rightarrow> 's store \<Rightarrow> DepositTx \<Rightarrow> 's Ledger \<Rightarrow> 's Ledger \<Rightarrow> bool" where
  "minted contents ok H S d l l' \<longleftrightarrow>
     creditEther H S (dep_from d) (int (dep_mint d)) l = (Ok (), l') \<and> drive_step contents ok H l l' \<and>
     ether_moved (labs contents l) (labs contents l') (dep_from d) (int (dep_mint d))"

text \<open>The outcome \<^verbatim>\<open>execute\<close> finishes with: the handler's own, or what its \<^verbatim>\<open>catch\<close> makes of an exception.\<close>

definition outcome_of :: "Viem \<Rightarrow> (bytes \<times> int) option \<Rightarrow> AdvanceOutcome res \<Rightarrow> AdvanceOutcome" where
  "outcome_of V ch r = (case r of Ok a \<Rightarrow> a
     | Throw e \<Rightarrow> if ch \<noteq> None then Revert (errorRevert V (describe e)) else Reject (describe e) | Diverge \<Rightarrow> Accept)"

lemma new_Router_contracts: "contracts_respect R (new_Router chainId owner)" "views_respect R (new_Router chainId owner)"
  by (auto simp: contracts_respect_def views_respect_def new_Router_def)

lemma resolve_manifest:
  "resolve Rt dst block deposit l = Some (HContract spec) \<Longrightarrow> (dst, HContract spec) \<in> set (manifest Rt)"
  by (auto simp: resolve_def dest: map_of_SomeD split: option.splits if_splits)

context relay_client
begin

lemma contract_steps:
  assumes "\<And>name cb args. cs_transactions spec name = Some cb \<Longrightarrow> steps R (cb args ctx)"
  shows "steps R (contract_advance V spec ctx)"
  unfolding contract_advance_def Let_def by (intro steps_intros) (use assms in blast)

lemma handler_steps:
  assumes "keccak_digest H" and "viem_ok V" and "ctx_ok ctx" and "contracts_respect R Rt"
    and "resolve Rt dst block deposit l = Some h" and "handler_advance H S V Rt h = Some adv"
  shows "steps R (adv ctx)"
  using assms resolve_manifest [of Rt dst block deposit l]
  by (cases h) (auto intro!: passer_steps portal_steps bridge_steps erc20_steps l1block_steps config_steps l2bridge_steps
      messenger_steps contract_steps simp: contracts_respect_def)

lemma transfer_and_dispatch_steps:
  assumes "keccak_digest H" and "viem_ok V" and "ctx_ok ctx" and "contracts_respect R Rt"
  shows "steps R (transfer_and_dispatch H S V Rt ctx deposit)"
proof -
  have k: "steps R (bnd (gets (\<lambda>w. resolve Rt (ctx_to ctx) (Some (ctx_block ctx)) deposit (w_led w))) (\<lambda>h.
       case h of
         None \<Rightarrow> ret Accept
       | Some handler \<Rightarrow>
           if ctx_value ctx > 0 \<and> \<not> payable handler then revert V ''not payable''
           else (case handler_advance H S V Rt handler of
             None \<Rightarrow> revert V ''not a transaction target''
           | Some adv \<Rightarrow> adv ctx)))" (is "steps R ?k")
    unfolding steps_def
  proof
    fix w
    show "R (w_led w) (w_led (snd (?k w)))"
    proof (cases "resolve Rt (ctx_to ctx) (Some (ctx_block ctx)) deposit (w_led w)")
      case None
      then show ?thesis by (simp add: refl)
    next
      case (Some h)
      show ?thesis
      proof (cases "handler_advance H S V Rt h")
        case None
        with Some show ?thesis by (simp add: refl revert_def)
      next
        case (Some adv)
        from handler_steps [OF assms _ this] \<open>resolve _ _ _ _ _ = Some h\<close> have "steps R (adv ctx)" by blast
        with Some \<open>resolve _ _ _ _ _ = Some h\<close> show ?thesis by (simp add: refl revert_def steps_def)
      qed
    qed
  qed
  have dc: "steps R (on_led (debitEther H S (ctx_sender ctx) (int (ctx_value ctx))))"
    "steps R (on_led (creditEther H S (ctx_to ctx) (int (ctx_value ctx))))"
    using assms(3) by (simp_all add: steps_ledger ctx_ok_def)
  show ?thesis
    unfolding transfer_and_dispatch_def by (rule steps_bnd [OF dc(1)], rule steps_bnd [OF dc(2)], rule k)
qed

end

context byte_store
begin

lemma since_led_eq:
  assumes "since contents ok H l0 l" and "led_eq contents l l'" and "ledger_inv contents ok H l'"
  shows "since contents ok H l0 l'"
proof -
  obtain R where R: "jok contents ok (contents (fst (jst l0))) (snd (jst l0)) R (jst l)"
      "ram_view (fold undo_ram R (l_ram l)) = ram_view (l_ram l0)" using assms(1) by (auto simp: since_def)
  have "jok contents ok (contents (fst (jst l0))) (snd (jst l0)) R (jst l')"
    using R(1) assms(2,3) by (simp add: jok_def led_eq_def ledger_inv_def)
  moreover have "ram_view (l_ram l') = ram_view (l_ram l)" using assms(2) by (simp add: led_eq_def)
  from fold_undo_ram_view [OF this, of R] R(2) have "ram_view (fold undo_ram R (l_ram l')) = ram_view (l_ram l0)" by simp
  ultimately show ?thesis using assms by (auto simp: since_def led_eq_def)
qed

lemma keeps_since_relay:
  assumes "keccak_digest H"
  shows "relay_client S H (keeps_since contents ok H) contents ok"
proof (intro relay_client.intro relay_client_axioms.intro keeps_since_client [OF assms] byte_store_axioms)
  show "\<not> ledger_inv contents ok H l \<Longrightarrow> keeps_since contents ok H l l'" for l l'
    by (simp add: keeps_since_def since_def)
qed (auto simp: keeps_since_def intro: since_led_eq)

section \<open>Settling an outcome\<close>

text \<open>In what follows \<open>l0\<close> is the ledger the input found, its journal empty.\<close>

lemma rollback_to_since:
  assumes "since contents ok H l0 l"
  obtains l' where "rollback_to H S (mark l0) l = (Ok (), l')" and "led_eq contents l0 l'" and "ledger_inv contents ok H l'"
  using rollback_restores [OF assms] unfolding rollback_to_def by blast

lemma rollbackAll_since:
  assumes "since contents ok H l0 l" and "snd (jst l0) = []"
  obtains l' where "rollbackAll H S l = (Ok (), l')" and "led_eq contents l0 l'" and "ledger_inv contents ok H l'"
  using rollback_restores [OF assms(1)] assms(2) unfolding rollbackAll_def journal_rollbackAll_def mark_def by auto

lemma settle_runs:
  assumes H: "keccak_digest H" and since: "since contents ok H l0 l" and l0: "snd (jst l0) = []"
    and ch: "payer_ok ch"
  obtains (settled) l' where "settle H S ch res l = (Ok res, l')" and "settled contents ok H ch l l'"
  | (refused) e l' where "settle H S ch res l = (Ok (rejected (describe e)), l')" and "led_eq contents l0 l'"
      and "ledger_inv contents ok H l'"
proof -
  have inv: "ledger_inv contents ok H l" using since by (simp add: since_def)
  show ?thesis
  proof (cases ch)
    case None
    let ?l = "l\<lparr>jst := (fst (jst l), [])\<rparr>"
    have "settle H S ch res l = (Ok res, ?l)" by (simp add: settle_def charge_def None commit_def)
    moreover have "settled contents ok H ch l ?l" using inv by (simp add: settled_def None ledger_inv_def labs_def)
    ultimately show ?thesis by (rule that(1))
  next
    case (Some p)
    obtain addr amount where p: "p = (addr, amount)" by (cases p)
    then have addr: "length addr = 20" using ch Some by (simp add: payer_ok_def)
    show ?thesis
    proof (rule bumpNonceAndCharge_runs [OF H addr inv, of amount])
      fix l1
      assume l1: "bumpNonceAndCharge H S addr amount l = (Ok (), l1)" "drive_step contents ok H l l1"
        "charged (d_cfg (l_drive l)) addr amount (labs contents l) (labs contents l1)"
      let ?l = "l1\<lparr>jst := (fst (jst l1), [])\<rparr>"
      have "settle H S ch res l = (Ok res, ?l)" using l1(1) by (simp add: settle_def charge_def Some p commit_def)
      moreover have "settled contents ok H ch l ?l"
        using l1(2,3) by (auto simp: settled_def Some p ledger_inv_def labs_def drive_step_def)
      ultimately show ?thesis by (rule that(1))
    next
      fix e l1
      assume l1: "bumpNonceAndCharge H S addr amount l = (Throw e, l1)"
      have "since contents ok H l0 l1"
        using journaledD [OF bumpNonceAndCharge_journaled [OF H addr] since l1] .
      from rollbackAll_since [OF this l0] obtain l' where l': "rollbackAll H S l1 = (Ok (), l')" "led_eq contents l0 l'"
          "ledger_inv contents ok H l'" by blast
      have "settle H S ch res l = (Ok (rejected (describe e)), l')"
        using l1 l'(1) by (simp add: settle_def charge_def Some p)
      then show ?thesis using l'(2,3) by (rule that(2))
    qed
  qed
qed

lemma finish_runs:
  assumes H: "keccak_digest H" and l0: "snd (jst l0) = []" and since: "since contents ok H l0 l1" "since contents ok H l1 l" "since contents ok H l0 l"
    and ch: "payer_ok ch"
  obtains (reject) res l' where "finish H S (mark l1) ch outcome sink l = (Ok res, l')" and "\<not> ar_accept res" and "ar_emissions res = []"
      and "ar_outcome res = OReject" and "led_eq contents l0 l'" and "ledger_inv contents ok H l'"
  | (revert) data l2 l' where "outcome = Revert data" and "led_eq contents l1 l2" and "ledger_inv contents ok H l2"
      and "finish H S (mark l1) ch outcome sink l =
        (Ok (finished ORevert (reportsOnly sink @ [Report (tagged TAG_REVERT data)])), l')"
      and "settled contents ok H ch l2 l'"
  | (accept) l' where "outcome = Accept" and "settled contents ok H ch l l'"
      and "finish H S (mark l1) ch outcome sink l = (Ok (finished OAccept (emissions sink)), l')"
  | (fail) data l' where "outcome = Fail data" and "settled contents ok H ch l l'"
      and "finish H S (mark l1) ch outcome sink l =
        (Ok (finished OFail (emissions sink @ [Report (tagged TAG_FAIL data)])), l')"
proof (cases outcome)
  case Accept
  then have eq: "finish H S (mark l1) ch outcome sink l = settle H S ch (finished OAccept (emissions sink)) l"
    by (simp add: finish_def)
  show ?thesis
  proof (rule settle_runs [OF H since(3) l0 ch, where res = "finished OAccept (emissions sink)"], goal_cases settled refused)
    case (settled l')
    with that(3) [of l'] Accept eq show ?thesis by simp
  next
    case (refused e l')
    with that(1) [of "rejected (describe e)" l'] eq show ?thesis by (simp add: rejected_def)
  qed
next
  case (Fail data)
  let ?res = "finished OFail (emissions sink @ [Report (tagged TAG_FAIL data)])"
  have eq: "finish H S (mark l1) ch outcome sink l = settle H S ch ?res l" by (simp add: finish_def Fail)
  show ?thesis
  proof (rule settle_runs [OF H since(3) l0 ch, where res = ?res], goal_cases settled refused)
    case (settled l')
    with that(4) [of data l'] Fail eq show ?thesis by simp
  next
    case (refused e l')
    with that(1) [of "rejected (describe e)" l'] eq show ?thesis by (simp add: rejected_def)
  qed
next
  case (Revert data)
  let ?res = "finished ORevert (reportsOnly sink @ [Report (tagged TAG_REVERT data)])"
  from rollback_to_since [OF since(2)] obtain l2 where l2: "rollback_to H S (mark l1) l = (Ok (), l2)" "led_eq contents l1 l2"
      "ledger_inv contents ok H l2" by blast
  have eq: "finish H S (mark l1) ch outcome sink l = settle H S ch ?res l2" using l2(1) by (simp add: finish_def Revert)
  show ?thesis
  proof (rule settle_runs [OF H since_led_eq [OF since(1) l2(2,3)] l0 ch, where res = ?res], goal_cases settled refused)
    case (settled l')
    with that(2) [of data l2 l'] Revert eq l2 show ?thesis by simp
  next
    case (refused e l')
    with that(1) [of "rejected (describe e)" l'] eq show ?thesis by (simp add: rejected_def)
  qed
next
  case (Reject reason)
  from rollbackAll_since [OF since(3) l0] obtain l' where "rollbackAll H S l = (Ok (), l')" "led_eq contents l0 l'"
      "ledger_inv contents ok H l'" by blast
  with that(1) [of "rejected reason" l'] Reject show ?thesis by (simp add: finish_def rejected_def)
qed

section \<open>Executing\<close>

lemma execute_finishes:
  assumes run: "transfer_and_dispatch H S V Rt ctx (if ctx_isDeposit ctx then Some (ctx_sender ctx) else None)
      (w\<lparr>w_sink := BufferSink (b_inputIndex (ctx_block ctx))\<rparr>) = (r, w1)" and "r \<noteq> Diverge"
  shows "execute H S V Rt ctx m ch w = on_led (finish H S m ch (outcome_of V ch r) (w_sink w1)) w1"
proof -
  let ?m = "transfer_and_dispatch H S V Rt ctx (if ctx_isDeposit ctx then Some (ctx_sender ctx) else None)"
  let ?h = "\<lambda>e. ret (if ch \<noteq> None then Revert (errorRevert V (describe e)) else Reject (describe e))"
  let ?k = "\<lambda>outcome. bnd (gets w_sink) (\<lambda>sink. on_led (finish H S m ch outcome sink))"
  let ?w = "w\<lparr>w_sink := BufferSink (b_inputIndex (ctx_block ctx))\<rparr>"
  have tc: "try_catch ?m ?h ?w = (Ok (outcome_of V ch r), w1)" using assms by (cases r) (simp_all add: outcome_of_def)
  have "execute H S V Rt ctx m ch w = bnd (try_catch ?m ?h) ?k ?w"
    unfolding execute_def by (rule bnd_Ok) simp
  also have "\<dots> = ?k (outcome_of V ch r) w1" by (rule bnd_Ok) (rule tc)
  also have "\<dots> = on_led (finish H S m ch (outcome_of V ch r) (w_sink w1)) w1" by (rule bnd_Ok) simp
  finally show ?thesis .
qed

lemma execute_runs:
  assumes H: "keccak_digest H" and V: "viem_ok V" and ctx: "ctx_ok ctx"
    and con: "contracts_respect (keeps_since contents ok H) Rt"
    and l0: "snd (jst l0) = []" and since: "since contents ok H l0 (w_led w)" and ch: "payer_ok ch"
  obtains (diverge) w' where "execute H S V Rt ctx (mark (w_led w)) ch w = (Diverge, w')"
      and "\<exists>w1. transfer_and_dispatch H S V Rt ctx (if ctx_isDeposit ctx then Some (ctx_sender ctx) else None)
        (w\<lparr>w_sink := BufferSink (b_inputIndex (ctx_block ctx))\<rparr>) = (Diverge, w1)"
  | (reject) res w' where "execute H S V Rt ctx (mark (w_led w)) ch w = (Ok res, w')" and "\<not> ar_accept res"
      and "ar_emissions res = []" and "ar_outcome res = OReject" and "led_eq contents l0 (w_led w')"
      and "ledger_inv contents ok H (w_led w')"
  | (revert) es l2 w' where "execute H S V Rt ctx (mark (w_led w)) ch w = (Ok (finished ORevert es), w')"
      and "list_all is_report es" and "led_eq contents (w_led w) l2" and "ledger_inv contents ok H l2"
      and "settled contents ok H ch l2 (w_led w')"
  | (commit) outcome w1 res w' where "execute H S V Rt ctx (mark (w_led w)) ch w = (Ok res, w')"
      and "transfer_and_dispatch H S V Rt ctx (if ctx_isDeposit ctx then Some (ctx_sender ctx) else None)
        (w\<lparr>w_sink := BufferSink (b_inputIndex (ctx_block ctx))\<rparr>) = (Ok outcome, w1)"
      and "outcome = Accept \<and> res = finished OAccept (emissions (w_sink w1)) \<or>
        (\<exists>d. outcome = Fail d \<and> res = finished OFail (emissions (w_sink w1) @ [Report (tagged TAG_FAIL d)]))"
      and "settled contents ok H ch (w_led w1) (w_led w')"
proof -
  let ?w = "w\<lparr>w_sink := BufferSink (b_inputIndex (ctx_block ctx))\<rparr>"
  let ?m = "transfer_and_dispatch H S V Rt ctx (if ctx_isDeposit ctx then Some (ctx_sender ctx) else None)"
  obtain r w1 where run: "?m ?w = (r, w1)" by (cases "?m ?w")
  have "steps (keeps_since contents ok H) ?m"
    by (rule relay_client.transfer_and_dispatch_steps [OF keeps_since_relay [OF H] H V ctx con])
  from stepsD [OF this run] have keep: "keeps_since contents ok H (w_led w) (w_led w1)" by simp
  have inv: "ledger_inv contents ok H (w_led w)" using since by (simp add: since_def)
  have s1: "since contents ok H (w_led w) (w_led w1)" and s2: "since contents ok H l0 (w_led w1)"
    using keep since since_refl [OF inv] by (simp_all add: keeps_since_def)
  show ?thesis
  proof (cases "r = Diverge")
    case True
    with run that(1) [of w1] show ?thesis by (simp add: execute_def)
  next
    case False
    let ?o = "outcome_of V ch r"
    note eq = execute_finishes [OF run False]
    have ok': "r = Ok ?o" if "?o = Accept \<or> (\<exists>d. ?o = Fail d)"
      using False that by (cases r) (auto simp: outcome_of_def split: if_splits)
    show ?thesis
    proof (rule finish_runs [OF H l0 since s1 s2 ch, of ?o "w_sink w1"], goal_cases reject revert accept fail)
      case (reject res l')
      with that(2) [of res "w1\<lparr>w_led := l'\<rparr>"] eq show ?thesis by (simp add: on_led_def zoom_run)
    next
      case (revert data l2 l')
      have "list_all is_report (reportsOnly (w_sink w1) @ [Report (tagged TAG_REVERT data)])"
        by (simp add: reportsOnly_def list_all_iff)
      with that(3) [of _ "w1\<lparr>w_led := l'\<rparr>" l2] revert eq show ?thesis by (simp add: on_led_def zoom_run)
    next
      case (accept l')
      with that(4) [of _ "w1\<lparr>w_led := l'\<rparr>" ?o w1] run eq ok' show ?thesis by (simp add: on_led_def zoom_run)
    next
      case (fail data l')
      with that(4) [of _ "w1\<lparr>w_led := l'\<rparr>" ?o w1] run eq ok' show ?thesis by (simp add: on_led_def zoom_run)
    qed
  qed
qed

text \<open>A signed transaction is rejected with the world as it was, or admitted and executed with its sender to charge.\<close>

lemma signed_admission:
  assumes H: "keccak_digest H" and V: "viem_ok V"
    and tx: "\<And>a. sg_to tx = Some a \<Longrightarrow> length a = 20" and nz: "\<And>a. recoverSender V tx = Some a \<Longrightarrow> \<not> isZero a"
    and inv: "ledger_inv contents ok H (w_led w)"
  obtains (rejected) reason where "advanceSigned H S V Rt block tx w = (Ok (rejected reason), w)"
  | (admitted) sender dst where "sg_to tx = Some dst" and "length sender = 20" and "length dst = 20"
      and "admitted V Rt (labs contents (w_led w)) (ram w) tx sender"
      and "advanceSigned H S V Rt block tx w =
        execute H S V Rt (signed_ctx block sender dst tx) (mark (w_led w)) (Some (sender, fee (ram w))) w"
proof (cases "sg_to tx = None \<or> sg_chainId tx \<noteq> None \<and> sg_chainId tx \<noteq> Some (cfg_chainId Rt) \<or> recoverSender V tx = None")
  case True
  then have "\<exists>reason. advanceSigned H S V Rt block tx w = (Ok (rejected reason), w)"
    by (auto simp: advanceSigned_def split: option.split)
  with that(1) show ?thesis by blast
next
  case False
  then obtain dst sender where ds: "sg_to tx = Some dst" "recoverSender V tx = Some sender" by auto
  have len: "length sender = 20" "length dst = 20"
    using ds tx V by (auto simp: recoverSender_def viem_ok_def split: if_splits res.splits)
  let ?a = "labs contents (w_led w)"
  have acc: "on_led (account H S sender) w = (Ok (int (nonceOf ?a sender), int (etherOf ?a sender)), w)"
    using account_runs [OF H len(1) inv] nz ds(2) by (simp add: on_led_def zoom_run)
  show ?thesis
  proof (cases "sg_nonce tx = nonceOf ?a sender \<and> fee (ram w) + int (sg_value tx) \<le> int (etherOf ?a sender)")
    case no: False
    then have "\<exists>reason. advanceSigned H S V Rt block tx w = (Ok (rejected reason), w)"
      using False ds acc by (cases "sg_nonce tx = nonceOf ?a sender") (auto simp: advanceSigned_def)
    with that(1) show ?thesis by blast
  next
    case yes: True
    show ?thesis
    proof (rule that(2) [OF ds(1) len])
      show "admitted V Rt ?a (ram w) tx sender" using yes False ds by (auto simp: admitted_def)
      show "advanceSigned H S V Rt block tx w =
          execute H S V Rt (signed_ctx block sender dst tx) (mark (w_led w)) (Some (sender, fee (ram w))) w"
        using yes False ds acc by (auto simp: advanceSigned_def signed_ctx_def)
    qed
  qed
qed

lemma signed_runs:
  assumes H: "keccak_digest H" and V: "viem_ok V" and con: "contracts_respect (keeps_since contents ok H) Rt"
    and tx: "\<And>a. sg_to tx = Some a \<Longrightarrow> length a = 20" and nz: "\<And>a. recoverSender V tx = Some a \<Longrightarrow> \<not> isZero a"
    and inv: "ledger_inv contents ok H (w_led w)" and l0: "snd (jst (w_led w)) = []"
  obtains (diverge) sender dst w' where "advanceSigned H S V Rt block tx w = (Diverge, w')"
      and "\<exists>w1. transfer_and_dispatch H S V Rt (signed_ctx block sender dst tx) None (w\<lparr>w_sink := BufferSink (b_inputIndex block)\<rparr>) = (Diverge, w1)"
      and "length sender = 20" and "length dst = 20"
  | (reject) res w' where "advanceSigned H S V Rt block tx w = (Ok res, w')" and "\<not> ar_accept res" and "ar_emissions res = []"
      and "ar_outcome res = OReject" and "led_eq contents (w_led w) (w_led w')" and "ledger_inv contents ok H (w_led w')"
  | (revert) sender es l2 w' where "advanceSigned H S V Rt block tx w = (Ok (finished ORevert es), w')"
      and "admitted V Rt (labs contents (w_led w)) (ram w) tx sender" and "list_all is_report es"
      and "led_eq contents (w_led w) l2" and "ledger_inv contents ok H l2"
      and "settled contents ok H (Some (sender, fee (ram w))) l2 (w_led w')"
  | (commit) sender dst outcome w1 res w' where "advanceSigned H S V Rt block tx w = (Ok res, w')"
      and "admitted V Rt (labs contents (w_led w)) (ram w) tx sender" and "sg_to tx = Some dst"
      and "transfer_and_dispatch H S V Rt (signed_ctx block sender dst tx) None (w\<lparr>w_sink := BufferSink (b_inputIndex block)\<rparr>) = (Ok outcome, w1)"
      and "outcome = Accept \<and> res = finished OAccept (emissions (w_sink w1)) \<or>
        (\<exists>d. outcome = Fail d \<and> res = finished OFail (emissions (w_sink w1) @ [Report (tagged TAG_FAIL d)]))"
      and "settled contents ok H (Some (sender, fee (ram w))) (w_led w1) (w_led w')"
proof -
  show ?thesis
  proof (rule signed_admission [OF H V _ _ inv, where tx = tx and Rt = Rt and block = block], goal_cases to sender rejected admitted)
    case (to a)
    then show ?case by (rule tx)
  next
    case (sender a)
    then show ?case by (rule nz)
  next
    case (rejected reason)
    then show ?thesis using that(2) [of "rejected reason" w] inv by (simp add: rejected_def led_eq_def)
  next
    case (admitted sender dst)
    let ?ctx = "signed_ctx block sender dst tx"
    have ctx: "ctx_ok ?ctx" and py: "payer_ok (Some (sender, fee (ram w)))"
      using admitted(2,3) by (simp_all add: ctx_ok_def signed_ctx_def payer_ok_def)
    have dep: "(if ctx_isDeposit ?ctx then Some (ctx_sender ?ctx) else None) = None" "ctx_block ?ctx = block"
      by (simp_all add: signed_ctx_def)
    show ?thesis
    proof (rule execute_runs [OF H V ctx con l0 since_refl [OF inv] py, unfolded dep], goal_cases diverge reject revert commit)
      case (diverge w')
      with that(1) admitted show ?thesis by simp
    next
      case (reject res w')
      with that(2) [of res w'] admitted show ?thesis by simp
    next
      case (revert es l2 w')
      with that(3) [of es w' sender l2] admitted show ?thesis by simp
    next
      case (commit outcome w1 res w')
      with that(4) [of res w' sender dst outcome w1] admitted show ?thesis by simp
    qed
  qed
qed

text \<open>A deposit is rejected with the ledger restored when its mint is refused; otherwise the minted ledger is what its
  message runs on, and what is left when there is no one to call.\<close>

lemma deposit_mints:
  assumes H: "keccak_digest H" and from20: "length (dep_from d) = 20"
    and inv: "ledger_inv contents ok H (w_led w)" and l0: "snd (jst (w_led w)) = []"
  obtains (refused) reason l2 where "advanceDeposit H S V Rt block d w = (Ok (rejected reason), w\<lparr>w_led := l2\<rparr>)"
      and "led_eq contents (w_led w) l2" and "ledger_inv contents ok H l2"
  | (minted) l1 where "minted contents ok H S d (w_led w) l1" and "ledger_inv contents ok H l1"
      and "since contents ok H (w_led w) l1"
      and "dep_to d = None \<Longrightarrow> advanceDeposit H S V Rt block d w =
        (Ok (finished OAccept []), w\<lparr>w_led := l1\<lparr>jst := (fst (jst l1), [])\<rparr>\<rparr>)"
      and "\<And>dst. dep_to d = Some dst \<Longrightarrow> advanceDeposit H S V Rt block d w =
        execute H S V Rt (deposit_ctx block dst d) (mark l1) None (w\<lparr>w_led := l1\<rparr>)"
proof -
  show ?thesis
  proof (rule creditEther_runs [OF H from20 inv, of "dep_mint d"], goal_cases Ok Throw)
    case (Throw e l')
    have "since contents ok H (w_led w) l'"
      by (rule journaledD [OF creditEther_journaled [OF H from20] since_refl [OF inv] Throw(1)])
    from rollbackAll_since [OF this l0] obtain l2 where l2: "rollbackAll H S l' = (Ok (), l2)" "led_eq contents (w_led w) l2"
        "ledger_inv contents ok H l2" by blast
    have "\<exists>reason. advanceDeposit H S V Rt block d w = (Ok (rejected reason), w\<lparr>w_led := l2\<rparr>)"
      using Throw(1) l2(1) by (auto simp: advanceDeposit_def on_led_def zoom_run split: option.split)
    with that(1) l2(2,3) show ?thesis by blast
  next
    case (Ok l1)
    have mint: "on_led (try_catch (bnd (creditEther H S (dep_from d) (int (dep_mint d))) (\<lambda>_. ret None))
                 (\<lambda>_. bnd (rollbackAll H S) (\<lambda>_. ret (Some (rejected ''mint refused (drive full)''))))) w
        = (Ok None, w\<lparr>w_led := l1\<rparr>)"
      using Ok(1) by (simp add: on_led_def zoom_run)
    show ?thesis
    proof (rule that(2))
      show "minted contents ok H S d (w_led w) l1" "ledger_inv contents ok H l1"
        using Ok by (simp_all add: minted_def drive_step_def)
      show "since contents ok H (w_led w) l1"
        by (rule journaledD [OF creditEther_journaled [OF H from20] since_refl [OF inv] Ok(1)])
      show "advanceDeposit H S V Rt block d w = (Ok (finished OAccept []), w\<lparr>w_led := l1\<lparr>jst := (fst (jst l1), [])\<rparr>\<rparr>)"
        if "dep_to d = None"
        using that Ok(1) by (simp add: advanceDeposit_def on_led_def zoom_run commit_def)
      show "advanceDeposit H S V Rt block d w = execute H S V Rt (deposit_ctx block dst d) (mark l1) None (w\<lparr>w_led := l1\<rparr>)"
        if "dep_to d = Some dst" for dst
        using that mint by (simp add: advanceDeposit_def deposit_ctx_def)
    qed
  qed
qed

lemma deposit_runs:
  assumes H: "keccak_digest H" and V: "viem_ok V" and con: "contracts_respect (keeps_since contents ok H) Rt"
    and from20: "length (dep_from d) = 20" and to20: "\<And>a. dep_to d = Some a \<Longrightarrow> length a = 20"
    and inv: "ledger_inv contents ok H (w_led w)" and l0: "snd (jst (w_led w)) = []"
  obtains (diverge) dst l1 w' where "advanceDeposit H S V Rt block d w = (Diverge, w')" and "length dst = 20"
      and "ledger_inv contents ok H l1"
      and "\<exists>w1. transfer_and_dispatch H S V Rt (deposit_ctx block dst d) (Some (dep_from d))
        (w\<lparr>w_led := l1, w_sink := BufferSink (b_inputIndex block)\<rparr>) = (Diverge, w1)"
  | (reject) res w' where "advanceDeposit H S V Rt block d w = (Ok res, w')" and "\<not> ar_accept res" and "ar_emissions res = []"
      and "ar_outcome res = OReject" and "led_eq contents (w_led w) (w_led w')" and "ledger_inv contents ok H (w_led w')"
  | (mint) l1 w' where "dep_to d = None" and "advanceDeposit H S V Rt block d w = (Ok (finished OAccept []), w')"
      and "minted contents ok H S d (w_led w) l1" and "settled contents ok H None l1 (w_led w')"
  | (revert) l1 es l2 w' where "advanceDeposit H S V Rt block d w = (Ok (finished ORevert es), w')"
      and "minted contents ok H S d (w_led w) l1" and "list_all is_report es"
      and "led_eq contents l1 l2" and "ledger_inv contents ok H l2" and "settled contents ok H None l2 (w_led w')"
  | (commit) l1 dst outcome w1 res w' where "advanceDeposit H S V Rt block d w = (Ok res, w')"
      and "minted contents ok H S d (w_led w) l1" and "dep_to d = Some dst"
      and "transfer_and_dispatch H S V Rt (deposit_ctx block dst d) (Some (dep_from d))
        (w\<lparr>w_led := l1, w_sink := BufferSink (b_inputIndex block)\<rparr>) = (Ok outcome, w1)"
      and "outcome = Accept \<and> res = finished OAccept (emissions (w_sink w1)) \<or>
        (\<exists>d. outcome = Fail d \<and> res = finished OFail (emissions (w_sink w1) @ [Report (tagged TAG_FAIL d)]))"
      and "settled contents ok H None (w_led w1) (w_led w')"
proof -
  show ?thesis
  proof (rule deposit_mints [OF H from20 inv l0, where V = V and Rt = Rt and block = block], goal_cases refused minted)
    case (refused reason l2)
    then show ?thesis using that(2) [of "rejected reason" "w\<lparr>w_led := l2\<rparr>"] by (simp add: rejected_def)
  next
    case (minted l1)
    show ?thesis
    proof (cases "dep_to d")
      case None
      have "settled contents ok H None l1 (l1\<lparr>jst := (fst (jst l1), [])\<rparr>)"
        using minted(2) by (simp add: settled_def ledger_inv_def labs_def)
      then show ?thesis by (intro that(3) [OF None minted(4) [OF None] minted(1)]) simp
    next
      case (Some dst)
      let ?ctx = "deposit_ctx block dst d" and ?w = "w\<lparr>w_led := l1\<rparr>"
      have eq: "advanceDeposit H S V Rt block d w = execute H S V Rt ?ctx (mark (w_led ?w)) None ?w"
        using minted(5) [OF Some] by simp
      have dep: "(if ctx_isDeposit ?ctx then Some (ctx_sender ?ctx) else None) = Some (dep_from d)" "ctx_block ?ctx = block"
        by (simp_all add: deposit_ctx_def)
      have ctx: "ctx_ok ?ctx" using from20 to20 Some by (simp add: ctx_ok_def deposit_ctx_def)
      have since: "since contents ok H (w_led w) (w_led ?w)" and py: "payer_ok None"
        using minted(3) by (simp_all add: payer_ok_def)
      show ?thesis
      proof (rule execute_runs [OF H V ctx con l0 since py, unfolded dep], goal_cases diverge reject revert commit)
        case (diverge w')
        with that(1) [of w' dst l1] eq to20 Some minted(2) show ?thesis by simp
      next
        case (reject res w')
        with that(2) [of res w'] eq show ?thesis by simp
      next
        case (revert es l2 w')
        with that(4) [of es w' l1 l2] eq minted(1) show ?thesis by simp
      next
        case (commit outcome w1 res w')
        with that(5) [of res w' l1 dst outcome w1] eq minted(1) Some show ?thesis by simp
      qed
    qed
  qed
qed

end

section \<open>Inputs\<close>

lemma parse_deposit:
  assumes "viem_ok V" and "parseInput V raw = Deposit d"
  shows "length (dep_from d) = 20" and "dep_to d = Some a \<Longrightarrow> length a = 20"
  using assms by (auto simp: parseInput_def viem_ok_def split: res.splits if_splits option.splits)

lemma parse_signed:
  assumes "viem_ok V" and "parseInput V raw = Signed tx" and "sg_to tx = Some a"
  shows "length a = 20"
  using assms by (auto simp: parseInput_def viem_ok_def split: res.splits if_splits option.splits)

text \<open>A recovered signer is not the zero address, which the drive refuses to look up.\<close>

definition signer_nonzero :: "Viem \<Rightarrow> bytes \<Rightarrow> bool" where
  "signer_nonzero V raw \<longleftrightarrow> (case parseInput V raw of
     Signed tx \<Rightarrow> (case recoverSender V tx of None \<Rightarrow> True | Some a \<Rightarrow> \<not> isZero a) | _ \<Rightarrow> True)"

text \<open>Preorders that also admit the settling of an input.\<close>

locale input_client = relay_client S H R contents ok
  for S :: "'s store" and H :: "bytes \<Rightarrow> bytes" and R :: "'s Ledger \<Rightarrow> 's Ledger \<Rightarrow> bool"
    and contents :: "'s \<Rightarrow> bytes" and ok :: "'s \<Rightarrow> bool" +
  assumes settle: "ledger_inv contents ok H l \<Longrightarrow> settled contents ok H ch l l' \<Longrightarrow> R l l'"
begin

lemma dispatch_respects:
  assumes H: "keccak_digest H" and V: "viem_ok V" and ctx: "ctx_ok ctx" and con: "contracts_respect R Rt"
    and run: "transfer_and_dispatch H S V Rt ctx deposit w = (Ok outcome, w1)"
  shows "R (w_led w) (w_led w1)"
proof -
  have "steps R (transfer_and_dispatch H S V Rt ctx deposit)" by (rule transfer_and_dispatch_steps [OF H V ctx con])
  from stepsD [OF this run] show ?thesis .
qed

lemma dispatch_inv:
  assumes H: "keccak_digest H" and V: "viem_ok V" and ctx: "ctx_ok ctx" and con: "contracts_respect (keeps_since contents ok H) Rt"
    and run: "transfer_and_dispatch H S V Rt ctx deposit w = (r, w1)" and inv: "ledger_inv contents ok H (w_led w)"
  shows "ledger_inv contents ok H (w_led w1)"
proof -
  have "steps (keeps_since contents ok H) (transfer_and_dispatch H S V Rt ctx deposit)"
    by (rule relay_client.transfer_and_dispatch_steps [OF keeps_since_relay [OF H] H V ctx con])
  from stepsD [OF this run] since_refl [OF inv] show ?thesis by (auto simp: keeps_since_def since_def)
qed

lemma settled_clean: "settled contents ok H ch l l' \<Longrightarrow> ledger_inv contents ok H l' \<and> snd (jst l') = []"
  by (simp add: settled_def)

lemma led_eq_clean: "led_eq contents l l' \<Longrightarrow> snd (jst l) = [] \<Longrightarrow> snd (jst l') = []"
  by (simp add: led_eq_def)

lemma signed_respects:
  assumes H: "keccak_digest H" and V: "viem_ok V"
    and con: "contracts_respect (keeps_since contents ok H) Rt" "contracts_respect R Rt"
    and tx: "\<And>a. sg_to tx = Some a \<Longrightarrow> length a = 20" and nz: "\<And>a. recoverSender V tx = Some a \<Longrightarrow> \<not> isZero a"
    and inv: "ledger_inv contents ok H (w_led w)" and l0: "snd (jst (w_led w)) = []"
    and run: "advanceSigned H S V Rt block tx w = (r, w')" and r: "r \<noteq> Diverge"
  shows "(\<exists>res. r = Ok res) \<and> R (w_led w) (w_led w') \<and> ledger_inv contents ok H (w_led w') \<and> snd (jst (w_led w')) = []"
proof (rule signed_runs [where tx = tx and block = block, OF H V con(1) tx nz inv l0], goal_cases tx nz diverge reject revert commit)
  case (diverge sender dst w'')
  with run r show ?case by simp
next
  case (reject res w'')
  with run inv l0 restored [of "w_led w" "w_led w'"] led_eq_clean [of "w_led w" "w_led w'"] show ?case by auto
next
  case (revert sender es l2 w'')
  with run have w: "w'' = w'" "r = Ok (finished ORevert es)" by simp_all
  have "R (w_led w) l2" "R l2 (w_led w')"
    using restored [OF inv revert(4,5)] settle [OF revert(5,6)] w by simp_all
  then show ?case using trans settled_clean [OF revert(6)] w by blast
next
  case (commit sender dst outcome w1 res w'')
  with run have w: "w'' = w'" "r = Ok res" by simp_all
  have ctx: "ctx_ok (signed_ctx block sender dst tx)"
    using commit(2,3) tx V by (auto simp: ctx_ok_def signed_ctx_def admitted_def recoverSender_def viem_ok_def split: if_splits res.splits)
  have "ledger_inv contents ok H (w_led w1)"
    by (rule dispatch_inv [OF H V ctx con(1) commit(4)]) (simp add: inv)
  from settle [OF this commit(6)] dispatch_respects [OF H V ctx con(2) commit(4)]
  have "R (w_led w1) (w_led w')" "R (w_led w) (w_led w1)" using w by simp_all
  then show ?case using trans settled_clean [OF commit(6)] w by blast
qed (use tx nz in blast)+

lemma deposit_respects:
  assumes H: "keccak_digest H" and V: "viem_ok V"
    and con: "contracts_respect (keeps_since contents ok H) Rt" "contracts_respect R Rt"
    and from20: "length (dep_from d) = 20" and to20: "\<And>a. dep_to d = Some a \<Longrightarrow> length a = 20"
    and inv: "ledger_inv contents ok H (w_led w)" and l0: "snd (jst (w_led w)) = []"
    and run: "advanceDeposit H S V Rt block d w = (r, w')" and r: "r \<noteq> Diverge"
  shows "(\<exists>res. r = Ok res) \<and> R (w_led w) (w_led w') \<and> ledger_inv contents ok H (w_led w') \<and> snd (jst (w_led w')) = []"
proof -
  have m1: "R (w_led w) l1 \<and> ledger_inv contents ok H l1" if "minted contents ok H S d (w_led w) l1" for l1
    using that credit [OF from20, of "w_led w" "dep_mint d"] by (simp add: minted_def drive_step_def)
  show ?thesis
  proof (rule deposit_runs [where d = d and block = block, OF H V con(1) from20 to20 inv l0], goal_cases to20 diverge reject mint revert commit)
    case (diverge dst l1 w'')
    with run r show ?case by simp
  next
    case (reject res w'')
    with run inv l0 restored [of "w_led w" "w_led w'"] led_eq_clean [of "w_led w" "w_led w'"] show ?case by auto
  next
    case (mint l1 w'')
    with run have w: "w'' = w'" "r = Ok (finished OAccept [])" by simp_all
    have "R (w_led w) l1" "R l1 (w_led w')" using m1 [OF mint(3)] settle [OF _ mint(4)] w by simp_all
    then show ?case using trans settled_clean [OF mint(4)] w by blast
  next
    case (revert l1 es l2 w'')
    with run have w: "w'' = w'" "r = Ok (finished ORevert es)" by simp_all
    have "R (w_led w) l1" "R l1 l2" "R l2 (w_led w')"
      using m1 [OF revert(2)] restored [OF _ revert(4,5)] settle [OF revert(5,6)] w by simp_all
    then show ?case using trans settled_clean [OF revert(6)] w by blast
  next
    case (commit l1 dst outcome w1 res w'')
    with run have w: "w'' = w'" "r = Ok res" by simp_all
    have ctx: "ctx_ok (deposit_ctx block dst d)" using commit(3) from20 to20 by (simp add: ctx_ok_def deposit_ctx_def)
    have "ledger_inv contents ok H (w_led w1)"
      by (rule dispatch_inv [OF H V ctx con(1) commit(4)]) (use m1 [OF commit(2)] in simp)
    from settle [OF this commit(6)] dispatch_respects [OF H V ctx con(2) commit(4)] m1 [OF commit(2)]
    have "R (w_led w1) (w_led w')" "R l1 (w_led w1)" "R (w_led w) l1" using w by simp_all
    then show ?case using trans settled_clean [OF commit(6)] w by blast
  qed (use to20 in blast)
qed

lemma advance_respects:
  assumes H: "keccak_digest H" and V: "viem_ok V" and nz: "signer_nonzero V raw"
    and con: "contracts_respect (keeps_since contents ok H) Rt" "contracts_respect R Rt"
    and inv: "ledger_inv contents ok H (w_led w)" and l0: "snd (jst (w_led w)) = []"
    and run: "router_advance H S V Rt block raw w = (r, w')" and r: "r \<noteq> Diverge"
  shows "(\<exists>res. r = Ok res) \<and> R (w_led w) (w_led w') \<and> ledger_inv contents ok H (w_led w') \<and> snd (jst (w_led w')) = []"
proof (cases "parseInput V raw")
  case (Deposit d)
  then have "advanceDeposit H S V Rt block d w = (r, w')" using run by (simp add: router_advance_def)
  from deposit_respects [OF H V con _ _ inv l0 this r] parse_deposit [OF V Deposit] show ?thesis by blast
next
  case (Signed tx)
  then have "advanceSigned H S V Rt block tx w = (r, w')" using run by (simp add: router_advance_def)
  moreover have "\<not> isZero a" if "recoverSender V tx = Some a" for a using nz Signed that by (simp add: signer_nonzero_def)
  ultimately show ?thesis using signed_respects [OF H V con _ _ inv l0 _ r] parse_signed [OF V Signed] by blast
qed (use run inv l0 in \<open>auto simp: router_advance_def refl\<close>)

end

context byte_store
begin

lemma simulate_runs:
  assumes H: "keccak_digest H" and V: "viem_ok V" and con: "contracts_respect (keeps_since contents ok H) Rt"
    and len: "length (dc_from call) = 20" "length (dc_to call) = 20" and inv: "ledger_inv contents ok H (w_led w)"
    and run: "inspect_simulate H S V Rt call w = (r, w')"
  shows "r = Diverge \<or> (\<exists>res. r = Ok res) \<and> led_eq contents (w_led w) (w_led w') \<and> ledger_inv contents ok H (w_led w')"
proof -
  let ?b = "case lastBlock Rt of Some b \<Rightarrow> b | None \<Rightarrow> emptyBlock (cfg_chainId Rt)"
  let ?ctx = "\<lparr>ctx_block = ?b, ctx_sender = dc_from call, ctx_to = dc_to call, ctx_value = dc_value call,
      ctx_data = dc_data call, ctx_isDeposit = False, ctx_mint = 0\<rparr>"
  let ?w = "w\<lparr>w_sink := BufferSink (b_inputIndex ?b)\<rparr>"
  let ?m = "try_catch (transfer_and_dispatch H S V Rt ?ctx None) (\<lambda>e. ret (Revert (errorRevert V (describe e))))"
  note rc = keeps_since_relay [OF H]
  note rd = ledger_client.axioms(1) [OF relay_client.axioms(1) [OF rc]]
  have "steps (keeps_since contents ok H) ?m"
    using len by (intro reader_client.steps_try_catch [OF rd] reader_client.steps_ret [OF rd]
        relay_client.transfer_and_dispatch_steps [OF rc H V _ con]) (simp add: ctx_ok_def)
  moreover obtain r1 w1 where m: "?m ?w = (r1, w1)" by (cases "?m ?w")
  ultimately have "keeps_since contents ok H (w_led ?w) (w_led w1)" by (rule stepsD)
  then have since: "since contents ok H (w_led w) (w_led w1)" using since_refl [OF inv] by (simp add: keeps_since_def)
  from rollback_to_since [OF this] obtain l' where l': "rollback_to H S (mark (w_led w)) (w_led w1) = (Ok (), l')"
      "led_eq contents (w_led w) l'" "ledger_inv contents ok H l'" by blast
  have nt: "r1 \<noteq> Throw e" for e
    using m by (auto simp: try_catch_def split: prod.splits res.splits)
  have undone: "on_led (rollback_to H S (mark (w_led w))) w1 = (Ok (), w1\<lparr>w_led := l'\<rparr>)"
    using l'(1) by (simp add: on_led_def zoom_run)
  let ?k = "\<lambda>outcome. bnd (on_led (rollback_to H S (mark (w_led w)))) (\<lambda>_. ret (case outcome of
              Revert data \<Rightarrow> answered False TAG_REVERT data
            | Fail data \<Rightarrow> answered False TAG_FAIL data
            | _ \<Rightarrow> answered True TAG_RETURN []))"
  have eq: "inspect_simulate H S V Rt call w = bnd ?m ?k ?w"
    by (simp add: inspect_simulate_def Let_def)
  show ?thesis
  proof (cases r1)
    case (Ok outcome)
    then have "inspect_simulate H S V Rt call w = ?k outcome w1" unfolding eq using m by (simp only: bnd_Ok)
    with undone run l' show ?thesis by auto
  next
    case Diverge
    then have "inspect_simulate H S V Rt call w = (Diverge, w1)" unfolding eq using m by (simp only: bnd_Diverge)
    with run show ?thesis by simp
  qed (use nt in blast)
qed

end

end
