(* ===== verification/Router_Inv.thy ===== *)
theory Router_Inv
  imports Router_Steps
begin

text \<open>
  The preorders the handler and router locales are used with, besides the journal's own.

  \<^item> \<open>nonces_kept\<close>: no handler changes a nonce.
  \<^item> \<open>supply_kept\<close>: the total a facade reports stays the sum of the balances.
  \<^item> \<open>escrow_kept\<close>: an ERC-20 portal and the standard bridge are never registered together.
  \<^item> \<open>messages_kept\<close>: a message relayed once successfully stays so.
  \<^item> \<open>history_kept\<close>: tokens keep their place in the registry and the message counter never goes back.

  Most ledger operations respect all five at once; \<open>mild\<close> is what they have in common.
\<close>

section \<open>The preorders\<close>

definition escrow_ok :: "Ram \<Rightarrow> bool" where
  "escrow_ok r \<longleftrightarrow> \<not> (crossDomain r \<noteq> None \<and> hasErc20Portal r)"

definition mild :: "('s \<Rightarrow> bytes) \<Rightarrow> ('s \<Rightarrow> bool) \<Rightarrow> (bytes \<Rightarrow> bytes) \<Rightarrow> 's Ledger \<Rightarrow> 's Ledger \<Rightarrow> bool" where
  "mild contents ok H l l' \<longleftrightarrow> ledger_inv contents ok H l' \<and>
     (\<forall>a. nonceOf (labs contents l') a = nonceOf (labs contents l) a) \<and> (supply_inv contents l \<longrightarrow> supply_inv contents l') \<and>
     portals (l_ram l') = portals (l_ram l) \<and> crossDomainConfig (l_ram l') = crossDomainConfig (l_ram l) \<and>
     messages (l_ram l') = messages (l_ram l) \<and> prefix (a_toks (labs contents l)) (a_toks (labs contents l')) \<and>
     msgNonce (l_ram l) \<le> msgNonce (l_ram l')"

definition nonces_kept :: "('s \<Rightarrow> bytes) \<Rightarrow> ('s \<Rightarrow> bool) \<Rightarrow> (bytes \<Rightarrow> bytes) \<Rightarrow> 's Ledger \<Rightarrow> 's Ledger \<Rightarrow> bool" where
  "nonces_kept contents ok H l l' \<longleftrightarrow> (ledger_inv contents ok H l \<longrightarrow>
     ledger_inv contents ok H l' \<and> (\<forall>a. nonceOf (labs contents l') a = nonceOf (labs contents l) a))"

definition supply_kept :: "('s \<Rightarrow> bytes) \<Rightarrow> ('s \<Rightarrow> bool) \<Rightarrow> (bytes \<Rightarrow> bytes) \<Rightarrow> 's Ledger \<Rightarrow> 's Ledger \<Rightarrow> bool" where
  "supply_kept contents ok H l l' \<longleftrightarrow> (ledger_inv contents ok H l \<longrightarrow>
     ledger_inv contents ok H l' \<and> (supply_inv contents l \<longrightarrow> supply_inv contents l'))"

definition escrow_kept :: "('s \<Rightarrow> bytes) \<Rightarrow> ('s \<Rightarrow> bool) \<Rightarrow> (bytes \<Rightarrow> bytes) \<Rightarrow> 's Ledger \<Rightarrow> 's Ledger \<Rightarrow> bool" where
  "escrow_kept contents ok H l l' \<longleftrightarrow> (ledger_inv contents ok H l \<longrightarrow>
     ledger_inv contents ok H l' \<and> (escrow_ok (l_ram l) \<longrightarrow> escrow_ok (l_ram l')))"

definition messages_kept :: "('s \<Rightarrow> bytes) \<Rightarrow> ('s \<Rightarrow> bool) \<Rightarrow> (bytes \<Rightarrow> bytes) \<Rightarrow> 's Ledger \<Rightarrow> 's Ledger \<Rightarrow> bool" where
  "messages_kept contents ok H l l' \<longleftrightarrow> (ledger_inv contents ok H l \<longrightarrow> ledger_inv contents ok H l' \<and>
     (\<forall>h. messageStatus h (l_ram l) = Some successful \<longrightarrow> messageStatus h (l_ram l') = Some successful))"

definition history_kept :: "('s \<Rightarrow> bytes) \<Rightarrow> ('s \<Rightarrow> bool) \<Rightarrow> (bytes \<Rightarrow> bytes) \<Rightarrow> 's Ledger \<Rightarrow> 's Ledger \<Rightarrow> bool" where
  "history_kept contents ok H l l' \<longleftrightarrow> (ledger_inv contents ok H l \<longrightarrow> ledger_inv contents ok H l' \<and>
     prefix (a_toks (labs contents l)) (a_toks (labs contents l')) \<and> peekMessageNonce (l_ram l) \<le> peekMessageNonce (l_ram l'))"

lemmas kept_defs = nonces_kept_def supply_kept_def escrow_kept_def messages_kept_def history_kept_def

lemma mild_kept:
  assumes "ledger_inv contents ok H l \<Longrightarrow> mild contents ok H l l'"
  shows "nonces_kept contents ok H l l'" and "supply_kept contents ok H l l'" and "escrow_kept contents ok H l l'"
    and "messages_kept contents ok H l l'" and "history_kept contents ok H l l'"
  using assms by (auto simp: kept_defs mild_def escrow_ok_def crossDomain_def hasErc20Portal_def messageStatus_def peekMessageNonce_def)

section \<open>What the operations do\<close>

lemma mild_drive:
  assumes "drive_step contents ok H l l'" and "\<And>a. nonceOf (labs contents l') a = nonceOf (labs contents l) a"
    and "a_bal (labs contents l') = a_bal (labs contents l)" and "a_toks (labs contents l') = a_toks (labs contents l)"
  shows "mild contents ok H l l'"
  using assms by (simp add: mild_def drive_step_def supply_inv_def circulating_def)

lemma mild_token:
  assumes "ledger_inv contents ok H l'" and "token_moved (labs contents l) (labs contents l') tid addr v"
    and "total_moved (l_ram l) (l_ram l') tid v" and "length addr = 20"
  shows "mild contents ok H l l'"
proof -
  have r: "l_ram l' = (l_ram l)\<lparr>totals := totals (l_ram l')\<rparr>" using assms(3) by (simp add: total_moved_def)
  have "portals (l_ram l') = portals (l_ram l)" "crossDomainConfig (l_ram l') = crossDomainConfig (l_ram l)"
    "messages (l_ram l') = messages (l_ram l)" "msgNonce (l_ram l') = msgNonce (l_ram l)" by (subst r, simp)+
  then show ?thesis
    using assms(1,2) supply_inv_moved [OF _ assms(2-4)] by (simp add: mild_def token_moved_def)
qed

lemma mild_same: "ledger_inv contents ok H l' \<Longrightarrow> labs contents l' = labs contents l \<Longrightarrow> l_ram l' = l_ram l \<Longrightarrow> mild contents ok H l l'"
  by (simp add: mild_def supply_inv_def)

text \<open>An operation on the RAM alone.\<close>

lemmas ram_ops = setMetadata_def setFee_def nextMessageNonce_def registerPortal_def registerCrossDomain_def
  setMessageStatus_def journal_note_def map_ram_def

lemma mild_ram:
  assumes "ledger_inv contents ok H l"
  shows "mild contents ok H l (snd (setMetadata tid m l))" and "mild contents ok H l (snd (setFee v l))"
    and "mild contents ok H l (snd (nextMessageNonce l))"
  using assms by (simp_all add: ram_ops mild_def ledger_inv_def labs_def supply_inv_def totalSupply_def)

lemma registration_kept:
  assumes inv: "ledger_inv contents ok H l"
  shows "nonces_kept contents ok H l (snd (registerPortal a kind l))" and "supply_kept contents ok H l (snd (registerPortal a kind l))"
    and "messages_kept contents ok H l (snd (registerPortal a kind l))"
    and "nonces_kept contents ok H l (snd (registerCrossDomain c l))" and "supply_kept contents ok H l (snd (registerCrossDomain c l))"
    and "messages_kept contents ok H l (snd (registerCrossDomain c l))"
    and "nonces_kept contents ok H l (snd (setMessageStatus h st l))" and "supply_kept contents ok H l (snd (setMessageStatus h st l))"
    and "escrow_kept contents ok H l (snd (setMessageStatus h st l))"
    and "history_kept contents ok H l (snd (registerPortal a kind l))" and "history_kept contents ok H l (snd (registerCrossDomain c l))"
    and "history_kept contents ok H l (snd (setMessageStatus h st l))"
  using inv by (simp_all add: kept_defs ram_ops ledger_inv_def labs_def supply_inv_def totalSupply_def messageStatus_def
      escrow_ok_def crossDomain_def hasErc20Portal_def peekMessageNonce_def)

lemma update_ex: "list_ex P (AList.update k v al) \<Longrightarrow> list_ex P al \<or> P (k, v)"
  by (induction al) (auto split: if_splits)

lemma portal_escrow:
  assumes "kind = PORTAL_ERC20 \<Longrightarrow> crossDomain (l_ram l) = None" and "ledger_inv contents ok H l"
  shows "escrow_kept contents ok H l (snd (registerPortal a kind l))"
  using assms update_ex [of "\<lambda>(_, kind). kind = PORTAL_ERC20" a kind "portals (l_ram l)"]
  by (auto simp: escrow_kept_def ram_ops ledger_inv_def escrow_ok_def crossDomain_def hasErc20Portal_def)

lemma messenger_escrow:
  assumes "\<not> hasErc20Portal (l_ram l)" and "ledger_inv contents ok H l"
  shows "escrow_kept contents ok H l (snd (registerCrossDomain c l))"
  using assms by (simp add: escrow_kept_def ram_ops ledger_inv_def escrow_ok_def hasErc20Portal_def)

lemma status_messages:
  assumes "st = successful \<or> messageStatus h (l_ram l) \<noteq> Some successful" and "ledger_inv contents ok H l"
  shows "messages_kept contents ok H l (snd (setMessageStatus h st l))"
  using assms by (auto simp: messages_kept_def ram_ops ledger_inv_def messageStatus_def)

lemma kept_refl: "nonces_kept contents ok H l l" "supply_kept contents ok H l l" "escrow_kept contents ok H l l" "messages_kept contents ok H l l"
  "history_kept contents ok H l l"
  by (simp_all add: kept_defs)

lemma kept_trans:
  "nonces_kept contents ok H l l' \<Longrightarrow> nonces_kept contents ok H l' l'' \<Longrightarrow> nonces_kept contents ok H l l''"
  "supply_kept contents ok H l l' \<Longrightarrow> supply_kept contents ok H l' l'' \<Longrightarrow> supply_kept contents ok H l l''"
  "escrow_kept contents ok H l l' \<Longrightarrow> escrow_kept contents ok H l' l'' \<Longrightarrow> escrow_kept contents ok H l l''"
  "messages_kept contents ok H l l' \<Longrightarrow> messages_kept contents ok H l' l'' \<Longrightarrow> messages_kept contents ok H l l''"
  "history_kept contents ok H l l' \<Longrightarrow> history_kept contents ok H l' l'' \<Longrightarrow> history_kept contents ok H l l''"
  by (auto simp: kept_defs)

lemma kept_restored:
  assumes "led_eq contents l l'" and "ledger_inv contents ok H l'"
  shows "nonces_kept contents ok H l l'" and "supply_kept contents ok H l l'" and "escrow_kept contents ok H l l'"
    and "messages_kept contents ok H l l'" and "history_kept contents ok H l l'"
  using assms
  by (simp_all add: kept_defs led_eq_def labs_def supply_inv_def ram_view_eq escrow_ok_def crossDomain_def hasErc20Portal_def
      messageStatus_def peekMessageNonce_def)

lemma kept_settled:
  assumes "settled contents ok H ch l l'"
  shows "supply_kept contents ok H l l'" and "escrow_kept contents ok H l l'" and "messages_kept contents ok H l l'"
    and "history_kept contents ok H l l'"
proof -
  have "a_bal (labs contents l') = a_bal (labs contents l)" "a_toks (labs contents l') = a_toks (labs contents l)"
    using assms by (auto simp: settled_def charged_def split: option.splits)
  then show "supply_kept contents ok H l l'" "escrow_kept contents ok H l l'" "messages_kept contents ok H l l'"
    "history_kept contents ok H l l'"
    using assms by (simp_all add: kept_defs settled_def supply_inv_def circulating_def)
qed

context byte_store
begin

text \<open>Every operation a handler calls without a guard is mild.\<close>

lemma mild_ledger:
  assumes H: "keccak_digest H" and a: "length a = 20" and inv: "ledger_inv contents ok H l"
  shows "mild contents ok H l (snd (creditEther H S a (int v) l))" and "mild contents ok H l (snd (debitEther H S a (int v) l))"
    and "mild contents ok H l (snd (creditToken H S a tid (int v) l))" and "mild contents ok H l (snd (debitToken H S a tid (int v) l))"
    and "mild contents ok H l (snd (tokenBalance H S a tid l))" and "mild contents ok H l (snd (led_registerToken H S a md l))"
proof -
  note drive = mild_drive [of contents ok H l] and moved = ether_moved_def drive_step_def
  show "mild contents ok H l (snd (creditEther H S a (int v) l))"
    by (rule creditEther_runs [OF H a inv, of v]) (simp_all add: mild_drive ether_moved_def)
  show "mild contents ok H l (snd (debitEther H S a (int v) l))"
    by (rule debitEther_runs [OF H a inv, of v]) (simp_all add: mild_drive ether_moved_def)
  show "mild contents ok H l (snd (creditToken H S a tid (int v) l))"
    by (rule creditToken_runs [OF H a inv, of tid v]) (auto intro: mild_token [OF _ _ _ a] mild_same)
  show "mild contents ok H l (snd (debitToken H S a tid (int v) l))"
    by (rule debitToken_runs [OF H a inv, of tid v]) (auto intro: mild_token [OF _ _ _ a] mild_same)
  show "mild contents ok H l (snd (tokenBalance H S a tid l))"
    using tokenBalance_runs [OF H a inv, of tid] inv by (auto intro: mild_same)
  show "mild contents ok H l (snd (led_registerToken H S a md l))"
  proof (rule led_registerToken_runs [OF a inv, of md])
    fix r l'
    assume l': "led_registerToken H S a md l = (r, l')" "ledger_inv contents ok H l'"
      "a_acct (labs contents l') = a_acct (labs contents l)" "a_bal (labs contents l') = a_bal (labs contents l)"
      "prefix (a_toks (labs contents l)) (a_toks (labs contents l'))"
      and ram: "l_ram l' = (l_ram l)\<lparr>facades := facades (l_ram l'), metadata := metadata (l_ram l')\<rparr>"
    have "portals (l_ram l') = portals (l_ram l)" "crossDomainConfig (l_ram l') = crossDomainConfig (l_ram l)"
      "messages (l_ram l') = messages (l_ram l)" "totals (l_ram l') = totals (l_ram l)" "msgNonce (l_ram l') = msgNonce (l_ram l)"
      by (subst ram, simp)+
    with l' show ?thesis by (simp add: mild_def nonceOf_def supply_inv_def circulating_def totalSupply_def)
  qed
qed

text \<open>A preorder that contains the mild steps, the restored states and the guarded registrations is a client's.\<close>

lemma mild_relay:
  assumes H: "keccak_digest H" and "\<And>l. R l l" and "\<And>l l' l''. R l l' \<Longrightarrow> R l' l'' \<Longrightarrow> R l l''"
    and mild: "\<And>l l'. (ledger_inv contents ok H l \<Longrightarrow> mild contents ok H l l') \<Longrightarrow> R l l'"
    and "\<And>l l'. led_eq contents l l' \<Longrightarrow> ledger_inv contents ok H l' \<Longrightarrow> R l l'"
    and reg: "\<And>l a kind. ledger_inv contents ok H l \<Longrightarrow> (kind = PORTAL_ERC20 \<Longrightarrow> crossDomain (l_ram l) = None) \<Longrightarrow>
      R l (snd (registerPortal a kind l))"
      "\<And>l c. ledger_inv contents ok H l \<Longrightarrow> \<not> hasErc20Portal (l_ram l) \<Longrightarrow> R l (snd (registerCrossDomain c l))"
      "\<And>l h st. ledger_inv contents ok H l \<Longrightarrow> st = successful \<or> messageStatus h (l_ram l) \<noteq> Some successful \<Longrightarrow>
        R l (snd (setMessageStatus h st l))"
  shows "relay_client S H R contents ok"
proof -
  have uninv: "\<not> ledger_inv contents ok H l \<Longrightarrow> R l l'" for l l' by (rule mild) simp
  show ?thesis
  proof (unfold_locales, goal_cases)
    case (11 kind l a) then show ?case by (cases "ledger_inv contents ok H l") (auto intro: reg uninv)
  next
    case (12 l c) then show ?case by (cases "ledger_inv contents ok H l") (auto intro: reg uninv)
  next
    case (14 st h l) then show ?case by (cases "ledger_inv contents ok H l") (auto intro: reg uninv)
  qed (blast intro: assms(2,3,5) uninv mild mild_ledger [OF H] mild_ram)+
qed

lemma nonces_relay:
  assumes H: "keccak_digest H"
  shows "relay_client S H (nonces_kept contents ok H) contents ok"
  by (rule mild_relay [OF H]) (blast intro: kept_refl kept_trans kept_restored registration_kept mild_kept)+

lemma supply_input:
  assumes H: "keccak_digest H"
  shows "input_client S H (supply_kept contents ok H) contents ok"
  by (intro input_client.intro input_client_axioms.intro mild_relay [OF H])
    (blast intro: kept_refl kept_trans kept_restored kept_settled registration_kept mild_kept)+

lemma escrow_input:
  assumes H: "keccak_digest H"
  shows "input_client S H (escrow_kept contents ok H) contents ok"
  by (intro input_client.intro input_client_axioms.intro mild_relay [OF H])
    (blast intro: kept_refl kept_trans kept_restored kept_settled registration_kept portal_escrow messenger_escrow mild_kept)+

lemma messages_input:
  assumes H: "keccak_digest H"
  shows "input_client S H (messages_kept contents ok H) contents ok"
  by (intro input_client.intro input_client_axioms.intro mild_relay [OF H])
    (blast intro: kept_refl kept_trans kept_restored kept_settled registration_kept status_messages mild_kept)+

lemma history_input:
  assumes H: "keccak_digest H"
  shows "input_client S H (history_kept contents ok H) contents ok"
  by (intro input_client.intro input_client_axioms.intro mild_relay [OF H])
    (blast intro: kept_refl kept_trans kept_restored kept_settled registration_kept mild_kept)+

end

end
