(* ===== verification/Router_Halts.thy ===== *)
theory Router_Halts
  imports Router_Inv
begin

text \<open>
  Every input comes to an end. The loops of the drive end on a well-formed drive (the lemmas \<open>..._runs\<close>); from there \<open>halts\<close> lifts
  through the programs of the handlers and of the router, by rules of the same shape as those for \<open>steps\<close>. What remains outside
  is the application's own callbacks, which have to end, and \<^verbatim>\<open>viem\<close>, whose calls return or throw (\<open>viem_returns\<close>).
\<close>

section \<open>Programs that end\<close>

definition viem_returns :: "Viem \<Rightarrow> bool" where
  "viem_returns V \<longleftrightarrow>
     (\<forall>ts xs. encodeAbiParameters V ts xs \<noteq> Diverge) \<and> (\<forall>fns fn xs. encodeFunctionData V fns fn xs \<noteq> Diverge) \<and>
     (\<forall>fns fn x. encodeFunctionResult V fns fn x \<noteq> Diverge) \<and> (\<forall>n. toHex32 V n \<noteq> Diverge) \<and> (\<forall>b. padHex32 V b \<noteq> Diverge)"

definition returns :: "'a res \<Rightarrow> bool" where
  "returns r \<longleftrightarrow> r \<noteq> Diverge"

definition halts :: "('s Ledger \<Rightarrow> bool) \<Rightarrow> (('s, 'r) World, 'a) prog \<Rightarrow> bool" where
  "halts I m \<longleftrightarrow> (\<forall>w. I (w_led w) \<longrightarrow> fst (m w) \<noteq> Diverge \<and> I (w_led (snd (m w))))"

definition contracts_halt :: "('s Ledger \<Rightarrow> bool) \<Rightarrow> ('s, 'r) Router \<Rightarrow> bool" where
  "contracts_halt I Rt \<longleftrightarrow> (\<forall>a spec name cb args ctx. (a, HContract spec) \<in> set (manifest Rt) \<longrightarrow>
     cs_transactions spec name = Some cb \<longrightarrow> halts I (cb args ctx))"

definition views_halt :: "('s Ledger \<Rightarrow> bool) \<Rightarrow> ('s, 'r) Router \<Rightarrow> bool" where
  "views_halt I Rt \<longleftrightarrow> (\<forall>a spec name cb args call. (a, HContract spec) \<in> set (manifest Rt) \<longrightarrow>
     cs_views spec name = Some cb \<longrightarrow> halts I (cb args call))"

named_theorems halts_intros \<open>programs that end\<close>

lemma returns_simps [simp]: "returns (Ok a)" "returns (Throw e)" "\<not> returns Diverge"
  by (simp_all add: returns_def)

lemma rbind_returns [halts_intros]: "returns r \<Longrightarrow> (\<And>a. returns (f a)) \<Longrightarrow> returns (rbind r f)"
  by (cases r) auto

lemma viem_returnsD [halts_intros]:
  assumes "viem_returns V"
  shows "returns (encodeAbiParameters V ts xs)" and "returns (encodeFunctionData V fns fn xs)"
    and "returns (encodeFunctionResult V fns fn x)" and "returns (toHex32 V n)" and "returns (padHex32 V b)"
  using assms by (simp_all add: viem_returns_def returns_def)

lemma wire_returns [halts_intros]:
  assumes "viem_returns V"
  shows "returns (encodeEvmLog V e ts d)" and "returns (encodeWithdrawal V m)" and "returns (withdrawalHash H V m)"
    and "returns (messagePassedLog H V m h)" and "returns (encodeRelayMessage V c)" and "returns (hashCrossDomainMessageV1 H V c)"
    and "returns (transferLog H V a b v)" and "returns (sentMessageLog H V a b x n g)" and "returns (sentMessageExtension1Log H V a v)"
    and "returns (erc20BridgeLog V t a b a' b' v x)" and "returns (versionedWithdrawalNonce i k)"
  unfolding encodeEvmLog_def encodeWithdrawal_def withdrawalHash_def messagePassedLog_def encodeRelayMessage_def
    hashCrossDomainMessageV1_def transferLog_def sentMessageLog_def sentMessageExtension1Log_def erc20BridgeLog_def
    versionedWithdrawalNonce_def
  by ((intro rbind_returns viem_returnsD [OF assms])?, simp add: returns_def)+

lemma halts_ret [halts_intros]: "halts I (ret a)" and halts_raise [halts_intros]: "halts I (raise e)"
  and halts_gets [halts_intros]: "halts I (gets f)" and halts_lift [halts_intros]: "returns r \<Longrightarrow> halts I (lift r)"
  and halts_revert [halts_intros]: "halts I (revert V reason)" and halts_view_revert [halts_intros]: "halts I (view_revert V reason)"
  by (simp_all add: halts_def revert_def view_revert_def returns_def)

lemma haltsD: "halts I m \<Longrightarrow> m w = (r, w') \<Longrightarrow> I (w_led w) \<Longrightarrow> r \<noteq> Diverge \<and> I (w_led w')"
  unfolding halts_def by (metis fst_conv snd_conv)

lemma halts_bnd [halts_intros]:
  fixes m :: "(('s, 'r) World, 'a) prog"
  assumes m: "halts I m" and f: "\<And>a. halts I (f a)"
  shows "halts I (bnd m f)"
  unfolding halts_def
proof (intro allI impI)
  fix w :: "('s, 'r) World"
  assume w: "I (w_led w)"
  obtain r w' where m': "m w = (r, w')" by (cases "m w")
  with haltsD [OF m m' w] f show "fst (bnd m f w) \<noteq> Diverge \<and> I (w_led (snd (bnd m f w)))"
    by (cases r) (auto simp: halts_def)
qed

lemma halts_try_catch [halts_intros]:
  fixes m :: "(('s, 'r) World, 'a) prog"
  assumes m: "halts I m" and h: "\<And>e. halts I (h e)"
  shows "halts I (try_catch m h)"
  unfolding halts_def
proof (intro allI impI)
  fix w :: "('s, 'r) World"
  assume w: "I (w_led w)"
  obtain r w' where m': "m w = (r, w')" by (cases "m w")
  with haltsD [OF m m' w] h show "fst (try_catch m h w) \<noteq> Diverge \<and> I (w_led (snd (try_catch m h w)))"
    by (cases r) (auto simp: halts_def)
qed

lemma halts_if [halts_intros]: "(b \<Longrightarrow> halts I f) \<Longrightarrow> (\<not> b \<Longrightarrow> halts I g) \<Longrightarrow> halts I (if b then f else g)"
  by simp

lemma halts_case_option [halts_intros]:
  "(x = None \<Longrightarrow> halts I f) \<Longrightarrow> (\<And>a. x = Some a \<Longrightarrow> halts I (g a)) \<Longrightarrow> halts I (case x of None \<Rightarrow> f | Some a \<Rightarrow> g a)"
  by (cases x) auto

lemma halts_case_prod [halts_intros]: "(\<And>a b. x = (a, b) \<Longrightarrow> halts I (f a b)) \<Longrightarrow> halts I (case x of (a, b) \<Rightarrow> f a b)"
  by (cases x) auto

lemma halts_case_list [halts_intros]:
  "(xs = [] \<Longrightarrow> halts I f) \<Longrightarrow> (\<And>y ys. xs = y # ys \<Longrightarrow> halts I (g y ys)) \<Longrightarrow>
    halts I (case xs of [] \<Rightarrow> f | y # ys \<Rightarrow> g y ys)"
  by (cases xs) auto

lemma halts_case_abi [halts_intros]:
  assumes "\<And>n. x = VUint n \<Longrightarrow> halts I (f1 n)" and "\<And>n. x = VNeg n \<Longrightarrow> halts I (f2 n)" and "\<And>n. x = VAddr n \<Longrightarrow> halts I (f3 n)"
    and "\<And>n. x = VBytes n \<Longrightarrow> halts I (f4 n)" and "\<And>n. x = VString n \<Longrightarrow> halts I (f5 n)" and "\<And>n. x = VBool n \<Longrightarrow> halts I (f6 n)"
    and "\<And>n. x = VList n \<Longrightarrow> halts I (f7 n)"
  shows "halts I (case x of VUint n \<Rightarrow> f1 n | VNeg n \<Rightarrow> f2 n | VAddr n \<Rightarrow> f3 n | VBytes n \<Rightarrow> f4 n | VString n \<Rightarrow> f5 n
      | VBool n \<Rightarrow> f6 n | VList n \<Rightarrow> f7 n)"
  using assms by (cases x) auto

lemma halts_case_exn [halts_intros]:
  assumes "\<And>k m. x = AccountsDriveError k m \<Longrightarrow> halts I (f1 k m)" and "\<And>m. x = InsufficientFunds m \<Longrightarrow> halts I (f2 m)"
    and "\<And>k m. x = AbiDriveError k m \<Longrightarrow> halts I (f3 k m)" and "\<And>d m. x = RevertExn d m \<Longrightarrow> halts I (f4 d m)"
    and "\<And>d m. x = FailExn d m \<Longrightarrow> halts I (f5 d m)" and "\<And>m. x = Error m \<Longrightarrow> halts I (f6 m)"
    and "\<And>m. x = RangeError m \<Longrightarrow> halts I (f7 m)"
  shows "halts I (case x of AccountsDriveError k m \<Rightarrow> f1 k m | InsufficientFunds m \<Rightarrow> f2 m | AbiDriveError k m \<Rightarrow> f3 k m
      | RevertExn d m \<Rightarrow> f4 d m | FailExn d m \<Rightarrow> f5 d m | Error m \<Rightarrow> f6 m | RangeError m \<Rightarrow> f7 m)"
  using assms by (cases x) auto

lemma halts_on_sink: "(\<And>k. fst (m k) \<noteq> Diverge) \<Longrightarrow> halts I (on_sink m)"
  by (simp add: halts_def on_sink_def zoom_def split: prod.split) (metis fst_conv)

lemma halts_modify: "(\<And>w. w_led (f w) = w_led w) \<Longrightarrow> halts I (modify f)"
  by (simp add: halts_def)

lemma bnd_lift_returns: "returns r \<Longrightarrow> (\<And>a. fst (f a k) \<noteq> Diverge) \<Longrightarrow> fst (bnd (lift r) f k) \<noteq> Diverge"
  by (cases r) auto

lemma sink_returns:
  assumes "viem_returns V"
  shows "fst (sink_log V e l k) \<noteq> Diverge" and "fst (sink_withdrawal H V s t v g d k) \<noteq> Diverge"
proof -
  have log: "fst (sink_log V e l k) \<noteq> Diverge" for e l k
    unfolding sink_log_def by (rule bnd_lift_returns [OF wire_returns(1) [OF assms]]) (simp add: sink_notice_def push_def)
  then show "fst (sink_log V e l k) \<noteq> Diverge" .
  show "fst (sink_withdrawal H V s t v g d k) \<noteq> Diverge"
    unfolding sink_withdrawal_def Let_def
    by (simp add: bnd_assoc sink_notice_def push_def, intro bnd_lift_returns wire_returns [OF assms], simp,
        intro bnd_lift_returns wire_returns [OF assms], simp, intro bnd_lift_returns wire_returns [OF assms] log)
qed

lemma halts_out [halts_intros]:
  assumes "viem_returns V"
  shows "returns l \<Longrightarrow> halts I (out_log V e l)" and "halts I (out_voucher d p)" and "halts I (out_withdrawal H V s t v g x)"
    and "halts I (view_return V abi fn y)"
  unfolding out_log_def out_voucher_def out_withdrawal_def view_return_def
  by (intro halts_intros halts_on_sink sink_returns assms; simp add: sink_voucher_def push_def)+

lemma halts_on_led: "(\<And>l. I l \<Longrightarrow> fst (m l) \<noteq> Diverge \<and> I (snd (m l))) \<Longrightarrow> halts I (on_led m)"
  by (simp add: halts_def on_led_def zoom_def split: prod.split) (metis fst_conv snd_conv)

section \<open>Handlers\<close>

context byte_store
begin

abbreviation inv_at :: "(bytes \<Rightarrow> bytes) \<Rightarrow> 'a Ledger \<Rightarrow> bool" where
  "inv_at H \<equiv> ledger_inv contents ok H"

lemma halts_ledger:
  assumes H: "keccak_digest H" and a: "length a = 20"
  shows "halts (inv_at H) (on_led (creditEther H S a (int v)))" and "halts (inv_at H) (on_led (debitEther H S a (int v)))"
    and "halts (inv_at H) (on_led (creditToken H S a tid (int v)))" and "halts (inv_at H) (on_led (debitToken H S a tid (int v)))"
    and "halts (inv_at H) (on_led (tokenBalance H S a tid))" and "halts (inv_at H) (on_led (led_registerToken H S a md))"
proof -
  show "halts (inv_at H) (on_led (creditEther H S a (int v)))"
    by (rule halts_on_led, erule creditEther_runs [OF H a, of _ v]) (simp_all add: drive_step_def)
  show "halts (inv_at H) (on_led (debitEther H S a (int v)))"
    by (rule halts_on_led, erule debitEther_runs [OF H a, of _ v]) (simp_all add: drive_step_def)
  show "halts (inv_at H) (on_led (creditToken H S a tid (int v)))"
    by (rule halts_on_led, erule creditToken_runs [OF H a, of _ tid v]) simp_all
  show "halts (inv_at H) (on_led (debitToken H S a tid (int v)))"
    by (rule halts_on_led, erule debitToken_runs [OF H a, of _ tid v]) simp_all
  show "halts (inv_at H) (on_led (tokenBalance H S a tid))"
  proof (rule halts_on_led)
    fix l
    assume "inv_at H l"
    with tokenBalance_runs [OF H a this, of tid] show "fst (tokenBalance H S a tid l) \<noteq> Diverge \<and> inv_at H (snd (tokenBalance H S a tid l))"
      by auto
  qed
  show "halts (inv_at H) (on_led (led_registerToken H S a md))"
    by (rule halts_on_led, erule led_registerToken_runs [OF a, of H _ md]) simp_all
qed

lemma halts_ram:
  "halts (inv_at H) (on_led (setMetadata tid m))" "halts (inv_at H) (on_led (setFee v))" "halts (inv_at H) (on_led nextMessageNonce)"
  "halts (inv_at H) (on_led (registerPortal p kind))" "halts (inv_at H) (on_led (registerCrossDomain c))"
  "halts (inv_at H) (on_led (setMessageStatus h st))"
  by (rule halts_on_led; simp add: ram_ops ledger_inv_def)+

lemma halts_lookup: "halts (inv_at H) (on_led (tokenByL1Address x))"
proof (rule halts_on_led)
  fix l :: "'a Ledger"
  have "snd (tokenByL1Address x l) = l \<and> fst (tokenByL1Address x l) \<noteq> Diverge"
    by (cases "length x = 20")
      (simp_all add: tokenByL1Address_def on_led_drive_def zoom_def tokenByAddress_def toAddress_def bnd_def lift_def gets_def ret_def raise_def)
  then show "inv_at H l \<Longrightarrow> fst (tokenByL1Address x l) \<noteq> Diverge \<and> inv_at H (snd (tokenByL1Address x l))" by simp
qed

lemma halts_ensure_token:
  assumes "keccak_digest H" and "length a = 20"
  shows "halts (inv_at H) (on_led (ensure_token H S a) :: (('a, 'r) World, nat) prog)"
proof -
  have "(on_led (ensure_token H S a) :: (('a, 'r) World, nat) prog) = bnd (on_led (tokenByL1Address a)) (\<lambda>r. case r of
      Some t \<Rightarrow> ret (rf_id t) | None \<Rightarrow> bnd (on_led (led_registerToken H S a None)) (\<lambda>(tid, _). ret tid))"
    by (rule ext) (simp add: ensure_token_def on_led_def zoom_def bnd_def ret_def split: prod.split res.split option.split)
  then show ?thesis by simp (intro halts_intros halts_lookup halts_ledger assms)
qed

lemmas halts_ops = halts_ledger halts_ram halts_lookup halts_ensure_token

lemma passer_halts: "keccak_digest H \<Longrightarrow> viem_returns V \<Longrightarrow> ctx_ok ctx \<Longrightarrow> halts (inv_at H) (passer_advance H S V ctx)"
  unfolding passer_advance_def by (intro halts_intros halts_ops; simp add: ctx_ok_def)

lemma portal_halts: "keccak_digest H \<Longrightarrow> viem_returns V \<Longrightarrow> ctx_ok ctx \<Longrightarrow> halts (inv_at H) (portal_advance H S V ctx)"
  unfolding portal_advance_def portal_ether_def portal_erc20_def Let_def
  by (intro halts_intros halts_ops; simp add: ctx_ok_def length_addressAt)

lemma bridge_halts: "keccak_digest H \<Longrightarrow> viem_returns V \<Longrightarrow> ctx_ok ctx \<Longrightarrow> halts (inv_at H) (bridge_advance H S V ctx)"
  unfolding bridge_advance_def withdrawEther_def withdrawERC20_def debit_or_revert_def
  by (intro halts_intros halts_ops; simp add: ctx_ok_def)

lemma erc20_halts:
  "keccak_digest H \<Longrightarrow> viem_ok V \<Longrightarrow> viem_returns V \<Longrightarrow> ctx_ok ctx \<Longrightarrow> halts (inv_at H) (erc20_advance H S V ctx)"
  unfolding erc20_advance_def erc20_transfer_def
  by (intro halts_intros halts_ops; auto simp: ctx_ok_def dest!: decode_ok)

lemma l1block_halts: "halts (inv_at H) (l1block_advance V ctx)"
  unfolding l1block_advance_def Let_def by (intro halts_intros halts_modify) simp

lemma config_halts:
  "keccak_digest H \<Longrightarrow> viem_ok V \<Longrightarrow> viem_returns V \<Longrightarrow> halts (inv_at H) (config_advance H S V owner self ctx)"
  unfolding config_advance_def config_setFee_def config_setTokenMetadata_def config_registerPortal_def config_registerMessenger_def
    config_registerToken_def Let_def
  by (intro halts_intros halts_ops; auto intro!: halts_intros dest!: decode_ok split: ErrorKind.split)

lemma send_halts: "viem_returns V \<Longrightarrow> halts (inv_at H) (sendCrossDomainMessage H V cd a)"
  unfolding sendCrossDomainMessage_def Let_def by (intro halts_intros halts_ops; simp)

lemma l2bridge_halts: "keccak_digest H \<Longrightarrow> viem_returns V \<Longrightarrow> ctx_ok ctx \<Longrightarrow> halts (inv_at H) (l2bridge_advance H S V ctx)"
  unfolding l2bridge_advance_def l2bridge_initiate_def debit_or_revert_def
  by (intro halts_intros halts_ops send_halts; simp add: ctx_ok_def)

lemma dispatch_halts:
  "keccak_digest H \<Longrightarrow> viem_ok V \<Longrightarrow> viem_returns V \<Longrightarrow> length (m_target m) = 20 \<Longrightarrow> halts (inv_at H) (dispatch H S V m cd)"
  unfolding dispatch_def finalizeFromMessenger_def finalizeBridgeERC20_def finalizeBridgeETH_def
  by (intro halts_intros halts_ops; auto dest!: decode_ok)

lemma halts_rollback:
  assumes "since contents ok H l0 (w_led w)"
  obtains w' where "on_led (rollback_to H S (mark l0)) w = (Ok (), w')" and "inv_at H (w_led w')"
proof -
  from rollback_to_since [OF assms] obtain l' where "rollback_to H S (mark l0) (w_led w) = (Ok (), l')" "inv_at H l'" by blast
  with that [of "w\<lparr>w_led := l'\<rparr>"] show ?thesis by (simp add: on_led_def zoom_run)
qed

lemma relay_halts:
  assumes H: "keccak_digest H" and V: "viem_ok V" "viem_returns V" and target: "length (m_target m) = 20"
  shows "halts (inv_at H) (relay H S V m cd hash :: (('a, 'r) World, AdvanceOutcome) prog)"
  unfolding halts_def
proof (intro allI impI)
  fix w :: "('a, 'r) World"
  assume inv: "inv_at H (w_led w)"
  let ?body = "bnd (dispatch H S V m cd) (\<lambda>_. bnd (on_led (setMessageStatus hash successful)) (\<lambda>_.
      out_log V L2_MESSENGER_ADDRESS (Ok (relayedMessageLog H hash False)))) :: (('a, 'r) World, unit) prog"
  let ?fail = "bnd (on_led (setMessageStatus hash failed)) (\<lambda>_.
      out_log V L2_MESSENGER_ADDRESS (Ok (relayedMessageLog H hash True))) :: (('a, 'r) World, unit) prog"
  have body: "halts (inv_at H) ?body" and fail: "halts (inv_at H) ?fail"
    by (intro halts_intros halts_ops dispatch_halts [OF H V target] V(2); simp)+
  note jc = keeps_since_client [OF H]
  have "steps (keeps_since contents ok H) ?body"
    using V target by (intro ledger_client.dispatch_steps [OF jc] ledger_client.steps_ledger [OF jc]
        reader_client.steps_bnd [OF ledger_client.axioms(1) [OF jc]] reader_client.steps_out [OF ledger_client.axioms(1) [OF jc]])
  obtain r w1 where run: "?body w = (r, w1)" by (cases "?body w")
  from stepsD [OF \<open>steps _ ?body\<close> run] since_refl [OF inv] have since: "since contents ok H (w_led w) (w_led w1)"
    by (simp add: keeps_since_def)
  from halts_rollback [OF this] obtain w2 where w2: "on_led (rollback_to H S (mark (w_led w))) w1 = (Ok (), w2)" "inv_at H (w_led w2)" .
  have ok: "r \<noteq> Diverge \<and> inv_at H (w_led w1)" by (rule haltsD [OF body run inv])
  obtain r3 w3 where f: "?fail w2 = (r3, w3)" by (cases "?fail w2")
  with haltsD [OF fail f w2(2)] run ok w2(1)
  show "fst (relay H S V m cd hash w) \<noteq> Diverge \<and> inv_at H (w_led (snd (relay H S V m cd hash w)))"
    by (cases r; cases r3) (auto simp: relay_def try_catch_Throw)
qed

lemma relay_checked_halts:
  assumes "keccak_digest H" and "viem_ok V" and "viem_returns V" and "length (m_target m) = 20"
  shows "halts (inv_at H) (relay_checked H S V ctx cd m hash)"
  unfolding relay_checked_def by (intro halts_intros relay_halts [OF assms])

lemma messenger_halts:
  "keccak_digest H \<Longrightarrow> viem_ok V \<Longrightarrow> viem_returns V \<Longrightarrow> halts (inv_at H) (messenger_advance H S V ctx)"
  unfolding messenger_advance_def Let_def
  by (intro halts_intros relay_checked_halts; (assumption | auto dest!: decode_ok)?)

lemma contract_halts:
  assumes "\<And>name cb args. cs_transactions spec name = Some cb \<Longrightarrow> halts (inv_at H) (cb args ctx)"
  shows "halts (inv_at H) (contract_advance V spec ctx)"
  unfolding contract_advance_def Let_def by (intro halts_intros) (use assms in blast)

section \<open>The router\<close>

lemma handler_halts:
  assumes "keccak_digest H" and "viem_ok V" and "viem_returns V" and "ctx_ok ctx" and "contracts_halt (inv_at H) Rt"
    and "resolve Rt dst block deposit l = Some h" and "handler_advance H S V Rt h = Some adv"
  shows "halts (inv_at H) (adv ctx)"
  using assms resolve_manifest [of Rt dst block deposit l]
  by (cases h) (auto intro!: passer_halts portal_halts bridge_halts erc20_halts l1block_halts config_halts l2bridge_halts
      messenger_halts contract_halts simp: contracts_halt_def)

lemma transfer_and_dispatch_halts:
  fixes Rt :: "('a, 'r) Router"
  assumes H: "keccak_digest H" and V: "viem_ok V" "viem_returns V" and ctx: "ctx_ok ctx" and con: "contracts_halt (inv_at H) Rt"
  shows "halts (inv_at H) (transfer_and_dispatch H S V Rt ctx deposit)"
proof -
  have k: "halts (inv_at H) (bnd (gets (\<lambda>w. resolve Rt (ctx_to ctx) (Some (ctx_block ctx)) deposit (w_led w))) (\<lambda>h.
       case h of
         None \<Rightarrow> ret Accept
       | Some handler \<Rightarrow>
           if ctx_value ctx > 0 \<and> \<not> payable handler then revert V ''not payable''
           else (case handler_advance H S V Rt handler of
             None \<Rightarrow> revert V ''not a transaction target''
           | Some adv \<Rightarrow> adv ctx)))" (is "halts _ ?k")
    unfolding halts_def
  proof (intro allI impI)
    fix w :: "('a, 'r) World"
    assume inv: "inv_at H (w_led w)"
    have adv: "halts (inv_at H) (adv ctx)"
      if "resolve Rt (ctx_to ctx) (Some (ctx_block ctx)) deposit (w_led w) = Some h" "handler_advance H S V Rt h = Some adv" for h adv
      by (rule handler_halts [OF H V ctx con that])
    show "fst (?k w) \<noteq> Diverge \<and> inv_at H (w_led (snd (?k w)))"
      using inv adv by (auto simp: revert_def halts_def split: option.split)
  qed
  have "halts (inv_at H) (on_led (debitEther H S (ctx_sender ctx) (int (ctx_value ctx))))"
    "halts (inv_at H) (on_led (creditEther H S (ctx_to ctx) (int (ctx_value ctx))))"
    using ctx by (simp_all add: halts_ledger [OF H] ctx_ok_def)
  then show ?thesis unfolding transfer_and_dispatch_def by (intro halts_bnd k)
qed

lemma dispatch_returns:
  assumes "keccak_digest H" and "viem_ok V" and "viem_returns V" and "contracts_halt (inv_at H) Rt" and "ctx_ok ctx"
    and "inv_at H (w_led w)"
  shows "transfer_and_dispatch H S V Rt ctx deposit w \<noteq> (Diverge, w')"
  using haltsD [OF transfer_and_dispatch_halts [OF assms(1-3,5,4)] _ assms(6)] by blast

lemma advance_halts:
  assumes H: "keccak_digest H" and V: "viem_ok V" "viem_returns V" and nz: "signer_nonzero V raw"
    and con: "contracts_respect (keeps_since contents ok H) Rt" "contracts_halt (inv_at H) Rt"
    and inv: "inv_at H (w_led w)" and l0: "snd (jst (w_led w)) = []"
  shows "fst (router_advance H S V Rt block raw w) \<noteq> Diverge"
proof (cases "parseInput V raw")
  case (Deposit d)
  note p = parse_deposit [OF V(1) Deposit]
  have "advanceDeposit H S V Rt block d w \<noteq> (Diverge, w')" for w'
  proof (rule deposit_runs [where d = d and block = block, OF H V(1) con(1) p inv l0], goal_cases to20 diverge reject mint revert commit)
    case (diverge dst l1 w'')
    have "ctx_ok (deposit_ctx block dst d)" using diverge(2) p(1) by (simp add: ctx_ok_def deposit_ctx_def)
    with diverge(3,4) dispatch_returns [OF H V con(2)] show ?case by fastforce
  qed auto
  then show ?thesis by (cases "advanceDeposit H S V Rt block d w") (auto simp: router_advance_def Deposit)
next
  case (Signed tx)
  have nz': "\<not> isZero a" if "recoverSender V tx = Some a" for a using nz Signed that by (simp add: signer_nonzero_def)
  have "advanceSigned H S V Rt block tx w \<noteq> (Diverge, w')" for w'
  proof (rule signed_runs [where tx = tx and block = block, OF H V(1) con(1) _ _ inv l0], goal_cases tx nz diverge reject revert commit)
    case (diverge sender dst w'')
    have "ctx_ok (signed_ctx block sender dst tx)" using diverge(3,4) by (simp add: ctx_ok_def signed_ctx_def)
    with diverge(2) inv dispatch_returns [OF H V con(2)] show ?case by fastforce
  qed (use parse_signed [OF V(1) Signed] nz' in auto)
  then show ?thesis by (cases "advanceSigned H S V Rt block tx w") (auto simp: router_advance_def Signed)
qed (simp_all add: router_advance_def)

end

end
