(* ===== verification/Abi_Drive.thy ===== *)
theory Abi_Drive
  imports Drive
begin

text \<open>
  The ABI drive (\<^verbatim>\<open>abi-drive/js/src/index.ts\<close>): a header, an index of 32-byte entries and a heap of ABI texts, on the
  same byte stores as the accounts drive. A text is its UTF-8 bytes. The state of a program is the store and the
  fields of the \<^verbatim>\<open>AbiDrive\<close> object. What it promises is in Abi_Spec.
\<close>

section \<open>Data\<close>

definition ABI_DRIVE_MAGIC :: bytes where
  "ABI_DRIVE_MAGIC = [0x63, 0x74, 0x73, 0x69, 0x61, 0x62, 0x69, 0x73]"

definition ABI_DRIVE_VERSION :: nat where "ABI_DRIVE_VERSION = 1"
definition KIND_SYSTEM :: nat where "KIND_SYSTEM = 0"
definition KIND_APP :: nat where "KIND_APP = 1"
definition HEADER_LENGTH :: nat where "HEADER_LENGTH = 64"
definition ENTRY_LENGTH :: nat where "ENTRY_LENGTH = 32"

fun abi_kind_text :: "AbiDriveErrorKind \<Rightarrow> string" where
  "abi_kind_text badMagic = ''badMagic''"
| "abi_kind_text badVersion = ''badVersion''"
| "abi_kind_text badGeometry = ''badGeometry''"
| "abi_kind_text abiRegistryFull = ''registryFull''"
| "abi_kind_text heapFull = ''heapFull''"
| "abi_kind_text duplicate = ''duplicate''"

definition newAbiDriveError :: "AbiDriveErrorKind \<Rightarrow> string option \<Rightarrow> exn" where
  "newAbiDriveError k detail = AbiDriveError k
     (case detail of None \<Rightarrow> abi_kind_text k | Some d \<Rightarrow> if d = [] then abi_kind_text k else abi_kind_text k @ '': '' @ d)"

record AbiDriveConfig =
  ac_driveLength :: int
  ac_capacity :: int
  ac_heapOffset :: int

definition DEVNET_ABI_DRIVE_CONFIG :: AbiDriveConfig where
  "DEVNET_ABI_DRIVE_CONFIG = \<lparr>ac_driveLength = 262144, ac_capacity = 64, ac_heapOffset = 4096\<rparr>"

record AbiEntry =
  ae_address :: bytes
  ae_kind :: nat
  ae_abi :: bytes

record AbiDrive =
  ad_capacity :: int
  ad_count :: int
  ad_indexOffset :: int
  ad_heapOffset :: int
  ad_heapLength :: int
  ad_heapUsed :: int

section \<open>Operations\<close>

definition u16 :: "bytes \<Rightarrow> nat \<Rightarrow> nat res" where
  "u16 bs off = (if off + 2 \<le> length bs then Ok (le_dec (slice bs off 2)) else Throw out_of_view)"

definition u32 :: "bytes \<Rightarrow> nat \<Rightarrow> nat res" where
  "u32 bs off = (if off + 4 \<le> length bs then Ok (le_dec (slice bs off 4)) else Throw out_of_view)"

definition putU16 :: "bytes \<Rightarrow> nat \<Rightarrow> int \<Rightarrow> bytes res" where
  "putU16 bs off v = (if off + 2 \<le> length bs then Ok (setLE 2 bs off v) else Throw out_of_view)"

definition putU32 :: "bytes \<Rightarrow> nat \<Rightarrow> int \<Rightarrow> bytes res" where
  "putU32 bs off v = (if off + 4 \<le> length bs then Ok (setLE 4 bs off v) else Throw out_of_view)"

definition abi_header :: "AbiDriveConfig \<Rightarrow> bytes res" where
  "abi_header cfg =
     rbind (arr_set (zeros HEADER_LENGTH) 0 ABI_DRIVE_MAGIC) (\<lambda>h.
     rbind (putU16 h 8 (int ABI_DRIVE_VERSION)) (\<lambda>h.
     rbind (putU32 h 12 (ac_capacity cfg)) (\<lambda>h.
     rbind (putU32 h 16 0) (\<lambda>h.
     rbind (putU32 h 20 (int HEADER_LENGTH)) (\<lambda>h.
     rbind (putU32 h 24 (ac_heapOffset cfg)) (\<lambda>h.
     rbind (putU32 h 28 (ac_driveLength cfg - ac_heapOffset cfg)) (\<lambda>h.
     putU32 h 32 0)))))))"

definition abi_format :: "'s store \<Rightarrow> AbiDriveConfig \<Rightarrow> ('s, AbiDrive) prog" where
  "abi_format S cfg =
     (let indexEnd = int HEADER_LENGTH + ac_capacity cfg * int ENTRY_LENGTH in
      if ac_heapOffset cfg < indexEnd \<or> ac_heapOffset cfg \<ge> ac_driveLength cfg then
        raise (newAbiDriveError badGeometry
          (Some (''heap at '' @ dec_int (ac_heapOffset cfg) @ '', index ends at '' @ dec_int indexEnd)))
      else bnd (lift (abi_header cfg)) (\<lambda>header.
        bnd (writeAt S 0 header) (\<lambda>_.
        ret \<lparr>ad_capacity = ac_capacity cfg, ad_count = 0, ad_indexOffset = int HEADER_LENGTH,
             ad_heapOffset = ac_heapOffset cfg, ad_heapLength = ac_driveLength cfg - ac_heapOffset cfg, ad_heapUsed = 0\<rparr>)))"

definition abi_open :: "'s store \<Rightarrow> ('s, AbiDrive) prog" where
  "abi_open S =
     bnd (readAt S 0 (int HEADER_LENGTH)) (\<lambda>header.
       if slice header 0 8 \<noteq> ABI_DRIVE_MAGIC then raise (newAbiDriveError badMagic None)
       else bnd (lift (u16 header 8)) (\<lambda>v.
         if v \<noteq> ABI_DRIVE_VERSION then raise (newAbiDriveError badVersion (Some (''version '' @ dec v)))
         else
           bnd (lift (u32 header 12)) (\<lambda>cap.
           bnd (lift (u32 header 16)) (\<lambda>cnt.
           bnd (lift (u32 header 20)) (\<lambda>indexOffset.
           bnd (lift (u32 header 24)) (\<lambda>heapOffset.
           bnd (lift (u32 header 28)) (\<lambda>heapLength.
           bnd (lift (u32 header 32)) (\<lambda>heapUsed.
           ret \<lparr>ad_capacity = int cap, ad_count = int cnt, ad_indexOffset = int indexOffset,
                ad_heapOffset = int heapOffset, ad_heapLength = int heapLength, ad_heapUsed = int heapUsed\<rparr>))))))))"

definition abi_openOrFormat :: "'s store \<Rightarrow> AbiDriveConfig \<Rightarrow> ('s, AbiDrive) prog" where
  "abi_openOrFormat S cfg =
     bnd (readAt S 0 8) (\<lambda>magic. if magic = ABI_DRIVE_MAGIC then abi_open S else abi_format S cfg)"

definition abi_size :: "AbiDrive \<Rightarrow> int" where
  "abi_size d = ad_count d"

definition abi_entryAt :: "'s store \<Rightarrow> int \<Rightarrow> ('s \<times> AbiDrive, AbiEntry) prog" where
  "abi_entryAt S i =
     bnd (gets snd) (\<lambda>d.
     bnd (on_store (readAt S (ad_indexOffset d + i * int ENTRY_LENGTH) (int ENTRY_LENGTH))) (\<lambda>raw.
     bnd (lift (u32 raw 22)) (\<lambda>abiOffset.
     bnd (lift (u32 raw 26)) (\<lambda>abiLength.
     bnd (on_store (readAt S (int abiOffset) (int abiLength))) (\<lambda>blob.
     ret \<lparr>ae_address = slice raw 0 20, ae_kind = unat (raw ! 20), ae_abi = blob\<rparr>)))))"

fun abi_entryOf_loop :: "'s store \<Rightarrow> bytes \<Rightarrow> nat \<Rightarrow> nat \<Rightarrow> ('s \<times> AbiDrive, AbiEntry option) prog" where
  "abi_entryOf_loop S wanted 0 i = ret None"
| "abi_entryOf_loop S wanted (Suc n) i =
     bnd (abi_entryAt S (int i)) (\<lambda>e.
       if ae_address e = wanted then ret (Some e) else abi_entryOf_loop S wanted n (Suc i))"

definition abi_entryOf :: "'s store \<Rightarrow> bytes \<Rightarrow> ('s \<times> AbiDrive, AbiEntry option) prog" where
  "abi_entryOf S addr = bnd (gets (ad_count \<circ> snd)) (\<lambda>n. abi_entryOf_loop S addr (nat n) 0)"

fun abi_entries_loop :: "'s store \<Rightarrow> nat \<Rightarrow> nat \<Rightarrow> AbiEntry list \<Rightarrow> ('s \<times> AbiDrive, AbiEntry list) prog" where
  "abi_entries_loop S 0 i out = ret out"
| "abi_entries_loop S (Suc n) i out =
     bnd (abi_entryAt S (int i)) (\<lambda>e. abi_entries_loop S n (Suc i) (out @ [e]))"

definition abi_entries :: "'s store \<Rightarrow> ('s \<times> AbiDrive, AbiEntry list) prog" where
  "abi_entries S = bnd (gets (ad_count \<circ> snd)) (\<lambda>n. abi_entries_loop S (nat n) 0 [])"

definition abi_abiOf :: "'s store \<Rightarrow> bytes \<Rightarrow> ('s \<times> AbiDrive, bytes option) prog" where
  "abi_abiOf S addr = bnd (abi_entryOf S addr) (\<lambda>e. ret (map_option ae_abi e))"

definition abi_entry_bytes :: "bytes \<Rightarrow> nat \<Rightarrow> int \<Rightarrow> nat \<Rightarrow> bytes res" where
  "abi_entry_bytes addr kind abiOffset n =
     rbind (arr_set (zeros ENTRY_LENGTH) 0 addr) (\<lambda>entry.
     rbind (putU32 (entry[20 := of_nat kind]) 22 abiOffset) (\<lambda>entry. putU32 entry 26 (int n)))"

text \<open>The writes of \<^verbatim>\<open>register\<close> once it has accepted the entry.\<close>

definition abi_append :: "'s store \<Rightarrow> bytes \<Rightarrow> nat \<Rightarrow> bytes \<Rightarrow> ('s \<times> AbiDrive, unit) prog" where
  "abi_append S addr kind blob =
     bnd (gets snd) (\<lambda>d.
       let abiOffset = ad_heapOffset d + ad_heapUsed d in
       bnd (on_store (writeAt S abiOffset blob)) (\<lambda>_.
       bnd (lift (abi_entry_bytes addr kind abiOffset (length blob))) (\<lambda>entry.
       bnd (on_store (writeAt S (ad_indexOffset d + ad_count d * int ENTRY_LENGTH) entry)) (\<lambda>_.
       bnd (modify (\<lambda>(s, d). (s, d\<lparr>ad_count := ad_count d + 1, ad_heapUsed := ad_heapUsed d + int (length blob)\<rparr>))) (\<lambda>_.
       bnd (lift (putU32 (zeros 4) 0 (ad_count d + 1))) (\<lambda>counters.
       bnd (on_store (writeAt S 16 counters)) (\<lambda>_.
       bnd (lift (putU32 counters 0 (ad_heapUsed d + int (length blob)))) (\<lambda>counters.
       on_store (writeAt S 32 counters)))))))))"

text \<open>The address is reported the way the caller wrote it, which \<open>shown\<close> gives.\<close>

definition abi_register :: "(bytes \<Rightarrow> string) \<Rightarrow> 's store \<Rightarrow> bytes \<Rightarrow> nat \<Rightarrow> bytes \<Rightarrow> ('s \<times> AbiDrive, unit) prog" where
  "abi_register shown S addr kind blob =
     bnd (abi_entryOf S addr) (\<lambda>existing. case existing of
       Some e \<Rightarrow>
         if ae_kind e = kind \<and> ae_abi e = blob then ret ()
         else raise (newAbiDriveError duplicate (Some (shown addr)))
     | None \<Rightarrow>
         bnd (gets snd) (\<lambda>d.
           if ad_count d \<ge> ad_capacity d then raise (newAbiDriveError abiRegistryFull None)
           else if ad_heapUsed d + int (length blob) > ad_heapLength d then raise (newAbiDriveError heapFull None)
           else abi_append S addr kind blob))"

end
