(* ===== verification/Application.thy ===== *)
theory Application
  imports Router Abi_Drive
begin

text \<open>
  The application (\<^verbatim>\<open>app/src/application.ts\<close>): assembly, registration of contracts, and the two request handlers the
  rollup loop calls. What a request emits to the rollup device is the list it returns; the devices and the loop are in Boot.
\<close>

record ('s, 'r, 'a) Application =
  ap_world :: "('s, 'r) World"
  ap_router :: "('s, 'r) Router"
  ap_abi :: "'a \<times> AbiDrive"

text \<open>\<^verbatim>\<open>JSON.stringify\<close> of an ABI: the array of its items, each with its own rendering.\<close>

definition abi_json :: "AbiItem list \<Rightarrow> bytes" where
  "abi_json abi = ascii (''['' @ join '','' (map ai_json abi) @ '']'')"

definition BUILTINS :: "(bytes \<times> string list) list" where
  "BUILTINS =
     [(REGISTRY_ADDRESS, registryAbi), (BRIDGE_ADDRESS, bridgeAbi), (CONFIG_ADDRESS, configAbi),
      (L1BLOCK_ADDRESS, l1BlockAbi), (L2_MESSENGER_ADDRESS, l2CrossDomainMessengerAbi),
      (L2_BRIDGE_ADDRESS, l2StandardBridgeAbi), (MESSAGE_PASSER_ADDRESS, messagePasserAbi)]"

definition RESERVED_PREDEPLOYS :: "bytes list" where
  "RESERVED_PREDEPLOYS = [L1BLOCK_ADDRESS, L2_MESSENGER_ADDRESS, L2_BRIDGE_ADDRESS, MESSAGE_PASSER_ADDRESS]"

definition inSystemNamespace :: "bytes \<Rightarrow> bool" where
  "inSystemNamespace addr \<longleftrightarrow> slice addr 0 2 = [0xc7, 0x51] \<and> slice addr 2 16 = zeros 16 \<and> length addr = 20"

fun register_builtins ::
  "(bytes \<Rightarrow> string) \<Rightarrow> 'a store \<Rightarrow> (string list \<Rightarrow> AbiItem list) \<Rightarrow> (bytes \<times> string list) list \<Rightarrow> ('a \<times> AbiDrive, unit) prog" where
  "register_builtins shown A parseAbi [] = ret ()"
| "register_builtins shown A parseAbi ((addr, abi) # bs) =
     bnd (abi_register shown A addr KIND_SYSTEM (abi_json (parseAbi abi))) (\<lambda>_. register_builtins shown A parseAbi bs)"

definition assemble ::
  "(bytes \<Rightarrow> string) \<Rightarrow> 'a store \<Rightarrow> (string list \<Rightarrow> AbiItem list) \<Rightarrow> AbiDriveConfig option \<Rightarrow> nat \<Rightarrow> bytes \<Rightarrow>
     's Ledger \<Rightarrow> 'r \<Rightarrow> 'a \<Rightarrow> ('s, 'r, 'a) Application res" where
  "assemble shown A parseAbi config chainId owner ledger app a =
     (case abi_openOrFormat A (case config of None \<Rightarrow> DEVNET_ABI_DRIVE_CONFIG | Some c \<Rightarrow> c) a of
        (Throw e, _) \<Rightarrow> Throw e
      | (Diverge, _) \<Rightarrow> Diverge
      | (Ok d, a') \<Rightarrow>
          (case register_builtins shown A parseAbi BUILTINS (a', d) of
             (Throw e, _) \<Rightarrow> Throw e
           | (Diverge, _) \<Rightarrow> Diverge
           | (Ok _, ad) \<Rightarrow>
               Ok \<lparr>ap_world = \<lparr>w_led = ledger, w_sink = BufferSink 0, w_attributes = None, w_app = app\<rparr>,
                   ap_router = new_Router chainId owner, ap_abi = ad\<rparr>))"

definition contract ::
  "(bytes \<Rightarrow> string) \<Rightarrow> 'a store \<Rightarrow> ('s, 'r) ContractSpec \<Rightarrow> (('s, 'r, 'a) Application, unit) prog" where
  "contract shown A spec =
     (let addr = cs_address spec in
      if inSystemNamespace addr \<or> list_ex (\<lambda>r. addr = r) RESERVED_PREDEPLOYS
      then raise (Error (shown addr @ '' is reserved by the standard''))
      else
        bnd (gets ap_router) (\<lambda>R.
        bnd (lift (router_register shown addr (HContract spec) R)) (\<lambda>R'.
        bnd (modify (\<lambda>ap. ap\<lparr>ap_router := R'\<rparr>)) (\<lambda>_.
        zoom ap_abi (\<lambda>ad ap. ap\<lparr>ap_abi := ad\<rparr>) (abi_register shown A addr KIND_APP (abi_json (cs_abi spec)))))))"

definition contracts :: "'a store \<Rightarrow> (('s, 'r, 'a) Application, AbiEntry list) prog" where
  "contracts A = zoom ap_abi (\<lambda>ad ap. ap\<lparr>ap_abi := ad\<rparr>) (abi_entries A)"

record AdvanceRequest =
  rq_chainId :: nat
  rq_appContract :: bytes
  rq_blockNumber :: nat
  rq_blockTimestamp :: nat
  rq_prevRandao :: nat
  rq_index :: nat
  rq_payload :: bytes

definition blockContext :: "AdvanceRequest \<Rightarrow> BlockContext" where
  "blockContext req = \<lparr>b_chainId = rq_chainId req, b_appContract = rq_appContract req, b_blockNumber = rq_blockNumber req,
     b_timestamp = rq_blockTimestamp req, b_prevRandao = rq_prevRandao req, b_inputIndex = rq_index req\<rparr>"

definition emitted :: "AdvanceResult \<Rightarrow> Emission list" where
  "emitted res =
     (if ar_accept res then ar_emissions res
      else case ar_reason res of None \<Rightarrow> [] | Some reason \<Rightarrow> if reason = [] then [] else [Report [TAG_REVERT]])"

definition run_advance ::
  "(bytes \<Rightarrow> bytes) \<Rightarrow> 's store \<Rightarrow> Viem \<Rightarrow> AdvanceRequest \<Rightarrow> (('s, 'r, 'a) Application, bool \<times> Emission list) prog" where
  "run_advance H S V req =
     (let block = blockContext req in
      bnd (modify (\<lambda>ap. ap\<lparr>ap_router := (ap_router ap)\<lparr>lastBlock := Some block\<rparr>\<rparr>)) (\<lambda>_.
      bnd (gets ap_router) (\<lambda>R.
      bnd (zoom ap_world (\<lambda>w ap. ap\<lparr>ap_world := w\<rparr>) (router_advance H S V R block (rq_payload req))) (\<lambda>res.
      ret (ar_accept res, emitted res)))))"

definition run_inspect ::
  "(bytes \<Rightarrow> bytes) \<Rightarrow> 's store \<Rightarrow> Viem \<Rightarrow> bytes \<Rightarrow> (('s, 'r, 'a) Application, bool \<times> Emission list) prog" where
  "run_inspect H S V payload =
     bnd (gets ap_router) (\<lambda>R.
     bnd (zoom ap_world (\<lambda>w ap. ap\<lparr>ap_world := w\<rparr>) (router_inspect H S V R payload)) (\<lambda>res.
     ret (ir_accept res, map Report (ir_reports res))))"

end
