(* ===== verification/Genesis.thy ===== *)
theory Genesis
  imports Router_Halts Application
begin

text \<open>
  Where a chain starts and what it can reach. The devnet geometry is normalised, valid and storable, so \<open>Ledger.create\<close> on a
  blank drive gives a ledger that satisfies the invariant (\<open>create_ok\<close>). \<open>reaches\<close> is any sequence of advance and inspect
  requests from there; the preorders of \<open>Router_Inv\<close> become invariants of it. The interpretations at the end give the
  handler and router interfaces on the in-memory store and on the devnet tables.
\<close>

section \<open>The devnet drive\<close>

definition devnet_cfg :: NormalizedConfig where
  "devnet_cfg = \<lparr>driveLength = 1048576, capacity = 4096, loadLimit = 3584, seed = zeros 32, profile = ProfileSparse, slotSize = 64,
     tableOffset = 4096, registryOffset = 256, registryCapacity = 8, sparseOffset = 266240, sparseCapacity = 4096,
     sparseLoadLimit = 3584, sparseSlotSize = 64\<rparr>"

lemma devnet_normal: "normalizeConfig DEVNET_DRIVE_CONFIG = Ok devnet_cfg"
  by (simp add: normalizeConfig_def DEVNET_DRIVE_CONFIG_def devnet_cfg_def config_defaults_def config_seed_def or0_def
      HEADER_SIZE_def)

lemma devnet_valid: "validateConfig devnet_cfg = Ok ()"
  by code_simp

lemma devnet_storable: "storable devnet_cfg"
  by (simp add: storable_def devnet_cfg_def profile_defs)

lemma devnet_geometry: "drive_geometry (opened devnet_cfg) 1048576" "drive_geometry devnet_cfg 1048576"
  using opened_geometry [OF validateConfig_geometry [OF devnet_valid] devnet_storable, of 1048576] validateConfig_geometry [OF devnet_valid]
  by (simp_all add: devnet_cfg_def drive_geometry_def)

context byte_store
begin

lemma create_ok:
  assumes ok: "ok s" and z: "contents s = zeros 1048576"
  obtains l where "Ledger_create H S s = Ok l" and "ledger_inv contents ok H l" and "snd (jst l) = []"
    and "labs contents l = empty_abs" and "l_ram l = new_ram" and "l_drive l = fresh_drive devnet_cfg"
proof -
  let ?jok = "jok contents ok (contents s) [] []"
  have j: "?jok (s, [])" using ok by (simp add: jok_def)
  have z': "(contents \<circ> fst) (s, []) = zeros 1048576" using z by simp
  obtain j' where j': "format (JournaledStore S) DEVNET_DRIVE_CONFIG (s, []) = (Ok (fresh_drive devnet_cfg), j')" "?jok j'"
      "drive_inv H ((contents \<circ> fst) j') (fresh_drive devnet_cfg)"
      "abs_drive (fresh_drive devnet_cfg) ((contents \<circ> fst) j') = empty_abs"
    by (rule byte_store.format_ok [OF journaled_byte_store j z' _ devnet_normal devnet_valid _ devnet_storable, where H = H])
      (simp_all add: devnet_cfg_def)
  have rd: "readAt S 0 8 s = (Ok (zeros 8), s)" using read [OF ok, of 0 8] z by (simp add: slice_zeros)
  have "zeros 8 \<noteq> Magic" by code_simp
  then have "Ledger_create H S s = Ok \<lparr>jst = (fst j', []), l_drive = fresh_drive devnet_cfg, l_ram = new_ram\<rparr>"
    using rd j'(1) by (simp add: Ledger_create_def on_store_run commit_def rebuildFacades_def map_ram_def fresh_drive_def new_ram_def)
  with that [of "\<lparr>jst = (fst j', []), l_drive = fresh_drive devnet_cfg, l_ram = new_ram\<rparr>"] j'(2-4) show ?thesis
    by (simp add: ledger_inv_def labs_def jok_def fresh_drive_def new_ram_def)
qed

text \<open>Over the bytes a ledger left behind, \<^verbatim>\<open>Ledger.create\<close> finds the magic and opens.\<close>

lemma create_reopens:
  assumes inv: "ledger_inv contents ok H l"
  shows "Ledger_create H S (fst (jst l)) =
    Ok \<lparr>jst = (fst (jst l), []), l_drive = l_drive l, l_ram = new_ram\<lparr>facades := facades (l_ram l)\<rparr>\<rparr>"
proof -
  let ?s = "fst (jst l)" and ?d = "l_drive l"
  have ok: "ok ?s" and d: "drive_inv H (contents ?s) ?d" and f: "facades (l_ram l) = facades_from H (d_tokens ?d) 0 Map.empty"
    using inv by (simp_all add: ledger_inv_def)
  note g = drive_invD(1) [OF d]
  have n: "4096 \<le> length (contents ?s)" using geometry_apart(5) [OF g] accountsTable_in [OF g] by (simp add: table_in_def)
  have "slice (slice (contents ?s) 0 4096) 0 8 = Magic"
    using drive_invD(8) [OF d] by (auto simp: header_config_def HEADER_SIZE_def header_offsets split: if_splits)
  then have "slice (contents ?s) 0 8 = Magic" by (simp add: slice_def min_def)
  then have rd: "readAt S 0 8 ?s = (Ok Magic, ?s)" using read [OF ok, of 0 8] n by simp
  have j: "jok contents ok (contents ?s) [] [] (?s, [])" using ok by (simp add: jok_def)
  have "open_drive (JournaledStore S) (?s, []) = (Ok ?d, (?s, []))"
    by (rule byte_store.open_recovers [OF journaled_byte_store j]) (use d in simp)
  then show ?thesis
    using rd f by (simp add: Ledger_create_def on_store_run commit_def rebuildFacades_def map_ram_def)
qed

end

section \<open>Inspect\<close>

text \<open>A view leaves the ledger as it is, if the contracts' own views do.\<close>

definition reading :: "('s \<Rightarrow> bytes) \<Rightarrow> ('s \<Rightarrow> bool) \<Rightarrow> (bytes \<Rightarrow> bytes) \<Rightarrow> 's Ledger \<Rightarrow> 's Ledger \<Rightarrow> bool" where
  "reading contents ok H l l' \<longleftrightarrow> (ledger_inv contents ok H l \<longrightarrow> l' = l)"

lemma decode_params_ok: "decodeAbiParameters V ts data = Ok args \<Longrightarrow> viem_ok V \<Longrightarrow> list_all abi_ok args"
  by (simp add: viem_ok_def)

lemma decoded_call_addresses:
  assumes "viem_ok V" and "decodeEvmCall V payload = Some call"
  shows "length (dc_from call) = 20" and "length (dc_to call) = 20"
  using assms by (auto simp: decodeEvmCall_def Let_def dest!: decode_params_ok split: if_splits res.splits list.splits abi.splits)

context reader_client
begin

lemma contract_view_steps:
  assumes "\<And>name cb args. cs_views spec name = Some cb \<Longrightarrow> steps R (cb args call)"
  shows "steps R (contract_view V spec call)"
  unfolding contract_view_def Let_def by (intro steps_intros) (use assms in blast)

lemma handler_view_steps:
  assumes "viem_ok V" and "views_respect R Rt"
    and "resolve Rt dst block deposit l = Some h" and "handler_view H S V Rt h = Some view"
  shows "steps R (view call)"
  using assms resolve_manifest [of Rt dst block deposit l]
  by (cases h) (auto intro!: registry_view_steps erc20_view_steps l1block_view_steps config_view_steps messenger_view_steps
      contract_view_steps simp: views_respect_def)

lemma inspect_call_steps:
  assumes "viem_ok V" and "views_respect R Rt"
  shows "steps R (inspect_call H S V Rt call)"
  unfolding steps_def
proof
  fix w
  show "R (w_led w) (w_led (snd (inspect_call H S V Rt call w)))"
  proof (cases "resolve Rt (dc_to call) None None (w_led w)")
    case None
    then show ?thesis by (simp add: inspect_call_def refl)
  next
    case (Some h)
    show ?thesis
    proof (cases "handler_view H S V Rt h")
      case None
      with Some show ?thesis by (simp add: inspect_call_def refl)
    next
      case (Some view)
      have v: "steps R (view c)" for c by (rule handler_view_steps [OF assms \<open>resolve _ _ _ _ _ = Some h\<close> Some])
      have "steps R (try_catch
             (bnd (view \<lparr>call_sender = dc_from call, call_to = dc_to call, call_value = dc_value call,
                     call_data = dc_data call\<rparr>) (\<lambda>outcome. ret (case outcome of
                Return data \<Rightarrow> answered True TAG_RETURN data
              | VRevert data \<Rightarrow> answered False TAG_REVERT data)))
             (\<lambda>e. ret (answered False TAG_REVERT (errorRevert V (describe e)))))"
        by (intro steps_intros v)
      then show ?thesis using Some \<open>resolve _ _ _ _ _ = Some h\<close> by (simp add: inspect_call_def steps_def)
    qed
  qed
qed

end

context byte_store
begin

lemma reading_client:
  assumes H: "keccak_digest H"
  shows "reader_client S H (reading contents ok H)"
proof unfold_locales
  fix a :: bytes and l tid
  assume "length a = 20"
  then show "reading contents ok H l (snd (tokenBalance H S a tid l))"
    using tokenBalance_runs [OF H, of a l tid] by (auto simp: reading_def)
qed (auto simp: reading_def)

lemma inspect_runs:
  assumes H: "keccak_digest H" and V: "viem_ok V"
    and con: "contracts_respect (keeps_since contents ok H) Rt" "views_respect (reading contents ok H) Rt"
    and inv: "ledger_inv contents ok H (w_led w)" and run: "router_inspect H S V Rt payload w = (Ok res, w')"
  shows "led_eq contents (w_led w) (w_led w') \<and> ledger_inv contents ok H (w_led w')"
proof -
  have same: ?thesis if "w_led w' = w_led w" using that inv by (simp add: led_eq_def)
  show ?thesis
  proof (cases "decodeEvmCall V payload")
    case None
    then show ?thesis using run same by (simp add: router_inspect_def)
  next
    case (Some call)
    show ?thesis
    proof (cases "dc_simulate call")
      case False
      then have "inspect_call H S V Rt call w = (Ok res, w')" using run Some by (simp add: router_inspect_def)
      from stepsD [OF reader_client.inspect_call_steps [OF reading_client [OF H] V con(2)] this] inv same
      show ?thesis by (simp add: reading_def)
    next
      case True
      then have sim: "inspect_simulate H S V Rt call w = (Ok res, w')" using run Some by (simp add: router_inspect_def)
      from simulate_runs [OF H V con(1) decoded_call_addresses [OF V Some] inv sim] show ?thesis by simp
    qed
  qed
qed

end

section \<open>Sequences of requests\<close>

text \<open>The states a running application passes through: any requests in any order. A rejected input leaves its state as the
  program does; the machine then discards it as well.\<close>

inductive reaches ::
  "(bytes \<Rightarrow> bytes) \<Rightarrow> 's store \<Rightarrow> Viem \<Rightarrow> ('s, 'r, 'a) Application \<Rightarrow> ('s, 'r, 'a) Application \<Rightarrow> bool" for H S V ap where
  start: "reaches H S V ap ap"
| advance: "reaches H S V ap ap1 \<Longrightarrow> signer_nonzero V (rq_payload req) \<Longrightarrow> run_advance H S V req ap1 = (Ok out, ap2) \<Longrightarrow>
    reaches H S V ap ap2"
| inspect: "reaches H S V ap ap1 \<Longrightarrow> run_inspect H S V payload ap1 = (Ok out, ap2) \<Longrightarrow> reaches H S V ap ap2"

abbreviation led_of :: "('s, 'r, 'a) Application \<Rightarrow> 's Ledger" where
  "led_of ap \<equiv> w_led (ap_world ap)"

text \<open>An application ready for a request: the invariant holds, the journal is empty, and its contracts respect \<open>R\<close>.\<close>

definition ready ::
  "('s \<Rightarrow> bytes) \<Rightarrow> ('s \<Rightarrow> bool) \<Rightarrow> (bytes \<Rightarrow> bytes) \<Rightarrow> ('s Ledger \<Rightarrow> 's Ledger \<Rightarrow> bool) \<Rightarrow> ('s, 'r, 'a) Application \<Rightarrow> bool" where
  "ready contents ok H R ap \<longleftrightarrow>
     ledger_inv contents ok H (led_of ap) \<and> snd (jst (led_of ap)) = [] \<and>
     contracts_respect (keeps_since contents ok H) (ap_router ap) \<and> contracts_respect R (ap_router ap) \<and>
     views_respect (reading contents ok H) (ap_router ap)"

lemma respect_lastBlock [simp]:
  "contracts_respect R (Rt\<lparr>lastBlock := b\<rparr>) = contracts_respect R Rt" "views_respect R (Rt\<lparr>lastBlock := b\<rparr>) = views_respect R Rt"
  by (simp_all add: contracts_respect_def views_respect_def)

lemma run_advance_runs:
  assumes "run_advance H S V req ap = (Ok out, ap')"
  obtains res w' where "router_advance H S V ((ap_router ap)\<lparr>lastBlock := Some (blockContext req)\<rparr>) (blockContext req) (rq_payload req)
      (ap_world ap) = (Ok res, w')" and "out = (ar_accept res, emitted res)"
    and "ap' = ap\<lparr>ap_router := (ap_router ap)\<lparr>lastBlock := Some (blockContext req)\<rparr>, ap_world := w'\<rparr>"
  using assms by (auto simp: run_advance_def Let_def zoom_def elim!: bnd_OkE split: prod.splits)

lemma run_inspect_runs:
  assumes "run_inspect H S V payload ap = (Ok out, ap')"
  obtains res w' where "router_inspect H S V (ap_router ap) payload (ap_world ap) = (Ok res, w')"
    and "out = (ir_accept res, map Report (ir_reports res))" and "ap' = ap\<lparr>ap_world := w'\<rparr>"
  using assms by (auto simp: run_inspect_def zoom_def elim!: bnd_OkE split: prod.splits)

context input_client
begin

lemma advance_ready:
  assumes H: "keccak_digest H" and V: "viem_ok V" and ap: "ready contents ok H R ap" and nz: "signer_nonzero V (rq_payload req)"
    and run: "run_advance H S V req ap = (Ok out, ap')"
  shows "ready contents ok H R ap' \<and> R (led_of ap) (led_of ap')"
proof (rule run_advance_runs [OF run])
  fix res w'
  let ?Rt = "(ap_router ap)\<lparr>lastBlock := Some (blockContext req)\<rparr>"
  assume adv: "router_advance H S V ?Rt (blockContext req) (rq_payload req) (ap_world ap) = (Ok res, w')"
    and ap': "ap' = ap\<lparr>ap_router := ?Rt, ap_world := w'\<rparr>"
  have "contracts_respect (keeps_since contents ok H) ?Rt" "contracts_respect R ?Rt" "ledger_inv contents ok H (led_of ap)"
    "snd (jst (led_of ap)) = []" using ap by (simp_all add: ready_def)
  from advance_respects [OF H V nz this adv] ap ap' show ?thesis by (simp add: ready_def)
qed

lemma inspect_ready:
  assumes H: "keccak_digest H" and V: "viem_ok V" and ap: "ready contents ok H R ap"
    and run: "run_inspect H S V payload ap = (Ok out, ap')"
  shows "ready contents ok H R ap' \<and> R (led_of ap) (led_of ap')"
proof (rule run_inspect_runs [OF run])
  fix res w'
  assume ins: "router_inspect H S V (ap_router ap) payload (ap_world ap) = (Ok res, w')" and ap': "ap' = ap\<lparr>ap_world := w'\<rparr>"
  have "led_eq contents (led_of ap) (w_led w') \<and> ledger_inv contents ok H (w_led w')"
    by (rule inspect_runs [OF H V _ _ _ ins]) (use ap in \<open>simp_all add: ready_def\<close>)
  with ap ap' restored [of "led_of ap" "w_led w'"] led_eq_clean show ?thesis by (auto simp: ready_def)
qed

lemma reaches_ready:
  assumes "reaches H S V ap ap'" and H: "keccak_digest H" and V: "viem_ok V" and ap: "ready contents ok H R ap"
  shows "ready contents ok H R ap' \<and> R (led_of ap) (led_of ap')"
  using assms(1)
proof induction
  case start
  with ap show ?case by (simp add: refl)
next
  case (advance ap1 req out ap2)
  with advance_ready [OF H V] trans show ?case by blast
next
  case (inspect ap1 payload out ap2)
  with inspect_ready [OF H V] trans show ?case by blast
qed

end

section \<open>Instances\<close>

text \<open>The interfaces on the in-memory store, for every hash: where \<open>H\<close> is no digest the store predicate admits no state.\<close>

lemma digest_store: "byte_store S contents ok \<Longrightarrow> byte_store S contents (\<lambda>s. ok s \<and> keccak_digest H)"
  by (auto simp: byte_store_def readable_store_def byte_store_axioms_def)

lemma digest_relay:
  assumes st: "byte_store S contents (\<lambda>s. ok s \<and> keccak_digest H)"
    and yes: "keccak_digest H \<Longrightarrow> relay_client S H R contents (\<lambda>s. ok s \<and> keccak_digest H)"
    and no: "\<And>l l'. \<not> keccak_digest H \<Longrightarrow> R l l'"
  shows "relay_client S H R contents (\<lambda>s. ok s \<and> keccak_digest H)"
proof (cases "keccak_digest H")
  case True
  then show ?thesis by (rule yes)
next
  case False
  then show ?thesis
    by (intro relay_client.intro relay_client_axioms.intro ledger_client.intro ledger_client_axioms.intro reader_client.intro st no)
qed

lemma digest_input:
  assumes st: "byte_store S contents (\<lambda>s. ok s \<and> keccak_digest H)"
    and yes: "keccak_digest H \<Longrightarrow> input_client S H R contents (\<lambda>s. ok s \<and> keccak_digest H)"
    and no: "\<And>l l'. \<not> keccak_digest H \<Longrightarrow> R l l'"
  shows "input_client S H R contents (\<lambda>s. ok s \<and> keccak_digest H)"
proof (cases "keccak_digest H")
  case True
  then show ?thesis by (rule yes)
next
  case False
  have "relay_client S H R contents (\<lambda>s. ok s \<and> keccak_digest H)"
    by (rule digest_relay [OF st]) (use False no in blast)+
  then show ?thesis by (intro input_client.intro input_client_axioms.intro no False)
qed

interpretation accounts_table: drive_table MemStore "\<lambda>b. b" "\<lambda>s. mem_ok s \<and> keccak_digest H" H sd "accountsTable devnet_cfg"
  for H sd
  by (intro drive_table.intro drive_table_axioms.intro digest_store mstore.byte_store_axioms accountsTable_ok [OF devnet_geometry(2)])
    (simp add: keccak_digest_def)

interpretation balances_table: drive_table MemStore "\<lambda>b. b" "\<lambda>s. mem_ok s \<and> keccak_digest H" H sd "sparseTable devnet_cfg"
  for H sd
  by (intro drive_table.intro drive_table_axioms.intro digest_store mstore.byte_store_axioms sparseTable_ok [OF devnet_geometry(2)])
    (simp_all add: keccak_digest_def devnet_cfg_def)

interpretation mem_reader: reader_client MemStore H "reading (\<lambda>b. b) (\<lambda>s. mem_ok s \<and> keccak_digest H) H" for H
proof (cases "keccak_digest H")
  case True
  then show "reader_client MemStore H (reading (\<lambda>b. b) (\<lambda>s. mem_ok s \<and> keccak_digest H) H)"
    by (rule byte_store.reading_client [OF digest_store [OF mstore.byte_store_axioms]])
next
  case False
  then show "reader_client MemStore H (reading (\<lambda>b. b) (\<lambda>s. mem_ok s \<and> keccak_digest H) H)"
    by unfold_locales (simp_all add: reading_def ledger_inv_def)
qed

interpretation mem_journal: relay_client MemStore H "keeps_since (\<lambda>b. b) (\<lambda>s. mem_ok s \<and> keccak_digest H) H" "\<lambda>b. b"
  "\<lambda>s. mem_ok s \<and> keccak_digest H" for H
  by (rule digest_relay [OF digest_store [OF mstore.byte_store_axioms]
        byte_store.keeps_since_relay [OF digest_store [OF mstore.byte_store_axioms]]]) (simp_all add: keeps_since_def since_def ledger_inv_def)

interpretation mem_nonces: relay_client MemStore H "nonces_kept (\<lambda>b. b) (\<lambda>s. mem_ok s \<and> keccak_digest H) H" "\<lambda>b. b"
  "\<lambda>s. mem_ok s \<and> keccak_digest H" for H
  by (rule digest_relay [OF digest_store [OF mstore.byte_store_axioms]
        byte_store.nonces_relay [OF digest_store [OF mstore.byte_store_axioms]]]) (simp_all add: nonces_kept_def ledger_inv_def)

interpretation mem_ledger: ledger_client MemStore H "nonces_kept (\<lambda>b. b) (\<lambda>s. mem_ok s \<and> keccak_digest H) H" for H
  by (rule mem_nonces.ledger_client_axioms)

interpretation mem_supply: input_client MemStore H "supply_kept (\<lambda>b. b) (\<lambda>s. mem_ok s \<and> keccak_digest H) H" "\<lambda>b. b"
  "\<lambda>s. mem_ok s \<and> keccak_digest H" for H
  by (rule digest_input [OF digest_store [OF mstore.byte_store_axioms]
        byte_store.supply_input [OF digest_store [OF mstore.byte_store_axioms]]]) (simp_all add: supply_kept_def ledger_inv_def)

interpretation mem_escrow: input_client MemStore H "escrow_kept (\<lambda>b. b) (\<lambda>s. mem_ok s \<and> keccak_digest H) H" "\<lambda>b. b"
  "\<lambda>s. mem_ok s \<and> keccak_digest H" for H
  by (rule digest_input [OF digest_store [OF mstore.byte_store_axioms]
        byte_store.escrow_input [OF digest_store [OF mstore.byte_store_axioms]]]) (simp_all add: escrow_kept_def ledger_inv_def)

interpretation mem_messages: input_client MemStore H "messages_kept (\<lambda>b. b) (\<lambda>s. mem_ok s \<and> keccak_digest H) H" "\<lambda>b. b"
  "\<lambda>s. mem_ok s \<and> keccak_digest H" for H
  by (rule digest_input [OF digest_store [OF mstore.byte_store_axioms]
        byte_store.messages_input [OF digest_store [OF mstore.byte_store_axioms]]]) (simp_all add: messages_kept_def ledger_inv_def)

interpretation mem_history: input_client MemStore H "history_kept (\<lambda>b. b) (\<lambda>s. mem_ok s \<and> keccak_digest H) H" "\<lambda>b. b"
  "\<lambda>s. mem_ok s \<and> keccak_digest H" for H
  by (rule digest_input [OF digest_store [OF mstore.byte_store_axioms]
        byte_store.history_input [OF digest_store [OF mstore.byte_store_axioms]]]) (simp_all add: history_kept_def ledger_inv_def)

end
