(* ===== verification/Samples.thy ===== *)
theory Samples
  imports Genesis
begin

text \<open>
  Concrete parameters and states on which the properties of the development are exercised: a hash, a transaction library
  with four transactions, and the devnet ledger as \<open>Ledger.create\<close> leaves it on a blank in-memory drive.
\<close>

definition sample_hash :: "bytes \<Rightarrow> bytes" where
  "sample_hash x = zeros 32"

definition sample_address :: "byte \<Rightarrow> bytes" where
  "sample_address b = replicate 20 b"

definition sample_tx :: "string \<Rightarrow> bytes \<Rightarrow> AnyParsedTx" where
  "sample_tx ty dst = \<lparr>tx_type = Some ty, tx_from = Some (sample_address 7), tx_to = Some dst, tx_mint = Some 5, tx_value = None,
     tx_data = None, tx_chainId = None, tx_nonce = None, tx_r = Some 1, tx_s = Some 1\<rparr>"

definition sample_parse :: "bytes \<Rightarrow> AnyParsedTx res" where
  "sample_parse raw =
     (if raw = [1] then Ok (sample_tx ''legacy'' REGISTRY_ADDRESS)
      else if raw = [2] then Ok (sample_tx ''eip1559'' (sample_address 9))
      else if raw = [3] then Ok (sample_tx ''eip4844'' (sample_address 9))
      else if raw = [0x7e] then Ok (sample_tx ''deposit'' REGISTRY_ADDRESS)
      else Throw (Error ''not a transaction''))"

definition sample_viem :: Viem where
  "sample_viem =
     \<lparr>toFunctionSelector = (\<lambda>_. zeros 4), encodeAbiParameters = (\<lambda>_ _. Ok []), decodeAbiParameters = (\<lambda>_ _. Throw (Error [])),
      decodeFunctionData = (\<lambda>_ _. Throw (Error [])), encodeFunctionData = (\<lambda>_ _ _. Ok []), encodeFunctionResult = (\<lambda>_ _ _. Ok []),
      encodeErrorResult = (\<lambda>_. []), toHex32 = (\<lambda>_. Ok (zeros 32)), padHex32 = (\<lambda>_. Ok (zeros 32)),
      parseTransaction = sample_parse, recoverTransactionAddress = (\<lambda>_. Ok (sample_address 7)), getAddress = (\<lambda>_. [])\<rparr>"

definition sample_block :: BlockContext where
  "sample_block = \<lparr>b_chainId = 1, b_appContract = zeros 20, b_blockNumber = 0, b_timestamp = 0, b_prevRandao = 0, b_inputIndex = 0\<rparr>"

definition sample_router :: "(bytes, unit) Router" where
  "sample_router = new_Router 1 (sample_address 7)"

definition sample_request :: "bytes \<Rightarrow> AdvanceRequest" where
  "sample_request raw = \<lparr>rq_chainId = 1, rq_appContract = zeros 20, rq_blockNumber = 0, rq_blockTimestamp = 0, rq_prevRandao = 0,
     rq_index = 0, rq_payload = raw\<rparr>"

definition sample_world :: "bytes Ledger \<Rightarrow> (bytes, unit) World" where
  "sample_world l = \<lparr>w_led = l, w_sink = BufferSink 0, w_attributes = None, w_app = ()\<rparr>"

definition sample_app :: "bytes Ledger \<Rightarrow> (bytes, unit, bytes) Application" where
  "sample_app l = \<lparr>ap_world = sample_world l, ap_router = sample_router, ap_abi = (zeros 262144, \<lparr>ad_capacity = 64, ad_count = 0,
     ad_indexOffset = 64, ad_heapOffset = 4096, ad_heapLength = 258048, ad_heapUsed = 0\<rparr>)\<rparr>"

lemma sample_world_led [simp]: "w_led (sample_world l) = l"
  by (simp add: sample_world_def)

lemma sample_digest: "keccak_digest sample_hash"
  by (simp add: keccak_digest_def sample_hash_def)

lemma sample_addresses [simp]: "length (sample_address b) = 20" "isZero (sample_address b) \<longleftrightarrow> b = 0"
  by (simp_all add: sample_address_def isZero_def list_all_iff)

lemma sample_viem_ok: "viem_ok sample_viem"
  by (simp add: viem_ok_def sample_viem_def sample_parse_def sample_tx_def)

lemma sample_viem_returns: "viem_returns sample_viem"
  by (simp add: viem_returns_def sample_viem_def)

lemma sample_respects: "contracts_respect R sample_router" "views_respect R sample_router" "contracts_halt I sample_router"
  using new_Router_contracts [of R 1 "sample_address 7"]
  by (simp_all add: sample_router_def) (auto simp: contracts_halt_def new_Router_def)

lemma sample_inputs:
  "parseInput sample_viem [] = Opaque"
  "parseInput sample_viem [1] = Signed \<lparr>sg_type = ''legacy'', sg_chainId = None, sg_nonce = 0, sg_to = Some REGISTRY_ADDRESS,
     sg_value = 0, sg_data = [], sg_s = 1, sg_raw = [1]\<rparr>"
  "parseInput sample_viem [2] = Signed \<lparr>sg_type = ''eip1559'', sg_chainId = None, sg_nonce = 0, sg_to = Some (sample_address 9),
     sg_value = 0, sg_data = [], sg_s = 1, sg_raw = [2]\<rparr>"
  "parseInput sample_viem [3] = Refused ''transaction type eip4844 not admitted''"
  "parseInput sample_viem [0x7e] = Deposit \<lparr>dep_from = sample_address 7, dep_to = Some REGISTRY_ADDRESS, dep_mint = 5,
     dep_value = 0, dep_data = []\<rparr>"
  by (simp_all add: parseInput_def sample_viem_def sample_parse_def sample_tx_def or_zero_def dataBytes_def type_text_def
      isSerializedTransaction_def)

lemma sample_signers: "signer_nonzero sample_viem raw"
  by (simp add: signer_nonzero_def recoverSender_def sample_viem_def split: ParsedInput.split)

lemma sample_recovers: "sg_s tx = 1 \<Longrightarrow> recoverSender sample_viem tx = Some (sample_address 7)"
  by (simp add: recoverSender_def sample_viem_def HALF_N_def)

text \<open>The ledger at genesis.\<close>

lemma genesis:
  obtains l where "ledger_inv (\<lambda>b. b) mem_ok sample_hash l" and "snd (jst l) = []" and "labs (\<lambda>b. b) l = empty_abs"
    and "l_ram l = new_ram" and "l_drive l = fresh_drive devnet_cfg"
  by (rule mstore.create_ok [of "zeros 1048576" sample_hash]) (auto simp: mem_ok_def)

definition at_genesis :: "bytes Ledger \<Rightarrow> bool" where
  "at_genesis l \<longleftrightarrow> ledger_inv (\<lambda>b. b) mem_ok sample_hash l \<and> labs (\<lambda>b. b) l = empty_abs \<and> l_drive l = fresh_drive devnet_cfg"

lemma genesis_ledger:
  obtains l where "at_genesis l" and "ledger_inv (\<lambda>b. b) mem_ok sample_hash l" and "snd (jst l) = []" and "l_ram l = new_ram"
    and "labs (\<lambda>b. b) l = empty_abs"
  by (rule genesis) (simp add: at_genesis_def)

lemma sample_settles:
  assumes "at_genesis l"
  shows "\<exists>l'. settle sample_hash MemStore (Some (sample_address 7, 0)) res l = (Ok res, l')"
proof -
  let ?a = "sample_address 7"
  have l: "ledger_inv (\<lambda>b. b) mem_ok sample_hash l" "labs (\<lambda>b. b) l = empty_abs" "d_cfg (l_drive l) = opened devnet_cfg"
    using assms by (simp_all add: at_genesis_def fresh_drive_def)
  have cfg: "\<not> compact (opened devnet_cfg)" "loadLimit (opened devnet_cfg) = 3584"
    by (simp_all add: compact_def opened_def devnet_cfg_def profile_defs Let_def)
  have "account sample_hash MemStore ?a l = (Ok (0, 0), l)"
    using mstore.account_runs [OF sample_digest _ l(1), of ?a] l(2) by (simp add: nonceOf_def etherOf_def empty_abs_def)
  moreover obtain l' where "led_setAccount sample_hash MemStore ?a 1 0 l =
      (fst (spec_setAccount (d_cfg (l_drive l)) ?a 1 0 (labs (\<lambda>b. b) l)), l')"
    by (rule mstore.led_setAccount_runs [OF sample_digest _ l(1), of ?a 1 0]) simp_all
  ultimately have "bumpNonceAndCharge sample_hash MemStore ?a 0 l = (Ok (), l')"
    using l(2,3) cfg by (simp add: bumpNonceAndCharge_def spec_setAccount_def empty_abs_def balance_bytes_def)
  then show ?thesis by (simp add: settle_def charge_def commit_def)
qed

lemma sample_dispatch:
  assumes "ctx_value ctx = 0" and "ctx_to ctx = REGISTRY_ADDRESS"
  shows "transfer_and_dispatch sample_hash MemStore sample_viem sample_router ctx dep w = (Ok (Revert []), w)"
  using assms by (simp add: transfer_and_dispatch_def debitEther_def creditEther_def on_led_def zoom_run resolve_def sample_router_def
      new_Router_def revert_def errorRevert_def sample_viem_def)

lemma sample_unrouted:
  "sample_address 9 \<notin> set [REGISTRY_ADDRESS, BRIDGE_ADDRESS, CONFIG_ADDRESS, L1BLOCK_ADDRESS, L2_MESSENGER_ADDRESS, L2_BRIDGE_ADDRESS,
     MESSAGE_PASSER_ADDRESS, zeros 20]"
  by code_simp

lemma sample_transfer:
  assumes "ctx_value ctx = 0" and "ctx_to ctx = sample_address 9" and "ctx_block ctx = sample_block" and "l_ram (w_led w) = new_ram"
  shows "transfer_and_dispatch sample_hash MemStore sample_viem sample_router ctx None w = (Ok Accept, w)"
proof -
  have "resolve sample_router (sample_address 9) (Some sample_block) None (w_led w) = None"
    using assms(4) sample_unrouted by (simp add: resolve_def sample_router_def new_Router_def sample_block_def tokenByL2Address_def new_ram_def)
  then show ?thesis
    using assms by (simp add: transfer_and_dispatch_def debitEther_def creditEther_def on_led_def zoom_run)
qed

lemma sample_finish:
  assumes "at_genesis l"
  shows "\<exists>l'. finish sample_hash MemStore (mark l) (Some (sample_address 7, 0)) (Revert []) (BufferSink 0) l =
      (Ok (finished ORevert [Report [TAG_REVERT]]), l')"
    and "\<exists>l'. finish sample_hash MemStore (mark l) (Some (sample_address 7, 0)) Accept (BufferSink 0) l = (Ok (finished OAccept []), l')"
proof -
  have "since (\<lambda>b. b) mem_ok sample_hash l l" using assms by (simp add: at_genesis_def since_refl)
  from mstore.rollback_to_since [OF this] obtain l2 where l2: "rollback_to sample_hash MemStore (mark l) l = (Ok (), l2)"
      "led_eq (\<lambda>b. b) l l2" "ledger_inv (\<lambda>b. b) mem_ok sample_hash l2" by blast
  then have "at_genesis l2" using assms by (auto simp: at_genesis_def led_eq_def labs_def)
  from sample_settles [OF this, of "finished ORevert [Report [TAG_REVERT]]"] l2(1)
  show "\<exists>l'. finish sample_hash MemStore (mark l) (Some (sample_address 7, 0)) (Revert []) (BufferSink 0) l =
      (Ok (finished ORevert [Report [TAG_REVERT]]), l')"
    by (simp add: finish_def reportsOnly_def BufferSink_def tagged_def)
  from sample_settles [OF assms, of "finished OAccept []"]
  show "\<exists>l'. finish sample_hash MemStore (mark l) (Some (sample_address 7, 0)) Accept (BufferSink 0) l = (Ok (finished OAccept []), l')"
    by (simp add: finish_def BufferSink_def)
qed

lemma sample_execute:
  assumes "transfer_and_dispatch sample_hash MemStore sample_viem sample_router ctx
      (if ctx_isDeposit ctx then Some (ctx_sender ctx) else None) w = (Ok outcome, w)"
    and "ctx_block ctx = sample_block" and "w = sample_world l"
    and "\<exists>l'. finish sample_hash MemStore (mark l) ch outcome (BufferSink 0) l = (Ok res, l')"
  shows "\<exists>w'. execute sample_hash MemStore sample_viem sample_router ctx (mark l) ch w = (Ok res, w')"
proof -
  let ?m = "transfer_and_dispatch sample_hash MemStore sample_viem sample_router ctx (if ctx_isDeposit ctx then Some (ctx_sender ctx) else None)"
  have w: "w\<lparr>w_sink := BufferSink (b_inputIndex sample_block)\<rparr> = w" using assms(3) by (simp add: sample_world_def sample_block_def)
  have tc: "try_catch ?m h w = (Ok outcome, w)" for h by (rule try_catch_Ok) (rule assms(1))
  from assms(4) obtain l' where "finish sample_hash MemStore (mark l) ch outcome (BufferSink 0) l = (Ok res, l')" by blast
  then show ?thesis using w tc assms(2,3) by (simp add: execute_def on_led_def zoom_def sample_world_def del: bnd_Pair)
qed

lemma sample_signed:
  assumes gen: "at_genesis l" "l_ram l = new_ram"
  shows "\<exists>w'. router_advance sample_hash MemStore sample_viem sample_router sample_block [1] (sample_world l) =
      (Ok (finished ORevert [Report [TAG_REVERT]]), w')"
    and "\<exists>w'. router_advance sample_hash MemStore sample_viem sample_router sample_block [2] (sample_world l) =
      (Ok (finished OAccept []), w')"
proof -
  let ?s = "sample_address 7" and ?w = "sample_world l"
  have inv: "ledger_inv (\<lambda>b. b) mem_ok sample_hash l" using gen by (simp add: at_genesis_def)
  have acc: "on_led (account sample_hash MemStore ?s) ?w = (Ok (0, 0), ?w)"
    using mstore.account_runs [OF sample_digest _ inv, of ?s] gen(1)
    by (simp add: at_genesis_def nonceOf_def etherOf_def empty_abs_def on_led_def zoom_run sample_world_def)
  have fee: "fee (ram ?w) = 0" "mark (w_led ?w) = mark l" using gen(2) by (simp_all add: ram_def sample_world_def new_ram_def)
  have ram: "l_ram (w_led ?w) = new_ram" using gen(2) by (simp add: sample_world_def)
  show "\<exists>w'. router_advance sample_hash MemStore sample_viem sample_router sample_block [1] ?w =
      (Ok (finished ORevert [Report [TAG_REVERT]]), w')"
    using sample_execute [OF sample_dispatch _ refl sample_finish(1) [OF gen(1)]] acc fee
    by (simp add: router_advance_def sample_inputs advanceSigned_def sample_recovers)
  show "\<exists>w'. router_advance sample_hash MemStore sample_viem sample_router sample_block [2] ?w = (Ok (finished OAccept []), w')"
    using sample_execute [of "\<lparr>ctx_block = sample_block, ctx_sender = ?s, ctx_to = sample_address 9, ctx_value = 0, ctx_data = [],
        ctx_isDeposit = False, ctx_mint = 0\<rparr>" ?w Accept l, OF _ _ refl sample_finish(2) [OF gen(1)]] sample_transfer [OF _ _ _ ram] acc fee
    by (simp add: router_advance_def sample_inputs advanceSigned_def sample_recovers)
qed

lemma sample_deposit:
  assumes gen: "at_genesis l" "snd (jst l) = []"
  shows "\<exists>w'. router_advance sample_hash MemStore sample_viem sample_router sample_block [0x7e] (sample_world l) =
      (Ok (finished ORevert [Report [TAG_REVERT]]), w')"
proof -
  let ?s = "sample_address 7"
  have l: "ledger_inv (\<lambda>b. b) mem_ok sample_hash l" "labs (\<lambda>b. b) l = empty_abs" "d_cfg (l_drive l) = opened devnet_cfg"
    using gen(1) by (simp_all add: at_genesis_def fresh_drive_def)
  have cfg: "\<not> compact (opened devnet_cfg)" "loadLimit (opened devnet_cfg) = 3584"
    by (simp_all add: compact_def opened_def devnet_cfg_def profile_defs Let_def)
  have "account sample_hash MemStore ?s l = (Ok (0, 0), l)"
    using mstore.account_runs [OF sample_digest _ l(1), of ?s] l(2) by (simp add: nonceOf_def etherOf_def empty_abs_def)
  moreover obtain l1 where "led_setAccount sample_hash MemStore ?s 0 5 l =
      (fst (spec_setAccount (d_cfg (l_drive l)) ?s 0 5 (labs (\<lambda>b. b) l)), l1)"
    by (rule mstore.led_setAccount_runs [OF sample_digest _ l(1), of ?s 0 5]) simp_all
  ultimately have mint: "creditEther sample_hash MemStore ?s 5 l = (Ok (), l1)"
    using l(2,3) cfg by (simp add: creditEther_def spec_setAccount_def empty_abs_def balance_bytes_def)
  have "since (\<lambda>b. b) mem_ok sample_hash l l1"
    by (rule journaledD [OF mstore.creditEther_journaled [OF sample_digest] since_refl [OF l(1)] mint]) simp
  then have "ledger_inv (\<lambda>b. b) mem_ok sample_hash l1" by (simp add: since_def)
  from mstore.rollback_to_since [OF since_refl [OF this]] obtain l2 where "rollback_to sample_hash MemStore (mark l1) l1 = (Ok (), l2)" by blast
  then have fin: "\<exists>l'. finish sample_hash MemStore (mark l1) None (Revert []) (BufferSink 0) l1 =
      (Ok (finished ORevert [Report [TAG_REVERT]]), l')"
    by (simp add: finish_def reportsOnly_def BufferSink_def tagged_def settle_def charge_def commit_def)
  have w: "(sample_world l)\<lparr>w_led := l1\<rparr> = sample_world l1" by (simp add: sample_world_def)
  have "on_led (try_catch (bnd (creditEther sample_hash MemStore ?s 5) (\<lambda>_. ret None)) h) (sample_world l) = (Ok None, sample_world l1)"
    for h :: "exn \<Rightarrow> (bytes Ledger, AdvanceResult option) prog"
    using mint w by (simp add: on_led_def zoom_run sample_world_def)
  then show ?thesis
    using sample_execute [OF sample_dispatch _ refl fin] by (simp add: router_advance_def sample_inputs advanceDeposit_def)
qed

text \<open>A request to a freshly assembled application.\<close>

lemma sample_app_led [simp]: "led_of (sample_app l) = l"
  by (simp add: sample_app_def)

lemma sample_ready:
  assumes "ledger_inv (\<lambda>b. b) mem_ok sample_hash l" and "snd (jst l) = []"
  shows "ready (\<lambda>b. b) mem_ok sample_hash R (sample_app l)"
  using assms by (simp add: ready_def sample_app_def sample_respects)

lemma sample_reaches:
  "reaches sample_hash MemStore sample_viem (sample_app l)
     ((sample_app l)\<lparr>ap_router := sample_router\<lparr>lastBlock := Some (blockContext (sample_request []))\<rparr>\<rparr>)"
proof (rule reaches.advance [OF reaches.start sample_signers, where req = "sample_request []"])
  show "run_advance sample_hash MemStore sample_viem (sample_request []) (sample_app l) =
      (Ok (True, [Report [TAG_APP]]), (sample_app l)\<lparr>ap_router := sample_router\<lparr>lastBlock := Some (blockContext (sample_request []))\<rparr>\<rparr>)"
    by (simp add: run_advance_def sample_request_def sample_app_def zoom_def router_advance_def sample_inputs emitted_def finished_def
        tagged_def Let_def)
qed

end
