(* ===== verification/Drive_Properties.thy ===== *)
theory Drive_Properties
  imports Samples
begin

text \<open>
  The accounts drive and the journal above it, as a client sees them: a validated configuration keeps the regions of the drive
  apart, formatting gives an empty drive, every operation on the bytes implements its specification on accounts, balances and
  tokens, and a rollback restores what the journal has seen.
\<close>

section \<open>Configuration and format\<close>





lemma sample_drive:
  obtains s d where "mem_ok s" and "drive_inv sample_hash s d" and "abs_drive d s = empty_abs" and "d_cfg d = opened devnet_cfg"
proof -
  have "driveLength devnet_cfg = int 1048576" by (simp add: devnet_cfg_def)
  have ok: "mem_ok (zeros 1048576)" by (simp add: mem_ok_def)
  show ?thesis
  proof (rule mstore.format_ok [OF ok refl _ devnet_normal devnet_valid \<open>driveLength _ = _\<close> devnet_storable, of sample_hash])
    fix s'
    assume "mem_ok s'" "drive_inv sample_hash s' (fresh_drive devnet_cfg)" "abs_drive (fresh_drive devnet_cfg) s' = empty_abs"
    then show ?thesis by (rule that) (simp add: fresh_drive_def)
  qed simp
qed

lemma devnet_limits [simp]:
  "\<not> compact (opened devnet_cfg)" "loadLimit (opened devnet_cfg) = 3584" "sparseLoadLimit (opened devnet_cfg) = 3584"
  "profile (opened devnet_cfg) = ProfileSparse" "registryOffset (opened devnet_cfg) = 256" "registryCapacity (opened devnet_cfg) = 8"
  "sparseSlotSize (opened devnet_cfg) = 64" "balance_bytes (opened devnet_cfg) = 32" "nonce_bytes (opened devnet_cfg) = 8"
  by (simp_all add: compact_def opened_def devnet_cfg_def profile_defs Let_def balance_bytes_def nonce_bytes_def)

section \<open>Accounts\<close>

text \<open>C13. Writing an account implements its specification on the map of accounts, on every branch: the zero address, a balance out of
  range and a full table are refused and change nothing; otherwise exactly this account changes, its nonce stored modulo the
  record's width. The probe and the displacement loops end.\<close>

theorem setAccount_implements_map_update:
  assumes "keccak_digest H" and "length addr = 20" and "mem_ok s" and "drive_inv H s d"
  shows "\<exists>r s' d'. setAccount H MemStore (ABytes addr) nonce balance (s, d) = (r, (s', d')) \<and> mem_ok s' \<and> drive_inv H s' d' \<and>
     d_cfg d' = d_cfg d \<and> spec_setAccount (d_cfg d) addr nonce balance (abs_drive d s) = (r, abs_drive d' s')"
  using mstore.setAccount_refines [OF assms(1,2)] assms(3,4) by (simp add: drive_refines_def)

theorem setAccount_implements_map_update_witness:
  "\<exists>s d s' d'. setAccount sample_hash MemStore (ABytes (sample_address 7)) 1 5 (s, d) = (Ok (), (s', d')) \<and>
     a_acct (abs_drive d' s') (sample_address 7) = Some (1, 5)"
proof (rule sample_drive)
  fix s d
  assume d: "mem_ok s" "drive_inv sample_hash s d" "abs_drive d s = empty_abs" "d_cfg d = opened devnet_cfg"
  from setAccount_implements_map_update [OF sample_digest _ d(1,2), of "sample_address 7" 1 5] d(3,4)
  obtain r s' d' where r: "setAccount sample_hash MemStore (ABytes (sample_address 7)) 1 5 (s, d) = (r, (s', d'))"
      "spec_setAccount (opened devnet_cfg) (sample_address 7) 1 5 empty_abs = (r, abs_drive d' s')" by auto
  have "r = fst (spec_setAccount (opened devnet_cfg) (sample_address 7) 1 5 empty_abs)"
    and "abs_drive d' s' = snd (spec_setAccount (opened devnet_cfg) (sample_address 7) 1 5 empty_abs)" using r(2) by simp_all
  then have "r = Ok ()" "a_acct (abs_drive d' s') (sample_address 7) = Some (1, 5)"
    by (simp_all add: spec_setAccount_def empty_abs_def)
  with r show ?thesis by blast
qed

text \<open>C14. Deleting an account implements removal from the map: an absent account is a no-op, a record with a nonce is protected
  unless forced, and otherwise the backward shift leaves every other account readable.\<close>

theorem deleteAccount_implements_map_removal:
  assumes "keccak_digest H" and "length addr = 20" and "mem_ok s" and "drive_inv H s d"
  shows "\<exists>r s' d'. deleteAccount H MemStore (ABytes addr) force (s, d) = (r, (s', d')) \<and> mem_ok s' \<and> drive_inv H s' d' \<and>
     d_cfg d' = d_cfg d \<and> spec_deleteAccount (d_cfg d) addr force (abs_drive d s) = (r, abs_drive d' s')"
  using mstore.deleteAccount_refines [OF assms(1,2)] assms(3,4) by (simp add: drive_refines_def)

theorem deleteAccount_implements_map_removal_witness:
  "\<exists>s d s' d'. deleteAccount sample_hash MemStore (ABytes (sample_address 7)) False (s, d) = (Ok False, (s', d')) \<and>
     abs_drive d' s' = empty_abs"
proof (rule sample_drive)
  fix s d
  assume d: "mem_ok s" "drive_inv sample_hash s d" "abs_drive d s = empty_abs" "d_cfg d = opened devnet_cfg"
  from deleteAccount_implements_map_removal [OF sample_digest _ d(1,2), of "sample_address 7" False] d(3,4)
  obtain r s' d' where r: "deleteAccount sample_hash MemStore (ABytes (sample_address 7)) False (s, d) = (r, (s', d'))"
      "spec_deleteAccount (opened devnet_cfg) (sample_address 7) False empty_abs = (r, abs_drive d' s')" by auto
  then have "r = Ok False" "abs_drive d' s' = empty_abs"
    by (auto simp: spec_deleteAccount_def empty_abs_def)
  with r show ?thesis by blast
qed

text \<open>An account read after it was written is what was written, whatever the table held: the nonce modulo the record's width
  and the balance; and every other account reads as before the write.\<close>

theorem account_written_is_read_back:
  assumes H: "keccak_digest H" and addr: "length addr = 20" "length x = 20" "\<not> isZero x" and s: "mem_ok s" "drive_inv H s d"
    and set: "setAccount H MemStore (ABytes addr) nonce balance (s, d) = (Ok (), sd)"
  shows "fst (getAccount H MemStore (ABytes x) sd) =
     (if x = addr then Ok (Some \<lparr>acc_address = addr, acc_nonce = nat (nonce mod 256 ^ nonce_bytes (d_cfg d)), acc_balance = nat balance\<rparr>)
      else fst (getAccount H MemStore (ABytes x) (s, d)))"
proof -
  obtain r s' d' where run: "setAccount H MemStore (ABytes addr) nonce balance (s, d) = (r, (s', d'))" and s': "mem_ok s'"
      "drive_inv H s' d'" "d_cfg d' = d_cfg d" "spec_setAccount (d_cfg d) addr nonce balance (abs_drive d s) = (r, abs_drive d' s')"
    using mstore.setAccount_refines [OF H addr(1), of nonce balance] s unfolding drive_refines_def by blast
  with set have sd: "sd = (s', d')" "r = Ok ()" by simp_all
  have "abs_drive d' s' = snd (spec_setAccount (d_cfg d) addr nonce balance (abs_drive d s))"
    and "fst (spec_setAccount (d_cfg d) addr nonce balance (abs_drive d s)) = Ok ()" using s'(4) sd by simp_all
  then have "a_acct (abs_drive d' s') = (a_acct (abs_drive d s))(addr \<mapsto> (nat (nonce mod 256 ^ nonce_bytes (d_cfg d)), nat balance))"
    by (auto simp: spec_setAccount_def split: if_splits)
  then show ?thesis
    using mstore.getAccount_runs [OF H addr(2) s'(1,2)] mstore.getAccount_runs [OF H addr(2) s] addr(3) sd(1) s'(3)
    by (simp add: spec_getAccount_def)
qed

theorem account_written_is_read_back_witness:
  "\<exists>s d sd. setAccount sample_hash MemStore (ABytes (sample_address 7)) 1 5 (s, d) = (Ok (), sd) \<and>
     fst (getAccount sample_hash MemStore (ABytes (sample_address 7)) sd) =
       Ok (Some \<lparr>acc_address = sample_address 7, acc_nonce = 1, acc_balance = 5\<rparr>)"
proof (rule sample_drive)
  fix s d
  assume d: "mem_ok s" "drive_inv sample_hash s d" "abs_drive d s = empty_abs" "d_cfg d = opened devnet_cfg"
  from mstore.setAccount_refines [OF sample_digest, of "sample_address 7" 1 5] d
  obtain sd where r: "setAccount sample_hash MemStore (ABytes (sample_address 7)) 1 5 (s, d) = (Ok (), sd)"
    by (fastforce simp: drive_refines_def spec_setAccount_def empty_abs_def)
  from account_written_is_read_back [OF sample_digest _ _ _ d(1,2) r, of "sample_address 7"] d(4)
  have "fst (getAccount sample_hash MemStore (ABytes (sample_address 7)) sd) =
      Ok (Some \<lparr>acc_address = sample_address 7, acc_nonce = 1, acc_balance = 5\<rparr>)" by simp
  with r show ?thesis by blast
qed

section \<open>Tokens and balances\<close>

text \<open>C16. Setting a token balance implements the update of the balance map in both profiles that have tokens: a zero balance takes no
  slot, an unknown token, a value wider than the token or a full table is refused with nothing changed.\<close>

theorem setTokenBalance_implements_balance_update:
  assumes "keccak_digest H" and "length addr = 20" and "mem_ok s" and "drive_inv H s d"
  shows "\<exists>r s' d'. setTokenBalance H MemStore (ABytes addr) tid v (s, d) = (r, (s', d')) \<and> mem_ok s' \<and> drive_inv H s' d' \<and>
     d_cfg d' = d_cfg d \<and> spec_setTokenBalance (d_cfg d) addr tid v (abs_drive d s) = (r, abs_drive d' s')"
  using mstore.setTokenBalance_refines [OF assms(1,2)] assms(3,4) by (simp add: drive_refines_def)

theorem setTokenBalance_implements_balance_update_witness:
  "\<exists>s d s' d'. setTokenBalance sample_hash MemStore (ABytes (sample_address 7)) 0 5 (s, d) = (Throw err_unknownToken, (s', d')) \<and>
     abs_drive d' s' = empty_abs"
proof (rule sample_drive)
  fix s d
  assume d: "mem_ok s" "drive_inv sample_hash s d" "abs_drive d s = empty_abs" "d_cfg d = opened devnet_cfg"
  from setTokenBalance_implements_balance_update [OF sample_digest _ d(1,2), of "sample_address 7" 0 5] d(3,4)
  obtain r s' d' where r: "setTokenBalance sample_hash MemStore (ABytes (sample_address 7)) 0 5 (s, d) = (r, (s', d'))"
      "spec_setTokenBalance (opened devnet_cfg) (sample_address 7) 0 5 empty_abs = (r, abs_drive d' s')" by auto
  then have "r = Throw err_unknownToken" "abs_drive d' s' = empty_abs"
    by (auto simp: spec_setTokenBalance_def empty_abs_def)
  with r show ?thesis by blast
qed

text \<open>C17. Registering a token appends it: its id is the number of tokens before it, no id, account or balance changes, and a
  duplicate, a full registry or a width the profile has no room for is refused with nothing changed.\<close>

theorem registerToken_implements_append:
  assumes "length addr = 20" and "mem_ok s" and "drive_inv H s d"
  shows "\<exists>r s' d'. registerToken MemStore (ABytes addr) width (s, d) = (r, (s', d')) \<and> mem_ok s' \<and> drive_inv H s' d' \<and>
     d_cfg d' = d_cfg d \<and> spec_registerToken (d_cfg d) addr width (abs_drive d s) = (r, abs_drive d' s')"
  using mstore.registerToken_refines [OF assms(1)] assms(2,3) by (simp add: drive_refines_def)

theorem registerToken_implements_append_witness:
  "\<exists>s d s' d'. registerToken MemStore (ABytes (sample_address 7)) 32 (s, d) = (Ok 0, (s', d')) \<and>
     a_toks (abs_drive d' s') = [\<lparr>tok_address = sample_address 7, tok_width = 32\<rparr>]"
proof (rule sample_drive)
  fix s d
  assume d: "mem_ok s" "drive_inv sample_hash s d" "abs_drive d s = empty_abs" "d_cfg d = opened devnet_cfg"
  from registerToken_implements_append [OF _ d(1,2), of "sample_address 7" 32] d(3,4)
  obtain r s' d' where r: "registerToken MemStore (ABytes (sample_address 7)) 32 (s, d) = (r, (s', d'))"
      "spec_registerToken (opened devnet_cfg) (sample_address 7) 32 empty_abs = (r, abs_drive d' s')" by auto
  have may: "register_check (opened devnet_cfg) [] (sample_address 7) 32 = Ok ()" by code_simp
  have "r = fst (spec_registerToken (opened devnet_cfg) (sample_address 7) 32 empty_abs)"
    "abs_drive d' s' = snd (spec_registerToken (opened devnet_cfg) (sample_address 7) 32 empty_abs)" using r(2) by simp_all
  then have "r = Ok 0" "a_toks (abs_drive d' s') = [\<lparr>tok_address = sample_address 7, tok_width = 32\<rparr>]"
    using may by (simp_all add: spec_registerToken_def empty_abs_def)
  with r show ?thesis by blast
qed

text \<open>C18. Queries are exact and change nothing: the answer read from the bytes is the one the maps give, errors included.\<close>

theorem queries_are_exact:
  assumes "keccak_digest H" and "length addr = 20" and "mem_ok s" and "drive_inv H s d"
  shows "getAccount H MemStore (ABytes addr) (s, d) = (fst (spec_getAccount (d_cfg d) addr (abs_drive d s)), (s, d)) \<and>
    getTokenBalance H MemStore (ABytes addr) tid (s, d) = (fst (spec_getTokenBalance (d_cfg d) addr tid (abs_drive d s)), (s, d))"
  using mstore.getAccount_runs [OF assms] mstore.getTokenBalance_runs [OF assms] by simp

theorem queries_are_exact_witness:
  "\<exists>s d. getAccount sample_hash MemStore (ABytes (sample_address 7)) (s, d) = (Ok None, (s, d)) \<and>
     getTokenBalance sample_hash MemStore (ABytes (sample_address 7)) 0 (s, d) = (Throw err_unknownToken, (s, d))"
proof (rule sample_drive)
  fix s d
  assume d: "mem_ok s" "drive_inv sample_hash s d" "abs_drive d s = empty_abs" "d_cfg d = opened devnet_cfg"
  from queries_are_exact [OF sample_digest _ d(1,2), of "sample_address 7" 0] d(3,4)
  show ?thesis by (auto simp: spec_getAccount_def spec_getTokenBalance_def empty_abs_def)
qed

section \<open>Persistence\<close>

text \<open>C19. Opening a drive recovers it from its bytes alone: the geometry from the header, the tokens and the column offsets from the
  registry, whatever operations ran since it was formatted.\<close>

theorem open_recovers_drive:
  assumes "mem_ok s" and "drive_inv H s d"
  shows "open_drive MemStore s = (Ok d, s)"
  by (rule mstore.open_recovers [OF assms])

theorem open_recovers_drive_witness:
  "\<exists>s d. setAccount sample_hash MemStore (ABytes (sample_address 7)) 1 5 (s, d) \<noteq> (Ok (), (s, d)) \<and> open_drive MemStore s = (Ok d, s)"
proof (rule sample_drive)
  fix s d
  assume d: "mem_ok s" "drive_inv sample_hash s d" "abs_drive d s = empty_abs" "d_cfg d = opened devnet_cfg"
  have "setAccount sample_hash MemStore (ABytes (sample_address 7)) 1 5 (s, d) \<noteq> (Ok (), (s, d))"
    using mstore.setAccount_refines [OF sample_digest, of "sample_address 7" 1 5] d
    by (fastforce simp: drive_refines_def spec_setAccount_def empty_abs_def dest: arg_cong [where f = a_live])
  with open_recovers_drive [OF d(1,2)] show ?thesis by blast
qed

text \<open>C20. A ledger survives a restart: created over the bytes another ledger left, it has the same accounts, balances, registry and
  facades, and satisfies the invariant. The RAM starts over, totals included.\<close>

theorem ledger_survives_restart:
  assumes "byte_store S contents ok" and "ledger_inv contents ok H l"
  shows "\<exists>l'. Ledger_create H S (fst (jst l)) = Ok l' \<and> ledger_inv contents ok H l' \<and> labs contents l' = labs contents l \<and>
     facades (l_ram l') = facades (l_ram l) \<and> totals (l_ram l') = Map.empty"
  using byte_store.create_reopens [OF assms] assms(2) by (simp add: ledger_inv_def labs_def new_ram_def)

theorem ledger_survives_restart_witness:
  "\<exists>l l'. at_genesis l \<and> Ledger_create sample_hash MemStore (fst (jst l)) = Ok l' \<and> labs (\<lambda>b. b) l' = empty_abs"
proof (rule genesis_ledger)
  fix l
  assume l: "at_genesis l" "ledger_inv (\<lambda>b. b) mem_ok sample_hash l" "labs (\<lambda>b. b) l = empty_abs"
  from ledger_survives_restart [OF mstore.byte_store_axioms l(2)] l(1,3) show ?thesis by auto
qed

section \<open>The journal\<close>

text \<open>What the router and the handlers do to a ledger between two marks: any operation of \<^verbatim>\<open>Ledger\<close>, in any order, whether it
  succeeds or throws.\<close>

inductive ledger_step :: "(bytes \<Rightarrow> bytes) \<Rightarrow> 's store \<Rightarrow> 's Ledger \<Rightarrow> 's Ledger \<Rightarrow> bool" for H S where
  credit: "length a = 20 \<Longrightarrow> ledger_step H S l (snd (creditEther H S a v l))"
| debit: "length a = 20 \<Longrightarrow> ledger_step H S l (snd (debitEther H S a v l))"
| charge: "length a = 20 \<Longrightarrow> ledger_step H S l (snd (bumpNonceAndCharge H S a v l))"
| register: "length a = 20 \<Longrightarrow> ledger_step H S l (snd (led_registerToken H S a w l))"
| creditT: "length a = 20 \<Longrightarrow> ledger_step H S l (snd (creditToken H S a t v l))"
| debitT: "length a = 20 \<Longrightarrow> ledger_step H S l (snd (debitToken H S a t v l))"
| metadata: "ledger_step H S l (snd (setMetadata t m l))"
| portal: "ledger_step H S l (snd (registerPortal p k l))"
| price: "ledger_step H S l (snd (setFee v l))"
| pair: "ledger_step H S l (snd (registerCrossDomain cd l))"
| nonce: "ledger_step H S l (snd (nextMessageNonce l))"
| message: "ledger_step H S l (snd (setMessageStatus h st l))"

lemma journaled_since: "journaled contents ok H m \<Longrightarrow> since contents ok H l0 l \<Longrightarrow> since contents ok H l0 (snd (m l))"
  by (simp add: journaled_def)

lemma ledger_step_since:
  assumes "byte_store S contents ok" and "keccak_digest H" and "ledger_step H S l l'" and "since contents ok H l0 l"
  shows "since contents ok H l0 l'"
  using assms(3,4)
  by cases (auto intro!: journaled_since byte_store.creditEther_journaled byte_store.debitEther_journaled
      byte_store.bumpNonceAndCharge_journaled byte_store.led_registerToken_journaled byte_store.creditToken_journaled
      byte_store.debitToken_journaled journaled_intros assms(1,2))

text \<open>C21. A rollback undoes any sequence of ledger operations: drive bytes, registry cache, facades and RAM are what they were at the
  mark, and the invariant holds again. A total that was absent reads as zero before and after, though the entry stays.\<close>

theorem rollback_undoes_every_run:
  assumes st: "byte_store S contents ok" and H: "keccak_digest H" and inv: "ledger_inv contents ok H l0"
    and run: "(ledger_step H S)\<^sup>*\<^sup>* l0 l"
  shows "\<exists>l'. bnd (rollbackTo S (mark l0)) (\<lambda>_. afterRollback H S) l = (Ok (), l') \<and> led_eq contents l0 l' \<and> ledger_inv contents ok H l'"
proof -
  from run have "since contents ok H l0 l"
    by (induction rule: rtranclp_induct) (auto intro: since_refl [OF inv] ledger_step_since [OF st H])
  from byte_store.rollback_restores [OF st this] show ?thesis by blast
qed

theorem rollback_undoes_every_run_witness:
  "\<exists>l0 l l'. at_genesis l0 \<and> l = snd (setFee 7 (snd (creditEther sample_hash MemStore (sample_address 7) 5 l0))) \<and> fee (l_ram l) = 7 \<and>
     bnd (rollbackTo MemStore (mark l0)) (\<lambda>_. afterRollback sample_hash MemStore) l = (Ok (), l') \<and> led_eq (\<lambda>b. b) l0 l'"
proof (rule genesis_ledger)
  fix l
  assume l: "at_genesis l" "ledger_inv (\<lambda>b. b) mem_ok sample_hash l"
  let ?l1 = "snd (creditEther sample_hash MemStore (sample_address 7) 5 l)"
  have "ledger_step sample_hash MemStore l ?l1" "ledger_step sample_hash MemStore ?l1 (snd (setFee 7 ?l1))"
    by (auto intro: ledger_step.intros)
  then have "(ledger_step sample_hash MemStore)\<^sup>*\<^sup>* l (snd (setFee 7 ?l1))" by (meson converse_rtranclp_into_rtranclp rtranclp.rtrancl_refl)
  moreover have "fee (l_ram (snd (setFee 7 ?l1))) = 7" by (simp add: setFee_def map_ram_def journal_note_def)
  ultimately show ?thesis
    using rollback_undoes_every_run [OF mstore.byte_store_axioms sample_digest l(2)] l(1) by blast
qed

section \<open>Files\<close>

text \<open>C22. A file store is exact over a device that transfers less than it is asked for: a read inside the image returns all the bytes
  asked for, a write puts all of them there, and both loops end.\<close>

theorem file_store_completes_short_transfers:
  assumes "handle_ok h img" and "off + length bs \<le> length (img f)"
  shows "\<exists>f'. FileStore_writeAt h (int off) bs f = (Ok (), f') \<and> img f' = splice (img f) off bs \<and>
     (\<forall>p n. p + n \<le> length (img f') \<longrightarrow> FileStore_readAt h (int p) (int n) f' = (Ok (slice (img f') p n), f'))"
  using fstore.write_runs [OF assms(1), of off bs f] fstore.write_contents [OF assms(1), of off bs f] fstore.read [OF assms(1)] assms(2)
  by (simp add: FileStore_def)

definition bytewise :: "bytes handle" where
  "bytewise = \<lparr>h_read = (\<lambda>n pos f. (Ok (slice f pos (min n 1)), f)), h_write = (\<lambda>bs pos f. (Ok (min 1 (length bs)), splice f pos (take 1 bs))),
     h_datasync = ret (), h_close = ret ()\<rparr>"

theorem file_store_completes_short_transfers_witness:
  "\<exists>f'. FileStore_writeAt bytewise 1 [7, 8, 9] (zeros 6) = (Ok (), f') \<and> f' = [0, 7, 8, 9, 0, 0] \<and>
     FileStore_readAt bytewise 2 3 f' = (Ok [8, 9, 0], f')"
proof -
  have "handle_ok bytewise (\<lambda>f. f)"
    unfolding handle_ok_def bytewise_def by (auto intro: exI [of _ 1] simp: Suc_le_eq min_def)
  from file_store_completes_short_transfers [OF this, of 1 "[7, 8, 9]" "zeros 6"] obtain f' where
    f': "FileStore_writeAt bytewise 1 [7, 8, 9] (zeros 6) = (Ok (), f')" "f' = splice (zeros 6) 1 [7, 8, 9]"
      "\<And>p n. p + n \<le> length f' \<Longrightarrow> FileStore_readAt bytewise (int p) (int n) f' = (Ok (slice f' p n), f')" by auto
  have z: "splice (zeros 6) 1 [7, 8, 9] = [0, 7, 8, 9, 0, 0]" by code_simp
  then have "slice f' 2 3 = [8, 9, 0]" "length f' = 6" using f'(2) by (simp_all add: slice_def)
  with f'(3) [of 2 3] f'(1,2) z show ?thesis by simp
qed

end
