(* ===== verification/Wire_Properties.thy ===== *)
theory Wire_Properties
  imports Samples
begin

text \<open>
  The encodings two sides of the bridge must agree on: hexadecimal text and big-endian integers, aliased addresses, versioned
  nonces, withdrawals, relayed messages and inspect envelopes read back as written, no two withdrawals share a nonce, and the gas
  limit of a message covers what its relay costs.
\<close>

section \<open>Numbers and text\<close>

text \<open>Big-endian fields are exact: a value is written if and only if it is not negative and fits the field, what is written
  reads back as the value, and everything else is refused as an overflow.\<close>

theorem putBE_exact:
  "(putBE n v = Ok bs \<longleftrightarrow> length bs = n \<and> v = int (readBE bs)) \<and> (0 \<le> v \<and> v < 256 ^ n \<or> putBE n v = Throw err_overflow)"
  using putBE_eq_Ok [of n v bs] putBE_Throw [of v n] by blast

lemma digit_lower: "hex_val c = Some d \<Longrightarrow> digit d = lower c"
proof -
  assume h: "hex_val c = Some d"
  define n where "n = (of_char c :: nat)"
  have c: "c = char_of n" "of_char c = n" by (simp_all add: n_def)
  show ?thesis
    using h unfolding hex_val_def lower_def digit_def Let_def c(2) by (auto simp: c(1) split: if_splits)
qed

lemma bytesToHex_hex_pairs:
  "list_all (\<lambda>c. hex_val c \<noteq> None) s \<Longrightarrow> even (length s) \<Longrightarrow> bytesToHex (hex_pairs s) = toLowerCase s"
proof (induction s rule: hex_pairs.induct)
  case (1 a b cs)
  then obtain x y where xy: "hex_val a = Some x" "hex_val b = Some y" by auto
  note lt = hex_val_less [OF xy(1)] hex_val_less [OF xy(2)]
  then have "(16 * x + y) mod 256 = 16 * x + y" by simp
  then have "unat (of_nat (16 * x + y) :: byte) = 16 * x + y" using unat_of_nat_byte [of "16 * x + y"] by metis
  with lt have "hex_byte (of_nat (16 * x + y)) = [lower a, lower b]"
    unfolding hex_byte_def by (simp add: digit_lower [OF xy(1)] digit_lower [OF xy(2)])
  with 1 xy show ?case by (simp add: bytesToHex_Cons toLowerCase_def del: of_nat_add of_nat_mult)
qed (simp_all add: toLowerCase_def)

text \<open>Hexadecimal text and bytes are two forms of the same data: printing then parsing gives the bytes back, with or without
  the prefix; a text that parses is, up to case and prefix, the printed form of the result.\<close>

theorem hex_round_trip:
  "hexToBytes (bytesToHex bs) = Ok bs \<and> hexToBytes (''0x'' @ bytesToHex bs) = Ok bs \<and>
   (hexToBytes s = Ok bs' \<longrightarrow> bytesToHex bs' = toLowerCase (strip0x s))"
proof (intro conjI impI)
  show "hexToBytes (bytesToHex bs) = Ok bs" "hexToBytes (''0x'' @ bytesToHex bs) = Ok bs" by (simp_all add: hexToBytes_hex)
  assume "hexToBytes s = Ok bs'"
  then show "bytesToHex bs' = toLowerCase (strip0x s)"
    by (auto simp: hexToBytes_def Let_def list_ex_iff list_all_iff even_iff_mod_2_eq_zero split: if_splits intro!: bytesToHex_hex_pairs)
qed

theorem hex_round_trip_witness:
  "hexToBytes ''0xC751'' = Ok [0xc7, 0x51] \<and> bytesToHex [0xc7, 0x51] = ''c751''"
proof -
  have "hexToBytes ''0xC751'' = Ok [0xc7, 0x51]" by code_simp
  moreover have "toLowerCase (strip0x ''0xC751'') = ''c751''" by code_simp
  ultimately show ?thesis using hex_round_trip [of "[]" "''0xC751''" "[0xc7, 0x51]"] by simp
qed

section \<open>Addresses\<close>

lemma padStart_digit:
  assumes "0 < m"
  shows "padStart (Suc m) (CHR ''0'') (to_base 16 n) = padStart m (CHR ''0'') (to_base 16 (n div 16)) @ [digit (n mod 16)]"
proof (cases "n < 16")
  case True
  have "CHR ''0'' = digit 0" by code_simp
  moreover have "replicate m x = replicate (m - 1) x @ [x]" for x :: char
    using assms by (cases m) (simp_all add: replicate_append_same)
  ultimately show ?thesis using True by (simp add: padStart_def to_base.simps [of 16 n] to_base.simps [of 16 0])
next
  case False
  then show ?thesis by (simp add: padStart_def to_base.simps [of 16 n])
qed

lemma padStart_bytes:
  "n < 256 ^ Suc k \<Longrightarrow> padStart (2 * Suc k) (CHR ''0'') (to_base 16 n) = bytesToHex (putBE_loop (Suc k) (int n) [])"
proof (induction k arbitrary: n)
  case 0
  then have "unat (of_nat n :: byte) = n" by (simp add: unat_of_nat_byte)
  with padStart_to_base_16 [of "of_nat n"] 0 show ?case
    by (simp add: putBE_loop_Suc bytesToHex_Cons del: putBE_loop.simps(2))
next
  case (Suc k)
  have q: "n div 256 < 256 ^ Suc k" using Suc.prems by (simp add: div_less_iff_less_mult mult.commute)
  have b: "unat (of_int (int n mod 256) :: byte) = n mod 256"
  proof -
    have "int n mod 256 = int (n mod 256)" by (simp add: zmod_int)
    then show ?thesis using unat_of_nat_byte [of "n mod 256"] by (simp only: of_int_of_nat_eq mod_mod_trivial)
  qed
  have "padStart (2 * Suc (Suc k)) (CHR ''0'') (to_base 16 n) =
      padStart (2 * Suc k) (CHR ''0'') (to_base 16 (n div 16 div 16)) @ [digit (n div 16 mod 16), digit (n mod 16)]"
    using padStart_digit [of "2 * Suc k + 1" n] padStart_digit [of "2 * Suc k" "n div 16"] by simp
  moreover have "hex_byte (of_int (int n mod 256)) = [digit (n div 16 mod 16), digit (n mod 16)]"
    unfolding hex_byte_def b using mod_mult2_eq [of n 16 16] by simp
  moreover have "int n div 256 = int (n div 16 div 16)" by (simp add: zdiv_int div_mult2_eq [symmetric])
  ultimately show ?case
    using Suc.IH [OF q] unfolding putBE_loop_Suc [of "Suc k" "int n"]
    by (simp add: bytesToHex_def hex_byte_def padStart_to_base_16 div_mult2_eq [symmetric])
qed

lemma alias_bytes: "applyL1ToL2Alias l1 = putBE_loop 20 (int ((readBE l1 + ALIAS_OFFSET) mod 2 ^ 160)) []"
proof -
  have "2 * Suc 19 = (40 :: nat)" "Suc 19 = (20 :: nat)" "push_bit 160 1 = (2 ^ 160 :: nat)" "256 ^ 20 = (2 ^ 160 :: nat)"
    by (simp_all add: push_bit_eq_mult)
  moreover have "(readBE l1 + ALIAS_OFFSET) mod 2 ^ 160 < 2 ^ 160" by (rule mod_less_divisor) simp
  ultimately show ?thesis
    using padStart_bytes [of "(readBE l1 + ALIAS_OFFSET) mod 2 ^ 160" 19] hex_pairs_bytesToHex
    unfolding applyL1ToL2Alias_def Let_def by metis
qed

lemma readBE_inj: "length a = length b \<Longrightarrow> readBE a = readBE b \<Longrightarrow> a = b"
  by (metis putBE_loop_readBE)

lemma mod_add_cancel: "(a + k) mod m = (b + k) mod m \<Longrightarrow> a < m \<Longrightarrow> b < m \<Longrightarrow> a = b" for a b k m :: nat
proof -
  assume eq: "(a + k) mod m = (b + k) mod m" and lt: "a < m" "b < m"
  from eq obtain p q where "a + k + m * p = b + k + m * q" unfolding nat_mod_eq_iff by blast
  then have "a mod m = b mod m" unfolding nat_mod_eq_iff by (intro exI [of _ p] exI [of _ q]) simp
  with lt show "a = b" by simp
qed

text \<open>The alias of an L1 sender is its address plus the offset modulo \<open>2\<^sup>1\<^sup>6\<^sup>0\<close>, always twenty bytes, and no two senders share one:
  a registered portal or messenger cannot be impersonated by another L1 contract.\<close>

theorem alias_is_injective:
  assumes "length l1 = 20" and "length l1' = 20"
  shows "length (applyL1ToL2Alias l1) = 20 \<and> readBE (applyL1ToL2Alias l1) = (readBE l1 + ALIAS_OFFSET) mod 2 ^ 160 \<and>
    (applyL1ToL2Alias l1 = applyL1ToL2Alias l1' \<longleftrightarrow> l1 = l1')"
proof -
  have read: "readBE (applyL1ToL2Alias x) = (readBE x + ALIAS_OFFSET) mod 2 ^ 160" if "length x = 20" for x
  proof -
    have "int (readBE (applyL1ToL2Alias x)) = int ((readBE x + ALIAS_OFFSET) mod 2 ^ 160)"
      unfolding alias_bytes by (rule readBE_putBE_loop) simp_all
    then show ?thesis by (simp only: of_nat_eq_iff)
  qed
  have bound: "readBE x < 2 ^ 160" if "length x = 20" for x using readBE_bound [of x] that by simp
  have "l1 = l1'" if "applyL1ToL2Alias l1 = applyL1ToL2Alias l1'"
  proof (rule readBE_inj)
    have "(readBE l1 + ALIAS_OFFSET) mod 2 ^ 160 = (readBE l1' + ALIAS_OFFSET) mod 2 ^ 160"
      using read [OF assms(1)] read [OF assms(2)] that by simp
    then show "readBE l1 = readBE l1'" by (rule mod_add_cancel) (use bound assms in simp_all)
  qed (use assms in simp)
  with read [OF assms(1)] show ?thesis by (auto simp: alias_bytes length_putBE_loop simp del: putBE_loop.simps)
qed

theorem alias_is_injective_witness:
  "length (applyL1ToL2Alias (sample_address 7)) = 20 \<and> applyL1ToL2Alias (sample_address 7) \<noteq> applyL1ToL2Alias (sample_address 9)"
  using alias_is_injective [of "sample_address 7" "sample_address 9"] by (simp add: sample_address_def)

section \<open>Nonces and gas\<close>

lemma push_bit_or: "n < 2 ^ k \<Longrightarrow> push_bit k v OR n = v * 2 ^ k + n" for n v :: nat
proof -
  assume "n < 2 ^ k"
  then have "take_bit k n = n" by (simp add: take_bit_nat_eq_self)
  then have lt: "bit n i \<Longrightarrow> i < k" for i by (metis bit_take_bit_iff)
  have "push_bit k v AND n = 0" by (intro bit_eqI) (auto simp: bit_simps dest!: lt)
  then show ?thesis by (simp add: disjunctive_add_eq_or [symmetric] push_bit_eq_mult)
qed

lemma decode_versioned: "decodeVersionedNonce n = (n mod 2 ^ 240, n div 2 ^ 240)"
  using take_bit_eq_mask [of 240 n]
  by (simp add: decodeVersionedNonce_def push_bit_eq_mult drop_bit_eq_div take_bit_eq_mod mask_eq_exp_minus_1)

text \<open>A versioned nonce holds its two parts apart: version and counter come back from it, and every number is the versioned
  nonce of its parts.\<close>

theorem versioned_nonce_round_trip:
  assumes "nonce < 2 ^ 240"
  shows "decodeVersionedNonce (encodeVersionedNonce nonce version) = (nonce, version) \<and>
    encodeVersionedNonce (fst (decodeVersionedNonce n)) (snd (decodeVersionedNonce n)) = n"
proof
  show "decodeVersionedNonce (encodeVersionedNonce nonce version) = (nonce, version)"
    using assms by (simp add: decode_versioned encodeVersionedNonce_def push_bit_or)
  have "encodeVersionedNonce (n mod 2 ^ 240) (n div 2 ^ 240) = n div 2 ^ 240 * 2 ^ 240 + n mod 2 ^ 240"
    unfolding encodeVersionedNonce_def by (rule push_bit_or) simp
  then show "encodeVersionedNonce (fst (decodeVersionedNonce n)) (snd (decodeVersionedNonce n)) = n"
    by (simp add: decode_versioned div_mult_mod_eq)
qed

theorem versioned_nonce_round_trip_witness:
  "decodeVersionedNonce (encodeVersionedNonce 5 1) = (5, 1)"
  using versioned_nonce_round_trip [of 5 1 0] by simp

lemma withdrawal_nonce_value:
  assumes n: "versionedWithdrawalNonce i k = Ok n" and i: "i < 2 ^ 208"
  shows "k < 2 ^ 32" and "n = 2 ^ 240 + i * 2 ^ 32 + k"
proof -
  show k: "k < 2 ^ 32" using n by (auto simp: versionedWithdrawalNonce_def push_bit_eq_mult split: if_splits)
  have "push_bit 32 i < 2 ^ 240" using i by (simp add: push_bit_eq_mult)
  from push_bit_or [OF this, of 1] have "push_bit 240 1 OR push_bit 32 i = push_bit 32 (2 ^ 208 + i)"
    by (simp add: push_bit_eq_mult distrib_right)
  then have "n = push_bit 32 (2 ^ 208 + i) OR k"
    using n by (simp add: versionedWithdrawalNonce_def push_bit_eq_mult split: if_splits)
  then show "n = 2 ^ 240 + i * 2 ^ 32 + k" unfolding push_bit_or [OF k] by (simp add: distrib_right)
qed

text \<open>C27. No two withdrawals of a chain share a nonce: it determines the input and the ordinal within the input, and carries message
  version 1.\<close>

theorem withdrawal_nonces_are_unique:
  assumes "versionedWithdrawalNonce i k = Ok n" and "versionedWithdrawalNonce i' k' = Ok n'" and "i < 2 ^ 208" and "i' < 2 ^ 208"
  shows "(n = n' \<longleftrightarrow> i = i' \<and> k = k') \<and> snd (decodeVersionedNonce n) = 1"
proof -
  note a = withdrawal_nonce_value [OF assms(1,3)] and b = withdrawal_nonce_value [OF assms(2,4)]
  have "i * 2 ^ 32 + k < 2 ^ 240" using a(1) assms(3) by simp
  then have "n div 2 ^ 240 = 1" unfolding a(2) by simp
  moreover have "i = i' \<and> k = k'" if "n = n'"
  proof -
    have "i * 2 ^ 32 + k = i' * 2 ^ 32 + k'" using that a(2) b(2) by simp
    moreover have "(i * 2 ^ 32 + k) div 2 ^ 32 = i" "(i' * 2 ^ 32 + k') div 2 ^ 32 = i'" using a(1) b(1) by simp_all
    ultimately show ?thesis by auto
  qed
  moreover have "n = n'" if "i = i'" "k = k'" unfolding a(2) b(2) that by (rule refl)
  ultimately show ?thesis unfolding decode_versioned snd_conv by blast
qed

theorem withdrawal_nonces_are_unique_witness:
  "\<exists>n n'. versionedWithdrawalNonce 3 0 = Ok n \<and> versionedWithdrawalNonce 3 1 = Ok n' \<and> n \<noteq> n'"
proof -
  have "\<exists>n. versionedWithdrawalNonce 3 k = Ok n" if "k < 2" for k
    using that by (simp add: versionedWithdrawalNonce_def push_bit_eq_mult)
  then obtain n n' where "versionedWithdrawalNonce 3 0 = Ok n" "versionedWithdrawalNonce 3 1 = Ok n'" by fastforce
  with withdrawal_nonces_are_unique [OF this] show ?thesis by auto
qed

lemma sixty_fourth: "g * 64 div 63 - g * 64 div 63 div 64 = (g :: nat)"
proof -
  define q r where "q = g div 63" and "r = g mod 63"
  have g: "g = 63 * q + r" and r: "r < 63" unfolding q_def r_def by (rule mult_div_mod_eq [symmetric]) simp
  have "g * 64 = r + 63 * (64 * q + r)" unfolding g by simp
  then have dyn: "g * 64 div 63 = 64 * q + r" using r by (simp only: div_mult_self1 div_less) simp
  have "(64 * q + r) div 64 = q" using r by (intro div_nat_eqI) simp_all
  then show ?thesis unfolding dyn by (simp add: g)
qed

text \<open>The gas limit of a message covers its relay: the calldata floor; the fixed overheads, the calldata and a part for the
  call of which all but one 64th is exactly the minimum gas the sender asked for; and it grows with the message and with that
  minimum.\<close>

theorem base_gas_covers_relay:
  "TX_BASE_GAS + FLOOR_CALLDATA_OVERHEAD * (len + ENCODING_OVERHEAD) \<le> baseGas len g \<and>
   (\<exists>call. call - call div 64 = g \<and>
      TX_BASE_GAS + (RELAY_CONSTANT_OVERHEAD + RELAY_CALL_OVERHEAD + RELAY_RESERVED_GAS + RELAY_GAS_CHECK_BUFFER) + call
        + MIN_GAS_CALLDATA_OVERHEAD * (len + ENCODING_OVERHEAD) \<le> baseGas len g) \<and>
   baseGas len g \<le> baseGas (len + a) (g + b)"
proof (intro conjI exI [of _ "g * 64 div 63"])
  show "g * 64 div 63 - g * 64 div 63 div 64 = g" by (rule sixty_fourth)
  have "g * 64 div 63 \<le> (g + b) * 64 div 63" by (intro div_le_mono) simp
  then show "baseGas len g \<le> baseGas (len + a) (g + b)" by (simp add: baseGas_def gas_defs Let_def)
qed (simp_all add: baseGas_def gas_defs Let_def)

section \<open>Messages\<close>

text \<open>What viem documents of its ABI codec: parameters decode to the values that were encoded for the same types, a function
  selector has four bytes, and the two inspect envelopes have different ones.\<close>

definition viem_decodes :: "Viem \<Rightarrow> bool" where
  "viem_decodes V \<longleftrightarrow> (\<forall>ts args bs. encodeAbiParameters V ts args = Ok bs \<longrightarrow> decodeAbiParameters V ts bs = Ok args)"

definition selectors_ok :: "Viem \<Rightarrow> bool" where
  "selectors_ok V \<longleftrightarrow> (\<forall>sig. length (toFunctionSelector V sig) = 4) \<and> EVM_CALL_SELECTOR V \<noteq> EVM_SIMULATE_SELECTOR V"

lemma viem_decodesD: "viem_decodes V \<Longrightarrow> encodeAbiParameters V ts args = Ok bs \<Longrightarrow> decodeAbiParameters V ts bs = Ok args"
  by (simp add: viem_decodes_def)

definition sample_codec :: "abi list \<Rightarrow> Viem" where
  "sample_codec args = sample_viem
     \<lparr>toFunctionSelector := (\<lambda>sig. take 4 (map (\<lambda>c. of_nat (of_char c)) sig @ zeros 4)),
      encodeAbiParameters := (\<lambda>_ a. case a of [VBytes b] \<Rightarrow> Ok (1 # b) | _ \<Rightarrow> if a = args then Ok [9] else Throw (Error [])),
      decodeAbiParameters := (\<lambda>_ b. if b = [9] then Ok args else Ok [VBytes (tl b)])\<rparr>"

lemma sample_codec_ok: "viem_decodes (sample_codec args)" "selectors_ok (sample_codec args)"
proof -
  show "viem_decodes (sample_codec args)"
    by (auto simp: viem_decodes_def sample_codec_def split: list.splits abi.splits if_splits)
  have "EVM_CALL_SELECTOR (sample_codec args) \<noteq> EVM_SIMULATE_SELECTOR (sample_codec args)"
    by (simp add: EVM_CALL_SELECTOR_def EVM_SIMULATE_SELECTOR_def sample_codec_def)
  moreover have "length (toFunctionSelector (sample_codec args) sig) = 4" for sig
    by (simp add: sample_codec_def del: take_append)
  ultimately show "selectors_ok (sample_codec args)" by (simp add: selectors_ok_def)
qed

lemma starts_with_append [simp]: "starts_with p (p @ bs)"
  by (simp add: starts_with_def)

text \<open>A withdrawal is read back from the notice that carries it, field by field: what the host proves on L1 is what the guest
  withdrew.\<close>

theorem withdrawal_round_trip:
  assumes "viem_decodes V" and "encodeWithdrawal V w = Ok payload" and "encodeAbiParameters V ''bytes'' [VBytes payload] = Ok body"
  shows "decodeWithdrawal V payload = Some w \<and> decodeWithdrawalOutput V (NOTICE_SELECTOR V @ body) = Some w"
proof -
  from assms(2) obtain enc where "encodeAbiParameters V WITHDRAWAL_PARAMS (withdrawal_args w) = Ok enc"
    and p: "payload = WITHDRAWAL_SELECTOR V @ enc" by (auto simp: encodeWithdrawal_def split: res.splits)
  from viem_decodesD [OF assms(1) this(1)] have "decodeWithdrawal V payload = Some w"
    by (simp add: p decodeWithdrawal_def withdrawal_args_def)
  with viem_decodesD [OF assms(1,3)] show ?thesis by (simp add: decodeWithdrawalOutput_def)
qed

theorem withdrawal_round_trip_witness:
  "\<exists>V w payload. encodeWithdrawal V w = Ok payload \<and> decodeWithdrawal V payload = Some w \<and> w_value w = 5"
proof -
  define w where "w = \<lparr>w_nonce = 3, w_sender = sample_address 7, w_target = sample_address 9, w_value = 5, w_gasLimit = 0, w_data = []\<rparr>"
  let ?V = "sample_codec (withdrawal_args w)"
  have e: "encodeWithdrawal ?V w = Ok (WITHDRAWAL_SELECTOR ?V @ [9])"
    by (simp add: encodeWithdrawal_def sample_codec_def withdrawal_args_def)
  have b: "encodeAbiParameters ?V ''bytes'' [VBytes (WITHDRAWAL_SELECTOR ?V @ [9])] = Ok (1 # WITHDRAWAL_SELECTOR ?V @ [9])"
    by (simp add: sample_codec_def)
  have "w_value w = 5" by (simp add: w_def)
  with withdrawal_round_trip [OF sample_codec_ok(1) e b] e show ?thesis by blast
qed

text \<open>A relayed message is read back from its encoding, so the encoding that both messengers hash determines it: two messages
  with the same encoding are the same message.\<close>

theorem relay_message_round_trip:
  assumes "viem_decodes V" and "encodeRelayMessage V m = Ok bs" and "encodeRelayMessage V m' = Ok bs'"
  shows "decodeRelayMessage V bs = Some m \<and> (bs = bs' \<longleftrightarrow> m = m')"
proof -
  have dec: "decodeRelayMessage V b = Some x" if x: "encodeRelayMessage V x = Ok b" for x b
  proof -
    from x obtain enc where "b = RELAY_MESSAGE_SELECTOR V @ enc" "encodeAbiParameters V RELAY_MESSAGE_PARAMS
        [VUint (m_nonce x), VAddr (m_sender x), VAddr (m_target x), VUint (m_value x), VUint (m_minGasLimit x), VBytes (m_message x)] = Ok enc"
      by (auto simp: encodeRelayMessage_def split: res.splits)
    with viem_decodesD [OF assms(1) this(2)] show ?thesis by (simp add: decodeRelayMessage_def)
  qed
  from dec [OF assms(2)] dec [OF assms(3)] assms(2,3) show ?thesis by auto
qed

theorem relay_message_round_trip_witness:
  "\<exists>V m bs. encodeRelayMessage V m = Ok bs \<and> decodeRelayMessage V bs = Some m \<and> m_value m = 5"
proof -
  define m where "m = \<lparr>m_nonce = 3, m_sender = sample_address 7, m_target = sample_address 9, m_value = 5, m_minGasLimit = 0, m_message = []\<rparr>"
  let ?V = "sample_codec [VUint 3, VAddr (sample_address 7), VAddr (sample_address 9), VUint 5, VUint 0, VBytes []]"
  have e: "encodeRelayMessage ?V m = Ok (RELAY_MESSAGE_SELECTOR ?V @ [9])"
    by (simp add: encodeRelayMessage_def sample_codec_def m_def)
  have "m_value m = 5" by (simp add: m_def)
  with relay_message_round_trip [OF sample_codec_ok(1) e e] e show ?thesis by blast
qed

text \<open>An inspect envelope is read back as it was built, and a call is never taken for a simulation or the other way round.\<close>

theorem evm_call_round_trip:
  assumes "viem_decodes V" and "selectors_ok V" and "encodeEvmCall V c = Ok payload"
  shows "decodeEvmCall V payload = Some c"
proof -
  let ?sel = "if dc_simulate c then EVM_SIMULATE_SELECTOR V else EVM_CALL_SELECTOR V"
  have len: "length ?sel = 4" using assms(2) by (simp add: selectors_ok_def EVM_CALL_SELECTOR_def EVM_SIMULATE_SELECTOR_def)
  from assms(3) obtain body where p: "payload = ?sel @ body" "encodeAbiParameters V CALL_PARAMS
      [VUint (dc_chainId c), VAddr (dc_from c), VAddr (dc_to c), VUint (dc_value c), VBytes (dc_data c)] = Ok body"
    by (auto simp: encodeEvmCall_def split: res.splits)
  have "slice payload 0 4 = ?sel" "drop 4 payload = body" "\<not> length payload < 4" using len p(1) by (simp_all add: slice_def)
  with viem_decodesD [OF assms(1) p(2)] assms(2) show ?thesis
    by (cases "dc_simulate c") (simp_all add: decodeEvmCall_def selectors_ok_def Let_def)
qed

theorem evm_call_round_trip_witness:
  "\<exists>V c payload. encodeEvmCall V c = Ok payload \<and> decodeEvmCall V payload = Some c \<and> dc_simulate c"
proof -
  define c where "c = \<lparr>dc_simulate = True, dc_chainId = 1, dc_from = sample_address 7, dc_to = sample_address 9, dc_value = 5, dc_data = []\<rparr>"
  let ?V = "sample_codec [VUint 1, VAddr (sample_address 7), VAddr (sample_address 9), VUint 5, VBytes []]"
  have e: "encodeEvmCall ?V c = Ok (EVM_SIMULATE_SELECTOR ?V @ [9])"
    by (simp add: encodeEvmCall_def sample_codec_def c_def)
  have "dc_simulate c" by (simp add: c_def)
  with evm_call_round_trip [OF sample_codec_ok e] e show ?thesis by blast
qed

section \<open>Admission\<close>

text \<open>C32. The sender of a transaction comes from its signature and from nothing else: a signed input is one of the three admitted
  types with both halves of a signature, its \<open>s\<close> is in the lower half, and the sender is the address recovered from the very bytes of the input.\<close>

theorem sender_is_the_signer:
  assumes "parseInput V raw = Signed tx" and "recoverSender V tx = Some sender"
  shows "recoverTransactionAddress V raw = Ok sender \<and> sg_s tx \<le> HALF_N \<and> sg_type tx \<in> {''legacy'', ''eip2930'', ''eip1559''} \<and>
    (\<exists>p. parseTransaction V raw = Ok p \<and> tx_r p \<noteq> None \<and> tx_s p = Some (sg_s tx) \<and> sg_nonce tx = or_zero (tx_nonce p))"
proof -
  from assms(1) obtain p where p: "parseTransaction V raw = Ok p" and ty: "tx_type p \<in> {Some ''legacy'', Some ''eip2930'', Some ''eip1559''}"
    and rs: "tx_r p \<noteq> None" "tx_s p \<noteq> None"
    and tx: "tx = \<lparr>sg_type = type_text (tx_type p), sg_chainId = tx_chainId p, sg_nonce = or_zero (tx_nonce p), sg_to = tx_to p,
      sg_value = or_zero (tx_value p), sg_data = dataBytes (tx_data p), sg_s = the (tx_s p), sg_raw = raw\<rparr>"
    unfolding parseInput_def by (auto split: res.splits if_splits option.splits)
  from assms(2) have "sg_s tx \<le> HALF_N" "recoverTransactionAddress V (sg_raw tx) = Ok sender"
    by (auto simp: recoverSender_def split: if_splits res.splits)
  with p ty rs tx show ?thesis by (auto simp: type_text_def)
qed

theorem sender_is_the_signer_witness:
  "\<exists>tx. parseInput sample_viem [2] = Signed tx \<and> recoverTransactionAddress sample_viem [2] = Ok (sample_address 7) \<and> sg_s tx \<le> HALF_N"
  using sender_is_the_signer [OF sample_inputs(3) sample_recovers] sample_inputs(3) by simp

end
