(* ===== verification/Abi_Spec.thy ===== *)
theory Abi_Spec
  imports Abi_Drive Drive_Spec
begin

text \<open>
  What the ABI drive promises: a list of entries, one per address, in the order of registration. \<open>abi_rep\<close> says how the bytes and
  the fields of the object represent such a list; registering implements \<open>spec_register\<close>, reading returns the list, and a drive
  reopened from its bytes has the same fields.
\<close>

section \<open>Representation\<close>

definition heap_used :: "AbiEntry list \<Rightarrow> nat" where
  "heap_used es = sum_list (map (length \<circ> ae_abi) es)"

definition abi_index :: "nat \<Rightarrow> nat" where
  "abi_index i = 64 + 32 * i"

text \<open>Index entry \<open>i\<close> stands for \<open>e\<close>: address, kind, and the place of the text in the used part \<open>[lo, hi)\<close> of the heap.\<close>

definition entry_at :: "bytes \<Rightarrow> nat \<Rightarrow> nat \<Rightarrow> nat \<Rightarrow> AbiEntry \<Rightarrow> bool" where
  "entry_at bs lo hi i e \<longleftrightarrow>
     slice bs (abi_index i) 20 = ae_address e \<and> unat (bs ! (abi_index i + 20)) = ae_kind e \<and> length (ae_address e) = 20 \<and>
     (let off = le_dec (slice bs (abi_index i + 22) 4) in
      le_dec (slice bs (abi_index i + 26) 4) = length (ae_abi e) \<and> lo \<le> off \<and> off + length (ae_abi e) \<le> hi \<and>
      slice bs off (length (ae_abi e)) = ae_abi e)"

definition abi_header_holds :: "bytes \<Rightarrow> AbiDrive \<Rightarrow> bool" where
  "abi_header_holds bs d \<longleftrightarrow>
     slice bs 0 8 = ABI_DRIVE_MAGIC \<and> le_dec (slice bs 8 2) = ABI_DRIVE_VERSION \<and>
     int (le_dec (slice bs 12 4)) = ad_capacity d \<and> int (le_dec (slice bs 16 4)) = ad_count d \<and>
     int (le_dec (slice bs 20 4)) = ad_indexOffset d \<and> int (le_dec (slice bs 24 4)) = ad_heapOffset d \<and>
     int (le_dec (slice bs 28 4)) = ad_heapLength d \<and> int (le_dec (slice bs 32 4)) = ad_heapUsed d"

definition abi_geometry :: "nat \<Rightarrow> AbiDrive \<Rightarrow> bool" where
  "abi_geometry n d \<longleftrightarrow> ad_indexOffset d = 64 \<and> 64 + 32 * ad_capacity d \<le> ad_heapOffset d \<and>
     ad_heapOffset d + ad_heapLength d \<le> int n \<and> n < 2 ^ 32"

definition abi_rep :: "bytes \<Rightarrow> AbiDrive \<Rightarrow> AbiEntry list \<Rightarrow> bool" where
  "abi_rep bs d es \<longleftrightarrow>
     abi_geometry (length bs) d \<and> abi_header_holds bs d \<and>
     ad_count d = int (length es) \<and> int (length es) \<le> ad_capacity d \<and>
     ad_heapUsed d = int (heap_used es) \<and> int (heap_used es) \<le> ad_heapLength d \<and>
     (\<forall>i < length es. entry_at bs (nat (ad_heapOffset d)) (nat (ad_heapOffset d) + heap_used es) i (es ! i)) \<and>
     distinct (map ae_address es)"

section \<open>Specification\<close>

definition spec_register ::
  "(bytes \<Rightarrow> string) \<Rightarrow> AbiDrive \<Rightarrow> bytes \<Rightarrow> nat \<Rightarrow> bytes \<Rightarrow> (AbiEntry list, unit) prog" where
  "spec_register shown d addr kind blob es =
     (case find (\<lambda>e. ae_address e = addr) es of
        Some e \<Rightarrow> (if ae_kind e = kind \<and> ae_abi e = blob then Ok () else Throw (newAbiDriveError duplicate (Some (shown addr))), es)
      | None \<Rightarrow>
          if int (length es) \<ge> ad_capacity d then (Throw (newAbiDriveError abiRegistryFull None), es)
          else if int (heap_used es + length blob) > ad_heapLength d then (Throw (newAbiDriveError heapFull None), es)
          else (Ok (), es @ [\<lparr>ae_address = addr, ae_kind = kind, ae_abi = blob\<rparr>]))"

section \<open>Reading\<close>

lemma abi_repD:
  assumes "abi_rep bs d es"
  shows "length es \<le> nat (ad_capacity d)" and "abi_index (nat (ad_capacity d)) \<le> nat (ad_heapOffset d)"
    and "nat (ad_heapOffset d) + nat (ad_heapLength d) \<le> length bs" and "length bs < 2 ^ 32"
    and "ad_heapOffset d = int (nat (ad_heapOffset d))" and "heap_used es \<le> nat (ad_heapLength d)"
    and "ad_indexOffset d + int i * int ENTRY_LENGTH = int (abi_index i)"
  using assms by (auto simp: abi_rep_def abi_geometry_def abi_index_def ENTRY_LENGTH_def)

context byte_store
begin

lemma entryAt_reads:
  assumes ok: "ok s" and rep: "abi_rep (contents s) d es" and i: "i < length es"
  shows "abi_entryAt S (int i) (s, d) = (Ok (es ! i), (s, d))"
proof -
  let ?raw = "slice (contents s) (abi_index i) 32" and ?e = "es ! i"
  let ?off = "le_dec (slice (contents s) (abi_index i + 22) 4)"
  note geo = abi_repD [OF rep]
  have fit: "abi_index i + 32 \<le> length (contents s)" using geo(1,2,3) i by (simp add: abi_index_def)
  have e: "entry_at (contents s) (nat (ad_heapOffset d)) (nat (ad_heapOffset d) + heap_used es) i ?e"
    using rep i by (simp add: abi_rep_def)
  then have "?off + length (ae_abi ?e) \<le> length (contents s)" using geo(3,6) by (simp add: entry_at_def Let_def)
  then have blob: "readAt S (int ?off) (int (length (ae_abi ?e))) s = (Ok (ae_abi ?e), s)"
    using read [OF ok] e by (simp add: entry_at_def Let_def)
  have raw: "readAt S (ad_indexOffset d + int i * int ENTRY_LENGTH) (int ENTRY_LENGTH) s = (Ok ?raw, s)"
    unfolding geo(7) using read [OF ok fit] by (simp add: ENTRY_LENGTH_def)
  have "u32 ?raw 22 = Ok ?off" "u32 ?raw 26 = Ok (length (ae_abi ?e))" "slice ?raw 0 20 = ae_address ?e" "unat (?raw ! 20) = ae_kind ?e"
    using e fit by (simp_all add: u32_def slice_slice nth_slice entry_at_def Let_def)
  with raw blob show ?thesis by (simp add: abi_entryAt_def on_store_run)
qed

lemma entryOf_loop_reads:
  assumes ok: "ok s" and rep: "abi_rep (contents s) d es"
  shows "n + i = length es \<Longrightarrow>
    abi_entryOf_loop S addr n i (s, d) = (Ok (find (\<lambda>e. ae_address e = addr) (drop i es)), (s, d))"
proof (induction n arbitrary: i)
  case (Suc n)
  then have "i < length es" by simp
  with Suc entryAt_reads [OF ok rep this] show ?case by (simp add: Cons_nth_drop_Suc [symmetric])
qed simp

lemma entryOf_reads:
  assumes "ok s" and rep: "abi_rep (contents s) d es"
  shows "abi_entryOf S addr (s, d) = (Ok (find (\<lambda>e. ae_address e = addr) es), (s, d))"
  using entryOf_loop_reads [OF assms, of "length es" 0] rep by (simp add: abi_entryOf_def abi_rep_def)

lemma entries_loop_reads:
  assumes ok: "ok s" and rep: "abi_rep (contents s) d es"
  shows "n + i = length es \<Longrightarrow> abi_entries_loop S n i (take i es) (s, d) = (Ok es, (s, d))"
proof (induction n arbitrary: i)
  case (Suc n)
  then have "i < length es" by simp
  with Suc entryAt_reads [OF ok rep this] show ?case by (simp add: take_Suc_conv_app_nth [symmetric])
qed simp

lemma entries_reads:
  assumes "ok s" and rep: "abi_rep (contents s) d es"
  shows "abi_entries S (s, d) = (Ok es, (s, d))"
  using entries_loop_reads [OF assms, of "length es" 0] rep by (simp add: abi_entries_def abi_rep_def)

lemma abi_open_reads:
  assumes ok: "ok s" and rep: "abi_rep (contents s) d es"
  shows "abi_open S s = (Ok d, s)"
proof -
  let ?h = "slice (contents s) 0 64"
  note geo = abi_repD [OF rep]
  have n: "64 \<le> length (contents s)" using geo(2,3) by (simp add: abi_index_def)
  have rd: "readAt S 0 (int HEADER_LENGTH) s = (Ok ?h, s)" using read [OF ok, of 0 64] n by (simp add: HEADER_LENGTH_def)
  have f: "slice ?h p k = slice (contents s) p k" if "p + k \<le> 64" for p k using that by (simp add: slice_slice)
  have g: "u32 ?h p = Ok (le_dec (slice (contents s) p 4))" if "p \<le> 60" for p using n that by (simp add: u32_def f)
  have v: "u16 ?h 8 = Ok (le_dec (slice (contents s) 8 2))" using n by (simp add: u16_def f)
  have "abi_header_holds (contents s) d" using rep by (simp add: abi_rep_def)
  with rd show ?thesis by (simp add: abi_open_def f g v abi_header_holds_def)
qed

end

section \<open>Registering\<close>

definition abi_entry :: "bytes \<Rightarrow> nat \<Rightarrow> nat \<Rightarrow> nat \<Rightarrow> bytes" where
  "abi_entry addr kind off n = setLE 4 (setLE 4 ((splice (zeros 32) 0 addr)[20 := of_nat kind]) 22 (int off)) 26 (int n)"

lemma entry_bytes: "length addr = 20 \<Longrightarrow> abi_entry_bytes addr kind (int off) n = Ok (abi_entry addr kind off n)"
  by (simp add: abi_entry_bytes_def abi_entry_def arr_set_def putU32_def ENTRY_LENGTH_def)

lemma slice_update: "i < p \<or> p + n \<le> i \<Longrightarrow> slice (xs[i := x]) p n = slice xs p n"
  by (auto simp: slice_def take_update_swap drop_update_swap list_update_beyond)

lemma entry_fields:
  assumes "length addr = 20" and "off < 2 ^ 32" and "n < 2 ^ 32" and "kind < 256"
  shows "length (abi_entry addr kind off n) = 32" and "slice (abi_entry addr kind off n) 0 20 = addr"
    and "unat (abi_entry addr kind off n ! 20) = kind" and "le_dec (slice (abi_entry addr kind off n) 22 4) = off"
    and "le_dec (slice (abi_entry addr kind off n) 26 4) = n"
proof -
  let ?a = "(splice (zeros 32) 0 addr)[20 := of_nat kind]"
  let ?b = "setLE 4 ?a 22 (int off)"
  have len: "length ?a = 32" "length ?b = 32" using assms(1) by simp_all
  show "length (abi_entry addr kind off n) = 32" using len by (simp add: abi_entry_def)
  have "slice (abi_entry addr kind off n) 0 20 = slice ?a 0 20"
    using len by (simp add: abi_entry_def setLE_def slice_splice_disjoint)
  also have "\<dots> = addr" using assms(1) by (simp add: slice_update slice_splice_same)
  finally show "slice (abi_entry addr kind off n) 0 20 = addr" .
  have "abi_entry addr kind off n ! 20 = ?a ! 20" using len by (simp add: abi_entry_def setLE_def nth_splice)
  also have "\<dots> = of_nat kind" using assms(1) by simp
  finally show "unat (abi_entry addr kind off n ! 20) = kind" using assms(4) by (simp add: unat_of_nat)
  have "slice (abi_entry addr kind off n) 22 4 = slice ?b 22 4"
    using len by (simp add: abi_entry_def setLE_def [of 4 ?b] slice_splice_disjoint)
  then show "le_dec (slice (abi_entry addr kind off n) 22 4) = off"
    using le_dec_setLE [of 22 4 ?a "int off"] len assms(2) by simp
  show "le_dec (slice (abi_entry addr kind off n) 26 4) = n"
    using le_dec_setLE [of 26 4 ?b "int n"] len assms(3) by (simp add: abi_entry_def)
qed

text \<open>The bytes after the four writes of a registration.\<close>

definition abi_appended :: "bytes \<Rightarrow> nat \<Rightarrow> nat \<Rightarrow> nat \<Rightarrow> bytes \<Rightarrow> bytes \<Rightarrow> bytes" where
  "abi_appended bs lo used n entry blob =
     splice (splice (splice (splice bs (lo + used) blob) (abi_index n) entry) 16 (le_enc 4 (n + 1))) 32 (le_enc 4 (used + length blob))"

lemma appended_frame:
  assumes "abi_index (n + 1) \<le> lo" and "lo + used + length blob \<le> length bs" and "length entry = 32"
  shows "length (abi_appended bs lo used n entry blob) = length bs"
    and "hi' \<le> 16 \<or> 36 \<le> lo' \<or> 20 \<le> lo' \<and> hi' \<le> 32 \<Longrightarrow> hi' \<le> abi_index n \<or> abi_index (n + 1) \<le> lo' \<Longrightarrow>
      hi' \<le> lo + used \<or> lo + used + length blob \<le> lo' \<Longrightarrow> same_on bs (abi_appended bs lo used n entry blob) lo' hi'"
    and "slice (abi_appended bs lo used n entry blob) (abi_index n) 32 = entry"
    and "slice (abi_appended bs lo used n entry blob) (lo + used) (length blob) = blob"
    and "slice (abi_appended bs lo used n entry blob) 16 4 = le_enc 4 (n + 1)"
    and "slice (abi_appended bs lo used n entry blob) 32 4 = le_enc 4 (used + length blob)"
proof -
  have i: "abi_index n + 32 \<le> lo" "64 \<le> abi_index n" using assms(1) by (simp_all add: abi_index_def)
  note s = abi_appended_def slice_splice_disjoint slice_splice_same
  show "length (abi_appended bs lo used n entry blob) = length bs" using i assms by (simp add: abi_appended_def)
  show "slice (abi_appended bs lo used n entry blob) (abi_index n) 32 = entry" using i assms by (simp add: s)
  show "slice (abi_appended bs lo used n entry blob) (lo + used) (length blob) = blob" using i assms by (simp add: s)
  show "slice (abi_appended bs lo used n entry blob) 16 4 = le_enc 4 (n + 1)" using i assms by (simp add: s)
  show "slice (abi_appended bs lo used n entry blob) 32 4 = le_enc 4 (used + length blob)" using i assms by (simp add: s)
  assume "hi' \<le> 16 \<or> 36 \<le> lo' \<or> 20 \<le> lo' \<and> hi' \<le> 32" "hi' \<le> abi_index n \<or> abi_index (n + 1) \<le> lo'"
    "hi' \<le> lo + used \<or> lo + used + length blob \<le> lo'"
  moreover have "abi_index (n + 1) = abi_index n + 32" by (simp add: abi_index_def)
  ultimately show "same_on bs (abi_appended bs lo used n entry blob) lo' hi'"
    unfolding same_on_def using i assms by (auto simp: s)
qed

lemma same_on_nth:
  assumes "same_on bs bs' lo hi" and "lo \<le> q" and "q < hi" and "q < length bs" and "length bs' = length bs"
  shows "bs' ! q = bs ! q"
proof -
  have "slice xs q 1 = [xs ! q]" if "q < length xs" for xs :: bytes
    using that by (simp add: slice_def Cons_nth_drop_Suc [symmetric])
  with same_onD [OF assms(1,2), of 1] assms(3-5) show ?thesis by simp
qed

lemma entry_at_frame:
  assumes e: "entry_at bs lo hi i e" and idx: "same_on bs bs' (abi_index i) (abi_index i + 32)" and heap: "same_on bs bs' lo hi"
    and len: "length bs' = length bs" "abi_index i + 32 \<le> length bs" and "hi \<le> hi'"
  shows "entry_at bs' lo hi' i e"
proof -
  have "slice bs' (abi_index i) 20 = slice bs (abi_index i) 20" "slice bs' (abi_index i + 22) 4 = slice bs (abi_index i + 22) 4"
    "slice bs' (abi_index i + 26) 4 = slice bs (abi_index i + 26) 4" by (rule same_onD [OF idx]; simp)+
  moreover have "bs' ! (abi_index i + 20) = bs ! (abi_index i + 20)" by (rule same_on_nth [OF idx]) (use len in simp_all)
  moreover have "slice bs' off k = slice bs off k" if "lo \<le> off" "off + k \<le> hi" for off k by (rule same_onD [OF heap that])
  ultimately show ?thesis using e assms(6) by (auto simp: entry_at_def Let_def)
qed

lemma appended_rep:
  fixes d :: AbiDrive
  assumes rep: "abi_rep bs d es" and addr: "length addr = 20" and kind: "kind < 256"
    and room: "int (length es) < ad_capacity d" "int (heap_used es + length blob) \<le> ad_heapLength d"
    and new: "addr \<notin> ae_address ` set es"
  defines "lo \<equiv> nat (ad_heapOffset d)"
  defines "bs' \<equiv> abi_appended bs lo (heap_used es) (length es) (abi_entry addr kind (lo + heap_used es) (length blob)) blob"
    and "d' \<equiv> d\<lparr>ad_count := ad_count d + 1, ad_heapUsed := ad_heapUsed d + int (length blob)\<rparr>"
  shows "abi_rep bs' d' (es @ [\<lparr>ae_address = addr, ae_kind = kind, ae_abi = blob\<rparr>])"
proof -
  let ?n = "length es" and ?used = "heap_used es" and ?e = "\<lparr>ae_address = addr, ae_kind = kind, ae_abi = blob\<rparr>"
  note geo = abi_repD [OF rep]
  have top: "abi_index (?n + 1) \<le> lo" using geo(2) room(1) by (simp add: abi_index_def lo_def)
  have fit: "lo + ?used + length blob \<le> length bs" using geo(3) room(2) by (simp add: lo_def)
  have small: "lo + ?used < 2 ^ 32" "length blob < 2 ^ 32" using fit geo(4) by simp_all
  note fields = entry_fields [OF addr small kind]
  note fr = appended_frame [OF top fit fields(1), folded bs'_def]
  have used': "heap_used (es @ [?e]) = ?used + length blob" by (simp add: heap_used_def)
  have idx: "64 \<le> abi_index i" for i by (simp add: abi_index_def)
  have hd: "slice bs' p k = slice bs p k" if "p + k \<le> 16 \<or> 20 \<le> p \<and> p + k \<le> 32" for p k
  proof (rule same_onD [OF fr(2), of "p + k" p])
    have "64 \<le> lo" using top idx [of "?n + 1"] by simp
    then show "p + k \<le> lo + ?used \<or> lo + ?used + length blob \<le> p" using that by linarith
  qed (use that idx [of ?n] in auto)
  have "?n + 1 < 2 ^ 32" using top small(1) by (simp add: abi_index_def)
  then have "abi_header_holds bs' d'"
    using rep fr(5,6) geo(4) fit room by (simp add: abi_rep_def abi_header_holds_def d'_def hd le_dec_le_enc)
  moreover have "entry_at bs' lo (lo + ?used + length blob) i (es ! i)" if i: "i < ?n" for i
  proof (rule entry_at_frame)
    show "entry_at bs lo (lo + ?used) i (es ! i)" using rep i by (simp add: abi_rep_def lo_def)
    have ii: "abi_index i + 32 \<le> abi_index ?n" using i by (simp add: abi_index_def)
    then show "same_on bs bs' (abi_index i) (abi_index i + 32)" using idx [of i] top by (intro fr(2)) (auto simp: abi_index_def)
    show "same_on bs bs' lo (lo + ?used)" using top idx [of "?n + 1"] by (intro fr(2)) auto
    show "abi_index i + 32 \<le> length bs" using ii top fit by (simp add: abi_index_def)
  qed (use fr(1) in simp_all)
  moreover have "entry_at bs' lo (lo + ?used + length blob) ?n ?e"
  proof -
    have at: "slice bs' (abi_index ?n + p) k = slice (abi_entry addr kind (lo + ?used) (length blob)) p k" if "p + k \<le> 32" for p k
      using slice_slice [OF that, of bs' "abi_index ?n"] fr(3) by simp
    have "abi_index ?n + 32 \<le> length bs'" using fr(1) top fit by (simp add: abi_index_def)
    then have "bs' ! (abi_index ?n + 20) = slice bs' (abi_index ?n) 32 ! 20" by (simp add: nth_slice)
    then have "unat (bs' ! (abi_index ?n + 20)) = kind" using fr(3) fields(3) by simp
    then show ?thesis using at [of 0 20] at [of 22 4] at [of 26 4] fields fr(4) addr by (simp add: entry_at_def Let_def)
  qed
  ultimately show ?thesis
    using rep fr(1) room new used' by (auto simp: abi_rep_def abi_geometry_def d'_def lo_def nth_append less_Suc_eq add.assoc)
qed

lemma putU32_counter: "length xs = 4 \<Longrightarrow> v < 2 ^ 32 \<Longrightarrow> putU32 xs 0 (int v) = Ok (le_enc 4 v)"
  by (simp add: putU32_def setLE_def splice_def)

context byte_store
begin

lemma append_runs:
  assumes ok: "ok s" and rep: "abi_rep (contents s) d es" and addr: "length addr = 20" and kind: "kind < 256"
    and room: "int (length es) < ad_capacity d" "int (heap_used es + length blob) \<le> ad_heapLength d"
  defines "lo \<equiv> nat (ad_heapOffset d)"
  obtains s' where "ok s'" and "abi_append S addr kind blob (s, d) =
      (Ok (), (s', d\<lparr>ad_count := ad_count d + 1, ad_heapUsed := ad_heapUsed d + int (length blob)\<rparr>))"
    and "contents s' = abi_appended (contents s) lo (heap_used es) (length es) (abi_entry addr kind (lo + heap_used es) (length blob)) blob"
proof -
  let ?n = "length es" and ?used = "heap_used es" and ?e = "abi_entry addr kind (lo + heap_used es) (length blob)"
  note geo = abi_repD [OF rep]
  have top: "abi_index (?n + 1) \<le> lo" using geo(2) room(1) by (simp add: abi_index_def lo_def)
  have fit: "lo + ?used + length blob \<le> length (contents s)" using geo(3) room(2) by (simp add: lo_def)
  have small: "lo + ?used < 2 ^ 32" "length blob < 2 ^ 32" "?n + 1 < 2 ^ 32" "?used + length blob < 2 ^ 32"
    using fit geo(4) top by (simp_all add: abi_index_def)
  note e = entry_fields(1) [OF addr small(1,2) kind]
  define s1 where "s1 = written S s (lo + ?used) blob"
  define s2 where "s2 = written S s1 (abi_index ?n) ?e"
  define s3 where "s3 = written S s2 16 (le_enc 4 (?n + 1))"
  define s4 where "s4 = written S s3 32 (le_enc 4 (?used + length blob))"
  have w1: "writeAt S (int (lo + ?used)) blob s = (Ok (), s1)" "ok s1" "contents s1 = splice (contents s) (lo + ?used) blob"
    unfolding s1_def using ok fit by (simp_all only: write_runs write_keeps write_contents)
  have f2: "abi_index ?n + length ?e \<le> length (contents s1)" using w1(3) fit top e by (simp add: abi_index_def)
  have w2: "writeAt S (int (abi_index ?n)) ?e s1 = (Ok (), s2)" "ok s2" "contents s2 = splice (contents s1) (abi_index ?n) ?e"
    unfolding s2_def using w1(2) f2 by (simp_all only: write_runs write_keeps write_contents)
  have l2: "length (contents s2) = length (contents s)" "64 \<le> length (contents s)"
    using w2(3) f2 w1(3) fit top by (simp_all add: abi_index_def)
  have f3: "16 + length (le_enc 4 (?n + 1)) \<le> length (contents s2)" using l2 by simp
  have w3: "writeAt S (int 16) (le_enc 4 (?n + 1)) s2 = (Ok (), s3)" "ok s3" "contents s3 = splice (contents s2) 16 (le_enc 4 (?n + 1))"
    unfolding s3_def using w2(2) f3 by (simp_all only: write_runs write_keeps write_contents)
  have f4: "32 + length (le_enc 4 (?used + length blob)) \<le> length (contents s3)" using l2 w3(3) f3 by simp
  have w4: "writeAt S (int 32) (le_enc 4 (?used + length blob)) s3 = (Ok (), s4)" "ok s4"
      "contents s4 = splice (contents s3) 32 (le_enc 4 (?used + length blob))"
    unfolding s4_def using w3(2) f4 by (simp_all only: write_runs write_keeps write_contents)
  have d: "ad_heapOffset d = int lo" "ad_heapUsed d = int ?used" "ad_count d = int ?n" "ad_indexOffset d = 64"
    using rep geo(5) by (simp_all add: abi_rep_def abi_geometry_def lo_def)
  have c1: "putU32 (zeros 4) 0 (int ?n + 1) = Ok (le_enc 4 (?n + 1))"
    using putU32_counter [OF _ small(3), of "zeros 4"] by (simp add: add.commute)
  have c2: "putU32 (le_enc 4 (?n + 1)) 0 (int ?used + int (length blob)) = Ok (le_enc 4 (?used + length blob))"
    using putU32_counter [OF _ small(4), of "le_enc 4 (?n + 1)"] by simp
  have "abi_append S addr kind blob (s, d) = (Ok (), (s4, d\<lparr>ad_count := ad_count d + 1, ad_heapUsed := ad_heapUsed d + int (length blob)\<rparr>))"
    using w1(1) w2(1) w3(1) w4(1) d c1 c2 entry_bytes [OF addr, of kind "lo + ?used" "length blob"]
    by (simp add: abi_append_def Let_def on_store_run abi_index_def ENTRY_LENGTH_def mult.commute del: le_enc.simps)
  with that w4(2,3) w3(3) w2(3) w1(3) show ?thesis by (simp add: abi_appended_def)
qed

lemma register_refines:
  assumes ok: "ok s" and rep: "abi_rep (contents s) d es" and addr: "length addr = 20" and kind: "kind < 256"
  shows "\<exists>r s' d' es'. abi_register shown S addr kind blob (s, d) = (r, (s', d')) \<and> spec_register shown d addr kind blob es = (r, es') \<and>
    ok s' \<and> abi_rep (contents s') d' es'"
proof (cases "find (\<lambda>e. ae_address e = addr) es")
  case (Some e)
  with entryOf_reads [OF ok rep, of addr] ok rep show ?thesis by (simp add: abi_register_def spec_register_def)
next
  case None
  then have new: "addr \<notin> ae_address ` set es" by (auto simp: find_None_iff)
  have d: "ad_count d = int (length es)" "ad_heapUsed d = int (heap_used es)" using rep by (simp_all add: abi_rep_def)
  note lookup = entryOf_reads [OF ok rep, of addr]
  show ?thesis
  proof (cases "int (length es) < ad_capacity d \<and> int (heap_used es + length blob) \<le> ad_heapLength d")
    case False
    with None lookup d ok rep show ?thesis by (auto simp: abi_register_def spec_register_def)
  next
    case True
    then have room: "int (length es) < ad_capacity d" "int (heap_used es + length blob) \<le> ad_heapLength d" by simp_all
    show ?thesis
    proof (rule append_runs [OF ok rep addr kind room])
      fix s'
      assume "ok s'" and "abi_append S addr kind blob (s, d) =
          (Ok (), (s', d\<lparr>ad_count := ad_count d + 1, ad_heapUsed := ad_heapUsed d + int (length blob)\<rparr>))"
        and "contents s' = abi_appended (contents s) (nat (ad_heapOffset d)) (heap_used es) (length es)
          (abi_entry addr kind (nat (ad_heapOffset d) + heap_used es) (length blob)) blob"
      with None lookup d room appended_rep [OF rep addr kind room new] show ?thesis
        by (auto simp: abi_register_def spec_register_def)
    qed
  qed
qed

end

section \<open>Formatting\<close>

definition abi_config_ok :: "AbiDriveConfig \<Rightarrow> nat \<Rightarrow> bool" where
  "abi_config_ok c n \<longleftrightarrow> ac_driveLength c = int n \<and> n < 2 ^ 32 \<and> 0 \<le> ac_capacity c \<and> 64 + 32 * ac_capacity c \<le> ac_heapOffset c \<and>
     ac_heapOffset c < ac_driveLength c"

lemma abi_header_fields:
  assumes "abi_config_ok c n"
  obtains h where "abi_header c = Ok h" and "length h = 64" and "slice h 0 8 = ABI_DRIVE_MAGIC" and "le_dec (slice h 8 2) = 1"
    and "int (le_dec (slice h 12 4)) = ac_capacity c" and "le_dec (slice h 16 4) = 0" and "le_dec (slice h 20 4) = 64"
    and "int (le_dec (slice h 24 4)) = ac_heapOffset c" and "int (le_dec (slice h 28 4)) = ac_driveLength c - ac_heapOffset c"
    and "le_dec (slice h 32 4) = 0"
proof -
  note c = assms [unfolded abi_config_ok_def]
  let ?fs = "[(8, 2, 1), (12, 4, ac_capacity c), (16, 4, 0), (20, 4, 64), (24, 4, ac_heapOffset c),
      (28, 4, ac_driveLength c - ac_heapOffset c), (32, 4, 0)]"
  let ?h = "fold (\<lambda>(off, n, v) h. setLE n h off v) ?fs (splice (zeros 64) 0 ABI_DRIVE_MAGIC)"
  have m: "length ABI_DRIVE_MAGIC = 8" by (simp add: ABI_DRIVE_MAGIC_def)
  have "abi_header c = Ok ?h"
    using m by (simp add: abi_header_def arr_set_def putU16_def putU32_def HEADER_LENGTH_def ABI_DRIVE_VERSION_def)
  moreover have "length ?h = 64" using m by simp
  moreover have "slice ?h 0 8 = ABI_DRIVE_MAGIC" using m by (simp add: setLE_def slice_splice_disjoint slice_splice_same)
  moreover have "le_dec (slice ?h 8 2) = 1" "int (le_dec (slice ?h 12 4)) = ac_capacity c" "le_dec (slice ?h 16 4) = 0"
      "le_dec (slice ?h 20 4) = 64" "int (le_dec (slice ?h 24 4)) = ac_heapOffset c"
      "int (le_dec (slice ?h 28 4)) = ac_driveLength c - ac_heapOffset c" "le_dec (slice ?h 32 4) = 0"
    using m c by (simp_all add: setLE_def slice_splice_disjoint slice_splice_same le_dec_le_enc nat_less_iff del: le_enc.simps)
  ultimately show ?thesis by (rule that)
qed

context byte_store
begin

lemma abi_format_ok:
  assumes ok: "ok s" and n: "length (contents s) = n" and c: "abi_config_ok c n"
  obtains d s' where "abi_format S c s = (Ok d, s')" and "ok s'" and "abi_rep (contents s') d []"
    and "ad_capacity d = ac_capacity c" and "ad_heapLength d = ac_driveLength c - ac_heapOffset c"
proof (rule abi_header_fields [OF c])
  fix h
  assume h: "abi_header c = Ok h" "length h = 64" and f: "slice h 0 8 = ABI_DRIVE_MAGIC" "le_dec (slice h 8 2) = 1"
    "int (le_dec (slice h 12 4)) = ac_capacity c" "le_dec (slice h 16 4) = 0" "le_dec (slice h 20 4) = 64"
    "int (le_dec (slice h 24 4)) = ac_heapOffset c" "int (le_dec (slice h 28 4)) = ac_driveLength c - ac_heapOffset c"
    "le_dec (slice h 32 4) = 0"
  note c' = c [unfolded abi_config_ok_def]
  let ?s = "written S s 0 h"
  let ?d = "\<lparr>ad_capacity = ac_capacity c, ad_count = 0, ad_indexOffset = 64, ad_heapOffset = ac_heapOffset c,
      ad_heapLength = ac_driveLength c - ac_heapOffset c, ad_heapUsed = 0\<rparr>"
  have fit: "0 + length h \<le> length (contents s)" using c' h(2) n by simp
  have w: "writeAt S 0 h s = (Ok (), ?s)" "ok ?s" "contents ?s = splice (contents s) 0 h"
    using write_runs [OF ok fit] write_keeps [OF ok fit] write_contents [OF ok fit] by simp_all
  have hd: "slice (contents ?s) p k = slice h p k" if "p + k \<le> 64" for p k
    using that fit h(2) unfolding w(3) by (simp add: slice_splice_within)
  have "abi_format S c s = (Ok ?d, ?s)" using c' h(1) w(1) by (simp add: abi_format_def Let_def HEADER_LENGTH_def ENTRY_LENGTH_def)
  moreover have "length (contents ?s) = n" using w(3) fit n by simp
  then have "abi_rep (contents ?s) ?d []"
    using c' f by (simp add: abi_rep_def abi_geometry_def abi_header_holds_def heap_used_def hd ABI_DRIVE_VERSION_def)
  ultimately show ?thesis using that w(2) by simp
qed

end

end
