(* ===== verification/Router_Properties.thy ===== *)
theory Router_Properties
  imports Samples Abi_Spec
begin

text \<open>
  What the router and the application promise beyond single outcomes: the registry and the message counter only grow, a plain
  transfer and a token transfer move exactly their value, outputs leave only with a committed input, contracts cannot reject an
  input or take over an address of the system, and the ABI drive records every contract once.
\<close>

section \<open>History\<close>

text \<open>C33. History is append-only: in every later state the tokens registered before keep their ids, addresses and widths, and the
  counter of outgoing messages has not gone back, whatever was rolled back in between.\<close>

theorem history_is_append_only:
  assumes "byte_store S contents ok" and "keccak_digest H" and "viem_ok V"
    and "ready contents ok H (history_kept contents ok H) ap" and "reaches H S V ap ap'"
  shows "prefix (d_tokens (l_drive (led_of ap))) (d_tokens (l_drive (led_of ap'))) \<and>
    peekMessageNonce (l_ram (led_of ap)) \<le> peekMessageNonce (l_ram (led_of ap'))"
  using input_client.reaches_ready [OF byte_store.history_input [OF assms(1,2)] assms(5,2,3,4)] assms(4)
  by (simp add: history_kept_def ready_def labs_def abs_drive_def)

theorem history_is_append_only_witness:
  "\<exists>l ap'. at_genesis l \<and> reaches sample_hash MemStore sample_viem (sample_app l) ap' \<and>
     prefix (d_tokens (l_drive l)) (d_tokens (l_drive (led_of ap')))"
proof (rule genesis_ledger)
  fix l
  assume l: "at_genesis l" "ledger_inv (\<lambda>b. b) mem_ok sample_hash l" "snd (jst l) = []"
  from history_is_append_only [OF mstore.byte_store_axioms sample_digest sample_viem_ok sample_ready [OF l(2,3)] sample_reaches]
  have "prefix (d_tokens (l_drive l)) (d_tokens (l_drive (led_of ((sample_app l)\<lparr>ap_router :=
      sample_router\<lparr>lastBlock := Some (blockContext (sample_request []))\<rparr>\<rparr>))))" by simp
  with l(1) sample_reaches [of l] show ?thesis by blast
qed

section \<open>Transfers\<close>

lemma on_led_E:
  assumes "on_led m w = (r, w')"
  obtains l' where "m (w_led w) = (r, l')" and "w' = w\<lparr>w_led := l'\<rparr>"
  using assms by (auto simp: on_led_def zoom_def split: prod.splits)

lemma resolve_ram: "l_ram l' = l_ram l \<Longrightarrow> d_tokens (l_drive l') = d_tokens (l_drive l) \<Longrightarrow> resolve R dst b dep l' = resolve R dst b dep l"
  by (simp only: resolve_def tokenByL2Address_def)

context byte_store
begin

lemma plain_transfer:
  assumes H: "keccak_digest H" and ctx: "ctx_ok ctx" and inv: "ledger_inv contents ok H (w_led w)"
    and none: "resolve Rt (ctx_to ctx) (Some (ctx_block ctx)) dep (w_led w) = None"
    and run: "transfer_and_dispatch H S V Rt ctx dep w = (Ok outcome, w')"
  shows "outcome = Accept" and "w_sink w' = w_sink w" and "drive_step contents ok H (w_led w) (w_led w')"
    and "int (etherOf (labs contents (w_led w')) x) = int (etherOf (labs contents (w_led w)) x)
      + (if x = ctx_to ctx then int (ctx_value ctx) else 0) - (if x = ctx_sender ctx then int (ctx_value ctx) else 0)"
    and "a_bal (labs contents (w_led w')) = a_bal (labs contents (w_led w))"
proof -
  have len: "length (ctx_sender ctx) = 20" "length (ctx_to ctx) = 20" using ctx by (simp_all add: ctx_ok_def)
  from run obtain u1 w1 where d: "on_led (debitEther H S (ctx_sender ctx) (int (ctx_value ctx))) w = (Ok u1, w1)"
    and rest: "bnd (on_led (creditEther H S (ctx_to ctx) (int (ctx_value ctx)))) (\<lambda>_.
      bnd (gets (\<lambda>w. resolve Rt (ctx_to ctx) (Some (ctx_block ctx)) dep (w_led w))) (\<lambda>h. case h of None \<Rightarrow> ret Accept
        | Some handler \<Rightarrow> if ctx_value ctx > 0 \<and> \<not> payable handler then revert V ''not payable''
           else (case handler_advance H S V Rt handler of None \<Rightarrow> revert V ''not a transaction target'' | Some adv \<Rightarrow> adv ctx))) w1 = (Ok outcome, w')"
    unfolding transfer_and_dispatch_def by (rule bnd_OkE)
  from d obtain l1 where m1: "debitEther H S (ctx_sender ctx) (int (ctx_value ctx)) (w_led w) = (Ok u1, l1)" and w1: "w1 = w\<lparr>w_led := l1\<rparr>"
    by (rule on_led_E)
  have l1: "drive_step contents ok H (w_led w) l1"
      "ether_moved (labs contents (w_led w)) (labs contents l1) (ctx_sender ctx) (- int (ctx_value ctx))"
    by (rule debitEther_runs [OF H len(1) inv, of "ctx_value ctx"]; use m1 in simp)+
  from rest obtain u2 w2 where c: "on_led (creditEther H S (ctx_to ctx) (int (ctx_value ctx))) w1 = (Ok u2, w2)"
    and last: "(case resolve Rt (ctx_to ctx) (Some (ctx_block ctx)) dep (w_led w2) of None \<Rightarrow> ret Accept
        | Some handler \<Rightarrow> if ctx_value ctx > 0 \<and> \<not> payable handler then revert V ''not payable''
           else (case handler_advance H S V Rt handler of None \<Rightarrow> revert V ''not a transaction target'' | Some adv \<Rightarrow> adv ctx)) w2 = (Ok outcome, w')"
    by (rule bnd_OkE) simp
  from c obtain l2 where m2: "creditEther H S (ctx_to ctx) (int (ctx_value ctx)) (w_led w1) = (Ok u2, l2)" and w2: "w2 = w1\<lparr>w_led := l2\<rparr>"
    by (rule on_led_E)
  have inv1: "ledger_inv contents ok H (w_led w1)" using l1(1) w1 by (simp add: drive_step_def)
  have l2: "drive_step contents ok H l1 l2"
      "ether_moved (labs contents l1) (labs contents l2) (ctx_to ctx) (int (ctx_value ctx))"
    by (rule creditEther_runs [OF H len(2) inv1, of "ctx_value ctx"]; use m2 w1 in simp)+
  have toks: "d_tokens (l_drive l2) = d_tokens (l_drive (w_led w))"
    using l1(2) l2(2) by (simp add: ether_moved_def labs_def abs_drive_def)
  have "resolve Rt (ctx_to ctx) (Some (ctx_block ctx)) dep l2 = None"
    using none resolve_ram [OF _ toks, of Rt "ctx_to ctx"] l1(1) l2(1) by (simp add: drive_step_def)
  with last w2 w1 have w': "w' = w\<lparr>w_led := l2\<rparr>" "outcome = Accept" by simp_all
  show "outcome = Accept" "w_sink w' = w_sink w" using w' by simp_all
  show "drive_step contents ok H (w_led w) (w_led w')" using w' l1(1) l2(1) by (simp add: drive_step_def)
  show "a_bal (labs contents (w_led w')) = a_bal (labs contents (w_led w))" using w' l1(2) l2(2) by (simp add: ether_moved_def)
  show "int (etherOf (labs contents (w_led w')) x) = int (etherOf (labs contents (w_led w)) x)
      + (if x = ctx_to ctx then int (ctx_value ctx) else 0) - (if x = ctx_sender ctx then int (ctx_value ctx) else 0)"
    using w' l1(2) l2(2) by (simp add: ether_moved_def)
qed

end

lemma charged_ether:
  assumes "charged c addr amount a a'"
  shows "int (etherOf a' x) = int (etherOf a x) - (if x = addr then amount else 0)"
  using assms by (auto simp: charged_def etherOf_def)

text \<open>C34. A transaction to an address nothing is routed at is a plain transfer: the value moves from the signer to the target, the
  signer pays the fee besides, no other ether and no token moves, and there are no outputs.\<close>

theorem plain_transfer_moves_value:
  assumes st: "byte_store S contents ok" and H: "keccak_digest H" and V: "viem_ok V" and nz: "signer_nonzero V raw"
    and con: "contracts_respect (keeps_since contents ok H) Rt"
    and inv: "ledger_inv contents ok H (w_led w)" "snd (jst (w_led w)) = []"
    and parse: "parseInput V raw = Signed tx" "sg_to tx = Some dst" and none: "resolve Rt dst (Some block) None (w_led w) = None"
    and run: "router_advance H S V Rt block raw w = (Ok res, w')" and acc: "ar_outcome res = OAccept"
  shows "\<exists>sender. recoverSender V tx = Some sender \<and> ar_emissions res = [] \<and>
    a_bal (labs contents (w_led w')) = a_bal (labs contents (w_led w)) \<and>
    (\<forall>x. int (etherOf (labs contents (w_led w')) x) = int (etherOf (labs contents (w_led w)) x)
       + (if x = dst then int (sg_value tx) else 0) - (if x = sender then int (sg_value tx) + fee (ram w) else 0))"
proof -
  have sg: "advanceSigned H S V Rt block tx w = (Ok res, w')" using run parse by (simp add: router_advance_def)
  have nz': "\<not> isZero a" if "recoverSender V tx = Some a" for a using nz parse that by (simp add: signer_nonzero_def)
  show ?thesis
  proof (rule byte_store.signed_runs [where tx = tx and block = block, OF st H V con _ nz' inv])
    show "length a = 20" if "sg_to tx = Some a" for a using parse_signed [OF V parse(1)] that by simp
    fix sender dst' outcome w1 res' w''
    assume c: "advanceSigned H S V Rt block tx w = (Ok res', w'')" "admitted V Rt (labs contents (w_led w)) (ram w) tx sender"
      "sg_to tx = Some dst'"
      and tad: "transfer_and_dispatch H S V Rt (signed_ctx block sender dst' tx) None (w\<lparr>w_sink := BufferSink (b_inputIndex block)\<rparr>) = (Ok outcome, w1)"
      and o: "outcome = Accept \<and> res' = finished OAccept (emissions (w_sink w1)) \<or>
        (\<exists>d. outcome = Fail d \<and> res' = finished OFail (emissions (w_sink w1) @ [Report (tagged TAG_FAIL d)]))"
      and s: "settled contents ok H (Some (sender, fee (ram w))) (w_led w1) (w_led w'')"
    have eq: "res' = res" "w'' = w'" "dst' = dst" using c(1,3) sg parse(2) by simp_all
    have rs: "recoverSender V tx = Some sender" using c(2) by (simp add: admitted_def)
    have "length sender = 20" using rs V by (auto simp: recoverSender_def viem_ok_def split: if_splits res.splits)
    then have ctx: "ctx_ok (signed_ctx block sender dst tx)"
      using parse_signed [OF V parse(1)] parse(2) by (simp add: ctx_ok_def signed_ctx_def)
    note pt = byte_store.plain_transfer [OF st H ctx _ _ tad [unfolded eq(3)]]
    have pt': "w_sink w1 = BufferSink (b_inputIndex block)" "a_bal (labs contents (w_led w1)) = a_bal (labs contents (w_led w))"
      "int (etherOf (labs contents (w_led w1)) x) = int (etherOf (labs contents (w_led w)) x)
        + (if x = dst then int (sg_value tx) else 0) - (if x = sender then int (sg_value tx) else 0)" for x
      using pt(2) pt(5) pt(4) [of x] inv(1) none by (simp_all add: signed_ctx_def)
    have ch: "charged (d_cfg (l_drive (w_led w1))) sender (fee (ram w)) (labs contents (w_led w1)) (labs contents (w_led w'))"
      using s eq(2) by (simp add: settled_def)
    have "ar_emissions res = []" using o eq(1) acc pt'(1) by (auto simp: finished_def BufferSink_def)
    moreover have "a_bal (labs contents (w_led w')) = a_bal (labs contents (w_led w))" using ch pt'(2) by (simp add: charged_def)
    ultimately show ?thesis using rs charged_ether [OF ch] pt'(3) by (intro exI [of _ sender]) simp
  qed (use sg acc in \<open>auto simp: finished_def\<close>)
qed

theorem plain_transfer_moves_value_witness:
  "\<exists>l w'. at_genesis l \<and>
     router_advance sample_hash MemStore sample_viem sample_router sample_block [2] (sample_world l) = (Ok (finished OAccept []), w') \<and>
     int (etherOf (labs (\<lambda>b. b) (w_led w')) (sample_address 9)) = 0"
proof (rule genesis_ledger)
  fix l
  assume l: "at_genesis l" "ledger_inv (\<lambda>b. b) mem_ok sample_hash l" "snd (jst l) = []" "l_ram l = new_ram" "labs (\<lambda>b. b) l = empty_abs"
  from sample_signed(2) [OF l(1,4)] obtain w' where
    w': "router_advance sample_hash MemStore sample_viem sample_router sample_block [2] (sample_world l) = (Ok (finished OAccept []), w')"
    by blast
  have "resolve sample_router (sample_address 9) (Some sample_block) None (w_led (sample_world l)) = None"
    using l(4) sample_unrouted by (simp add: resolve_def sample_router_def new_Router_def sample_block_def tokenByL2Address_def new_ram_def)
  moreover obtain tx where "parseInput sample_viem [2] = Signed tx" and tx: "sg_to tx = Some (sample_address 9)" "sg_value tx = 0"
    using sample_inputs(3) by simp
  ultimately obtain sender where eth: "\<And>x. int (etherOf (labs (\<lambda>b. b) (w_led w')) x) = int (etherOf (labs (\<lambda>b. b) l) x)
      + (if x = sample_address 9 then int (sg_value tx) else 0) - (if x = sender then int (sg_value tx) + fee (ram (sample_world l)) else 0)"
    using plain_transfer_moves_value [OF mstore.byte_store_axioms sample_digest sample_viem_ok sample_signers sample_respects(1) _ _
      _ tx(1) _ w'] l(2,3) by (auto simp: finished_def)
  have "etherOf (labs (\<lambda>b. b) l) x = 0" "fee (ram (sample_world l)) = 0" for x
    using l(4,5) by (simp_all add: etherOf_def empty_abs_def ram_def new_ram_def)
  with eth [of "sample_address 9"] tx(2) have "int (etherOf (labs (\<lambda>b. b) (w_led w')) (sample_address 9)) = 0"
    by (cases "sample_address 9 = sender") simp_all
  with w' l(1) show ?thesis by blast
qed

lemma out_log_ledger: "out_log V a lg w = (r, w') \<Longrightarrow> w_led w' = w_led w"
  by (auto simp: out_log_def on_sink_def zoom_def bnd_def lift_def split: prod.splits res.splits)

lemma try_catch_OkE:
  assumes "try_catch m h s = (Ok a, s')"
  obtains "m s = (Ok a, s')" | e s1 where "m s = (Throw e, s1)" and "h e s1 = (Ok a, s')"
  using assms by (auto simp: try_catch_def split: prod.splits res.splits)

lemma erc20_transfer_moves:
  assumes st: "byte_store S contents ok" and H: "keccak_digest H" and len: "length (ctx_sender ctx) = 20" "length dst = 20"
    and inv: "ledger_inv contents ok H (w_led w)" and run: "erc20_transfer H S V ctx tid dst v w = (Ok Accept, w')"
  obtains l1 where "token_moved (labs contents (w_led w)) (labs contents l1) tid (ctx_sender ctx) (- int v)"
    and "token_moved (labs contents l1) (labs contents (w_led w')) tid dst (int v)"
    and "total_moved (l_ram (w_led w)) (l_ram l1) tid (- int v)" and "total_moved (l_ram l1) (l_ram (w_led w')) tid (int v)"
proof -
  let ?debit = "debitToken H S (ctx_sender ctx) tid (int v)" and ?credit = "creditToken H S dst tid (int v)"
  let ?body = "bnd (on_led ?debit) (\<lambda>_. bnd (on_led ?credit) (\<lambda>_. ret (None :: AdvanceOutcome option)))"
  from run obtain refused w1 where tc: "try_catch ?body (\<lambda>e. if is_InsufficientFunds e
        then ret (Some (Revert (errorRevert V ''ERC20: transfer amount exceeds balance''))) else raise e) w = (Ok refused, w1)"
    and rest: "(case refused of Some r \<Rightarrow> ret r
        | None \<Rightarrow> bnd (out_log V (ctx_to ctx) (transferLog H V (ctx_sender ctx) dst v)) (\<lambda>_. ret Accept)) w1 = (Ok Accept, w')"
    unfolding erc20_transfer_def by (rule bnd_OkE)
  have body: "?body w = (Ok refused, w1) \<or> (\<exists>d. refused = Some (Revert d))"
    using tc by (rule try_catch_OkE) (auto split: if_splits)
  then have none: "refused = None"
  proof
    assume "?body w = (Ok refused, w1)"
    then show ?thesis by (elim bnd_OkE) simp
  next
    assume "\<exists>d. refused = Some (Revert d)"
    with rest show ?thesis by auto
  qed
  with body have "?body w = (Ok None, w1)" by simp
  then obtain u1 wa u2 where "on_led ?debit w = (Ok u1, wa)" "on_led ?credit wa = (Ok u2, w1)" by (elim bnd_OkE) simp
  then obtain l1 l2 where m: "?debit (w_led w) = (Ok u1, l1)" "wa = w\<lparr>w_led := l1\<rparr>" "?credit l1 = (Ok u2, l2)" "w1 = wa\<lparr>w_led := l2\<rparr>"
    by (elim on_led_E) simp
  from rest none obtain u where "out_log V (ctx_to ctx) (transferLog H V (ctx_sender ctx) dst v) w1 = (Ok u, w')" by (auto elim!: bnd_OkE)
  then have w': "w_led w' = l2" using m(4) out_log_ledger by fastforce
  have d: "ledger_inv contents ok H l1" "token_moved (labs contents (w_led w)) (labs contents l1) tid (ctx_sender ctx) (- int v)"
      "total_moved (l_ram (w_led w)) (l_ram l1) tid (- int v)"
    by (rule byte_store.debitToken_runs [OF st H len(1) inv, of tid v]; use m(1) in simp)+
  have "token_moved (labs contents l1) (labs contents l2) tid dst (int v)" "total_moved (l_ram l1) (l_ram l2) tid (int v)"
    by (rule byte_store.creditToken_runs [OF st H len(2) d(1), of tid v]; use m(3) in simp)+
  with that d(2,3) w' show ?thesis by simp
qed

text \<open>C35. A token transfer through a facade moves exactly its value from the sender to the recipient, in the facade's token only;
  no other balance, no ether, no nonce and no supply changes.\<close>

theorem facade_transfer_moves_value:
  assumes st: "byte_store S contents ok" and H: "keccak_digest H" and V: "viem_ok V" and ctx: "ctx_ok ctx"
    and inv: "ledger_inv contents ok H (w_led w)" and run: "erc20_advance H S V ctx w = (Ok Accept, w')"
  shows "\<exists>t dst v. tokenByL2Address (ctx_to ctx) (w_led w) = Some t \<and>
    tryDecodeCalldata V erc20FacadeAbi (ctx_data ctx) = Some (''transfer'', [VAddr dst, VUint v]) \<and>
    (\<forall>k x. int (a_bal (labs contents (w_led w')) k x) = int (a_bal (labs contents (w_led w)) k x)
       + (if k = rf_id t \<and> x = dst then int v else 0) - (if k = rf_id t \<and> x = ctx_sender ctx then int v else 0)) \<and>
    (\<forall>x. etherOf (labs contents (w_led w')) x = etherOf (labs contents (w_led w)) x \<and>
         nonceOf (labs contents (w_led w')) x = nonceOf (labs contents (w_led w)) x) \<and>
    (\<forall>k. totalSupply k (ram w') = totalSupply k (ram w))"
proof -
  from run obtain t dst v where t: "tokenByL2Address (ctx_to ctx) (w_led w) = Some t"
    and dec: "tryDecodeCalldata V erc20FacadeAbi (ctx_data ctx) = Some (''transfer'', [VAddr dst, VUint v])"
    and tr: "erc20_transfer H S V ctx (rf_id t) dst v w = (Ok Accept, w')"
    by (auto simp: erc20_advance_def revert_def split: option.splits prod.splits if_splits list.splits abi.splits)
  have len: "length (ctx_sender ctx) = 20" "length dst = 20" using ctx decode_ok [OF dec V] by (simp_all add: ctx_ok_def)
  from erc20_transfer_moves [OF st H len inv tr] obtain l1 where
    m: "token_moved (labs contents (w_led w)) (labs contents l1) (rf_id t) (ctx_sender ctx) (- int v)"
      "token_moved (labs contents l1) (labs contents (w_led w')) (rf_id t) dst (int v)"
      "total_moved (l_ram (w_led w)) (l_ram l1) (rf_id t) (- int v)" "total_moved (l_ram l1) (l_ram (w_led w')) (rf_id t) (int v)" .
  have "int (a_bal (labs contents (w_led w')) k x) = int (a_bal (labs contents (w_led w)) k x)
      + (if k = rf_id t \<and> x = dst then int v else 0) - (if k = rf_id t \<and> x = ctx_sender ctx then int v else 0)" for k x
    using m(1,2) unfolding token_moved_def by auto
  moreover have "etherOf (labs contents (w_led w')) x = etherOf (labs contents (w_led w)) x"
    "nonceOf (labs contents (w_led w')) x = nonceOf (labs contents (w_led w)) x" for x using m(1,2) by (simp_all add: token_moved_def)
  moreover have "totalSupply k (ram w') = totalSupply k (ram w)" for k using m(3,4) by (simp add: total_moved_def ram_def)
  ultimately show ?thesis using t dec by blast
qed

lemma sample_token_ledger:
  obtains l where "ledger_inv (\<lambda>b. b) mem_ok sample_hash l"
    and "tokenByL2Address (zeros 20) l = Some \<lparr>rf_id = 0, rf_l1Token = sample_address 5, rf_width = 32\<rparr>"
proof (rule genesis_ledger)
  fix l
  let ?tok = "\<lparr>tok_address = sample_address 5, tok_width = 32\<rparr>"
  assume l: "at_genesis l" "labs (\<lambda>b. b) l = empty_abs"
  then have d: "mem_ok (fst (jst l))" "drive_inv sample_hash (fst (jst l)) (l_drive l)" "d_cfg (l_drive l) = opened devnet_cfg"
    by (auto simp: at_genesis_def ledger_inv_def fresh_drive_def)
  have "length (sample_address 5) = 20" by simp
  from mstore.registerToken_refines [OF this] d(1,2)
  obtain r s' d' where s': "mem_ok s'" "drive_inv sample_hash s' d'"
      "spec_registerToken (d_cfg (l_drive l)) (sample_address 5) 32 (abs_drive (l_drive l) (fst (jst l))) = (r, abs_drive d' s')"
    unfolding drive_refines_def by blast
  have "register_check (opened devnet_cfg) [] (sample_address 5) 32 = Ok ()" by code_simp
  moreover have "abs_drive d' s' = snd (spec_registerToken (opened devnet_cfg) (sample_address 5) 32 empty_abs)"
    using s'(3) d(3) l(2) by (simp add: labs_def)
  ultimately have "a_toks (abs_drive d' s') = [?tok]" by (simp add: spec_registerToken_def empty_abs_def)
  then have toks: "d_tokens d' = [?tok]" by (simp add: abs_drive_def)
  have addr: "l2TokenAddress sample_hash (sample_address 5) = zeros 20" by code_simp
  let ?l = "\<lparr>jst = (s', []), l_drive = d', l_ram = new_ram\<lparr>facades := facades_from sample_hash (d_tokens d') 0 Map.empty\<rparr>\<rparr>"
  show ?thesis
  proof (rule that [of ?l])
    show "ledger_inv (\<lambda>b. b) mem_ok sample_hash ?l" using s'(1,2) by (simp add: ledger_inv_def)
    show "tokenByL2Address (zeros 20) ?l = Some \<lparr>rf_id = 0, rf_l1Token = sample_address 5, rf_width = 32\<rparr>"
      using toks addr by (simp add: tokenByL2Address_def)
  qed
qed

theorem facade_transfer_moves_value_witness:
  "\<exists>V l ctx w'. erc20_advance sample_hash MemStore V ctx (sample_world l) = (Ok Accept, w') \<and>
     (\<forall>k. totalSupply k (ram w') = totalSupply k (l_ram l))"
proof (rule sample_token_ledger)
  fix l
  assume l: "ledger_inv (\<lambda>b. b) mem_ok sample_hash l"
    "tokenByL2Address (zeros 20) l = Some \<lparr>rf_id = 0, rf_l1Token = sample_address 5, rf_width = 32\<rparr>"
  let ?V = "sample_viem\<lparr>decodeFunctionData := (\<lambda>_ _. Ok (''transfer'', [VAddr (sample_address 9), VUint 0]))\<rparr>"
  let ?ctx = "\<lparr>ctx_block = sample_block, ctx_sender = sample_address 7, ctx_to = zeros 20, ctx_value = 0, ctx_data = [],
    ctx_isDeposit = False, ctx_mint = 0\<rparr>"
  have V: "viem_ok ?V" using sample_viem_ok by (simp add: viem_ok_def)
  obtain w' where w': "erc20_advance sample_hash MemStore ?V ?ctx (sample_world l) = (Ok Accept, w')"
    using l(2) by (simp add: erc20_advance_def tryDecodeCalldata_def erc20_transfer_def debitToken_def creditToken_def on_led_def zoom_def
        out_log_def transferLog_def sample_viem_def on_sink_def sink_log_def encodeEvmLog_def sink_notice_def)
      (simp add: bnd_def push_def)
  from facade_transfer_moves_value [OF mstore.byte_store_axioms sample_digest V _ _ w'] l(1) w' show ?thesis
    by (auto simp: ctx_ok_def ram_def)
qed

section \<open>Outputs\<close>

definition committed_or_reports :: "AdvanceResult \<Rightarrow> bool" where
  "committed_or_reports res \<longleftrightarrow> (ar_outcome res = OAccept \<or> ar_outcome res = OFail) \<and> ar_accept res \<or> list_all is_report (ar_emissions res)"

lemma results_emit [simp]: "committed_or_reports (rejected reason)" "committed_or_reports (finished OAccept es)"
  "committed_or_reports (finished OFail es)" "list_all is_report es \<Longrightarrow> committed_or_reports (finished out es)"
  by (simp_all add: committed_or_reports_def rejected_def finished_def)








section \<open>Contracts\<close>








text \<open>The handler at the \<^verbatim>\<open>L1Block\<close> predeploy looks at the calldata only: who sent the input plays no part in it, so the L1 attributes
  are whatever the last well-formed call from anyone set.\<close>

lemma l1block_ignores_sender: "ctx_data ctx' = ctx_data ctx \<Longrightarrow> l1block_advance V ctx' = l1block_advance V ctx"
  unfolding l1block_advance_def by (simp only:)

section \<open>The ABI drive\<close>

text \<open>C39. Registering an interface implements the specification on lists: the same address with the same content is a no-op, with other
  content a duplicate; a full index or heap is refused with nothing changed; otherwise the entry is appended.\<close>

theorem abi_register_implements_append:
  assumes "mem_ok s" and "abi_rep s d es" and "length addr = 20" and "kind < 256"
  shows "\<exists>r s' d' es'. abi_register shown MemStore addr kind blob (s, d) = (r, (s', d')) \<and> spec_register shown d addr kind blob es = (r, es') \<and>
    mem_ok s' \<and> abi_rep s' d' es'"
  by (rule mstore.register_refines [OF assms])

lemma sample_abi_drive:
  obtains s d where "mem_ok s" and "abi_rep s d []" and "ad_capacity d = 64" and "ad_heapLength d = 258048"
  by (rule mstore.abi_format_ok [of "zeros 262144" 262144 DEVNET_ABI_DRIVE_CONFIG])
    (auto simp: mem_ok_def abi_config_ok_def DEVNET_ABI_DRIVE_CONFIG_def)

theorem abi_register_implements_append_witness:
  "\<exists>s d s' d'. abi_register (\<lambda>_. []) MemStore (sample_address 9) KIND_APP [91, 93] (s, d) = (Ok (), (s', d')) \<and>
     abi_rep s' d' [\<lparr>ae_address = sample_address 9, ae_kind = KIND_APP, ae_abi = [91, 93]\<rparr>]"
proof (rule sample_abi_drive)
  fix s d
  assume d: "mem_ok s" "abi_rep s d []" "ad_capacity d = 64" "ad_heapLength d = 258048"
  have "spec_register (\<lambda>_. []) d (sample_address 9) KIND_APP [91, 93] [] =
      (Ok (), [\<lparr>ae_address = sample_address 9, ae_kind = KIND_APP, ae_abi = [91, 93]\<rparr>])"
    using d(3,4) by (simp add: spec_register_def heap_used_def)
  with abi_register_implements_append [OF d(1,2), of "sample_address 9" KIND_APP "\<lambda>_. []" "[91, 93]"] show ?thesis
    by (auto simp: KIND_APP_def)
qed

text \<open>C40. The ABI drive is read back exactly, also after a restart: the fields are recovered from the header, the listing returns the
  entries in the order of registration, and a lookup finds the text of its address.\<close>

theorem abi_drive_reads_back:
  assumes "mem_ok s" and "abi_rep s d es"
  shows "abi_open MemStore s = (Ok d, s) \<and> abi_entries MemStore (s, d) = (Ok es, (s, d)) \<and>
    abi_abiOf MemStore addr (s, d) = (Ok (map_option ae_abi (find (\<lambda>e. ae_address e = addr) es)), (s, d))"
  using mstore.abi_open_reads [OF assms] mstore.entries_reads [OF assms] mstore.entryOf_reads [OF assms, of addr]
  by (simp add: abi_abiOf_def)

theorem abi_drive_reads_back_witness:
  "\<exists>s d. abi_open MemStore s = (Ok d, s) \<and> abi_entries MemStore (s, d) = (Ok [], (s, d)) \<and> ad_capacity d = 64"
proof (rule sample_abi_drive)
  fix s d
  assume d: "mem_ok s" "abi_rep s d []" "ad_capacity d = 64"
  from abi_drive_reads_back [OF d(1,2)] d(3) show ?thesis by blast
qed

end
