(* ===== verification/Devnet_Env.thy ===== *)
theory Devnet_Env
  imports Drive_Codec
begin

text \<open>
  The configuration of the devnet (\<^verbatim>\<open>devnet/lib/env.ts\<close>): address files of \<^verbatim>\<open>KEY=value\<close> lines, laid over the
  process environment, laid over defaults. A file system is a map from paths to texts, \<^verbatim>\<open>process.env\<close> a map from names
  to texts; text is a list of characters up to U+00FF. What the module computes once at import and what it computes again on
  every call are separate functions of the files at hand.
\<close>

type_synonym files = "string \<rightharpoonup> string"
type_synonym vars = "string \<rightharpoonup> string"

section \<open>Text\<close>

definition is_digit :: "char \<Rightarrow> bool" where
  "is_digit c \<longleftrightarrow> 48 \<le> (of_char c :: nat) \<and> (of_char c :: nat) \<le> 57"

definition is_lower_hex :: "char \<Rightarrow> bool" where
  "is_lower_hex c \<longleftrightarrow> is_digit c \<or> 97 \<le> (of_char c :: nat) \<and> (of_char c :: nat) \<le> 102"

definition key_start :: "char \<Rightarrow> bool" where
  "key_start c \<longleftrightarrow> (let n = of_char c :: nat in 65 \<le> n \<and> n \<le> 90 \<or> 97 \<le> n \<and> n \<le> 122 \<or> n = 95)"

definition key_char :: "char \<Rightarrow> bool" where
  "key_char c \<longleftrightarrow> key_start c \<or> is_digit c"

text \<open>What \<^verbatim>\<open>.\<close> matches in a regular expression: anything but a line terminator.\<close>

definition dot_char :: "char \<Rightarrow> bool" where
  "dot_char c \<longleftrightarrow> (of_char c :: nat) \<noteq> 10 \<and> (of_char c :: nat) \<noteq> 13"

definition is_space :: "char \<Rightarrow> bool" where
  "is_space c \<longleftrightarrow> (let n = of_char c :: nat in 9 \<le> n \<and> n \<le> 13 \<or> n = 32 \<or> n = 160)"

definition js_trim :: "string \<Rightarrow> string" where
  "js_trim s = rev (dropWhile is_space (rev (dropWhile is_space s)))"

definition dec_val :: "string \<Rightarrow> nat" where
  "dec_val s = foldl (\<lambda>n c. 10 * n + (of_char c - 48)) 0 s"

text \<open>
  \<^verbatim>\<open>Number(text)\<close>. A run of digits up to 2^53 is that integer, as is the empty text; the number of any other literal,
  \<^verbatim>\<open>NaN\<close> included, stays written as its literal.
\<close>

datatype JsNumber = JInt nat | JLit string

definition Number :: "string \<Rightarrow> JsNumber" where
  "Number s = (let t = js_trim s in
     if list_all is_digit t \<and> dec_val t \<le> 2 ^ 53 then JInt (dec_val t) else JLit s)"

text \<open>\<^verbatim>\<open>String(number)\<close>; \<open>lit\<close> renders the numbers of the other literals.\<close>

fun String_of :: "(string \<Rightarrow> string) \<Rightarrow> JsNumber \<Rightarrow> string" where
  "String_of lit (JInt n) = dec n"
| "String_of lit (JLit s) = lit s"

text \<open>\<^verbatim>\<open>BigInt(text)\<close>: decimal digits with an optional sign, or a radix prefix with digits of that radix.\<close>

definition radix_val :: "nat \<Rightarrow> string \<Rightarrow> nat option" where
  "radix_val r s =
     (if s \<noteq> [] \<and> list_all (\<lambda>c. case hex_val c of None \<Rightarrow> False | Some d \<Rightarrow> d < r) s
      then Some (foldl (\<lambda>n c. r * n + the (hex_val c)) 0 s) else None)"

definition toBigInt :: "string \<Rightarrow> int res" where
  "toBigInt s = (let t = js_trim s; bad = Throw (Error (''Cannot convert '' @ s @ '' to a BigInt'')) in
     if t = [] then Ok 0
     else if take 2 t = ''0x'' \<or> take 2 t = ''0X'' then (case radix_val 16 (drop 2 t) of None \<Rightarrow> bad | Some n \<Rightarrow> Ok (int n))
     else if take 2 t = ''0o'' \<or> take 2 t = ''0O'' then (case radix_val 8 (drop 2 t) of None \<Rightarrow> bad | Some n \<Rightarrow> Ok (int n))
     else if take 2 t = ''0b'' \<or> take 2 t = ''0B'' then (case radix_val 2 (drop 2 t) of None \<Rightarrow> bad | Some n \<Rightarrow> Ok (int n))
     else if hd t = CHR ''-'' then (case radix_val 10 (tl t) of None \<Rightarrow> bad | Some n \<Rightarrow> Ok (- int n))
     else (case radix_val 10 (if hd t = CHR ''+'' then tl t else t) of None \<Rightarrow> bad | Some n \<Rightarrow> Ok (int n)))"

section \<open>Paths\<close>

record Paths =
  pa_devnet :: string
  pa_repo :: string
  pa_opCartesiBin :: string
  pa_jwtSecret :: string
  pa_rollupConfig :: string
  pa_l1ChainConfig :: string
  pa_l1Addresses :: string
  pa_chainGenesis :: string
  pa_outputsAddresses :: string
  pa_tokenEnv :: string
  pa_deployWorkdir :: string
  pa_chainFlags :: string

text \<open>\<^verbatim>\<open>node:path\<close>'s join of a normalised directory and a plain name.\<close>

definition path_join :: "string \<Rightarrow> string \<Rightarrow> string" where
  "path_join dir name = (if dir \<noteq> [] \<and> last dir = CHR ''/'' then dir @ name else dir @ ''/'' @ name)"

definition or_else :: "'a option \<Rightarrow> 'a \<Rightarrow> 'a" where
  "or_else x d = (case x of None \<Rightarrow> d | Some v \<Rightarrow> v)"

definition paths :: "string \<Rightarrow> string \<Rightarrow> vars \<Rightarrow> Paths" where
  "paths devnetDir repoDir penv =
     \<lparr>pa_devnet = devnetDir, pa_repo = repoDir,
      pa_opCartesiBin = path_join (path_join repoDir ''bin'') ''op-cartesi'',
      pa_jwtSecret = or_else (penv ''JWT_SECRET_FILE'') (path_join devnetDir ''jwt.hex''),
      pa_rollupConfig = or_else (penv ''ROLLUP_CONFIG_FILE'') (path_join devnetDir ''rollup.json''),
      pa_l1ChainConfig = or_else (penv ''L1_CHAIN_CONFIG'') (path_join devnetDir ''l1-chain-config.json''),
      pa_l1Addresses = path_join devnetDir ''l1-addresses.env'',
      pa_chainGenesis = path_join devnetDir ''chain-genesis.env'',
      pa_outputsAddresses = or_else (penv ''OUTPUTS_ENV_FILE'') (path_join devnetDir ''outputs-addresses.env''),
      pa_tokenEnv = or_else (penv ''TOKEN_ENV_FILE'') (path_join devnetDir ''token.env''),
      pa_deployWorkdir = or_else (penv ''DEPLOY_WORKDIR'') (path_join devnetDir ''deployment''),
      pa_chainFlags = or_else (penv ''CHAIN_FLAGS_FILE'') (path_join devnetDir ''chain-flags'')\<rparr>"

section \<open>Address files\<close>

text \<open>
  One line against \<^verbatim>\<open>/^([A-Za-z_][A-Za-z0-9_]*)=("?)(.*)\2$/\<close>. The key is the longest run of key characters, since
  what follows it must be the equals sign. The optional quote is tried first and kept when the line ends in a quote of
  its own; otherwise it is part of the value.
\<close>

definition env_line :: "string \<Rightarrow> (string \<times> string) option" where
  "env_line line =
     (let k = takeWhile key_char line; r = dropWhile key_char line in
      if k = [] \<or> \<not> key_start (hd k) \<or> r = [] \<or> hd r \<noteq> CHR ''='' then None
      else
        let v = tl r; quote = CHR 0x22 in
        if 2 \<le> length v \<and> hd v = quote \<and> last v = quote \<and> list_all dot_char (butlast (tl v)) then Some (k, butlast (tl v))
        else if list_all dot_char v then Some (k, v)
        else None)"

text \<open>An assignment to \<^verbatim>\<open>__proto__\<close> of a plain object adds no property when the value is a string.\<close>

definition set_var :: "string \<times> string \<Rightarrow> vars \<Rightarrow> vars" where
  "set_var kv m = (if fst kv = ''__proto__'' then m else m(fst kv \<mapsto> snd kv))"

definition parse_env :: "string \<Rightarrow> vars" where
  "parse_env text = fold (\<lambda>line m. case env_line line of None \<Rightarrow> m | Some kv \<Rightarrow> set_var kv m)
     (split_on (CHR 0x0A) text) Map.empty"

definition readEnvFile :: "files \<Rightarrow> string \<Rightarrow> vars" where
  "readEnvFile fs path = (case fs path of None \<Rightarrow> Map.empty | Some text \<Rightarrow> parse_env text)"

text \<open>The \<^verbatim>\<open>.env\<close> of the repository, below what the environment has.\<close>

definition load_dotenv :: "files \<Rightarrow> string \<Rightarrow> vars \<Rightarrow> vars" where
  "load_dotenv fs repoDir penv = readEnvFile fs (path_join repoDir ''.env'') ++ penv"

definition deploymentVars :: "files \<Rightarrow> Paths \<Rightarrow> vars" where
  "deploymentVars fs P =
     readEnvFile fs (pa_l1Addresses P) ++ readEnvFile fs (pa_chainGenesis P) ++
     readEnvFile fs (pa_outputsAddresses P) ++ readEnvFile fs (pa_tokenEnv P)"

definition pick :: "vars \<Rightarrow> vars \<Rightarrow> string \<Rightarrow> string option" where
  "pick fv penv name = (case fv name of Some v \<Rightarrow> Some v | None \<Rightarrow> penv name)"

text \<open>\<^verbatim>\<open>env\<close> over the variables read at import, and \<^verbatim>\<open>value\<close> over those read by a call: the same lookup.\<close>

definition env_value :: "vars \<Rightarrow> vars \<Rightarrow> string \<Rightarrow> string \<Rightarrow> string" where
  "env_value fv penv name fallback = or_else (pick fv penv name) fallback"

definition num_env :: "vars \<Rightarrow> string \<Rightarrow> nat \<Rightarrow> JsNumber" where
  "num_env penv name fallback =
     (case penv name of None \<Rightarrow> JInt fallback | Some v \<Rightarrow> if v = [] then JInt fallback else Number v)"

definition hex_text :: "nat \<Rightarrow> string \<Rightarrow> bool" where
  "hex_text n v \<longleftrightarrow> length v = n + 2 \<and> take 2 v = ''0x'' \<and> list_all is_lower_hex (drop 2 v)"

definition isAddress :: "string \<Rightarrow> bool" where
  "isAddress v = hex_text 40 v"

definition isHash :: "string \<Rightarrow> bool" where
  "isHash v = hex_text 64 v"

definition addressEnv :: "vars \<Rightarrow> vars \<Rightarrow> string \<Rightarrow> string \<Rightarrow> string res" where
  "addressEnv fv penv name fallback =
     (let v = toLowerCase (env_value fv penv name fallback) in
      if isAddress v then Ok v else Throw (Error (name @ '' is not a 20-byte hex address: '' @ v)))"

definition hashEnv :: "vars \<Rightarrow> vars \<Rightarrow> string \<Rightarrow> string \<Rightarrow> string res" where
  "hashEnv fv penv name fallback =
     (let v = toLowerCase (env_value fv penv name fallback) in
      if isHash v then Ok v else Throw (Error (name @ '' is not a 32-byte hex hash: '' @ v)))"

definition optionalAddress :: "vars \<Rightarrow> vars \<Rightarrow> string \<Rightarrow> string option" where
  "optionalAddress fv penv name =
     (case pick fv penv name of None \<Rightarrow> None
      | Some v \<Rightarrow> if isAddress (toLowerCase v) then Some (toLowerCase v) else None)"

section \<open>Defaults\<close>

definition ANVIL_0_KEY :: string where
  "ANVIL_0_KEY = ''0xac0974bec39a17e36ba4a6b4d238ff944bacb478cbed5efcae784d7bf4f2ff80''"
definition ANVIL_1_KEY :: string where
  "ANVIL_1_KEY = ''0x59c6995e998f97a5a0044966f0945389dc9e86dae88c7a8412f4603b6b78690d''"
definition ANVIL_2_KEY :: string where
  "ANVIL_2_KEY = ''0x5de4111afa1a4b94908f83103eb1f1706367c2e68ca870fc3fb9a804cdab365a''"
definition ANVIL_3_KEY :: string where
  "ANVIL_3_KEY = ''0x7c852118294e51e653712a81e05800f419141751be58f605c371e15141b007a6''"
definition ANVIL_0 :: string where "ANVIL_0 = ''0xf39Fd6e51aad88F6F4ce6aB8827279cffFb92266''"
definition ANVIL_2 :: string where "ANVIL_2 = ''0x3C44CdDdB6a900fa2b585dd299e03d12FA4293BC''"
definition ANVIL_3 :: string where "ANVIL_3 = ''0x90F79bf6EB2c4f870365E785982E1f101E93b906''"
definition SEQUENCER_ADDRESS_DEFAULT :: string where
  "SEQUENCER_ADDRESS_DEFAULT = ''0x15d34AAf54267DB7D7c367839AAf71A00a2C6A65''"
definition httpAddrDefault :: string where "httpAddrDefault = ''127.0.0.1:8545''"

section \<open>What is configured\<close>

record DevnetConfig =
  cf_l1ChainId :: JsNumber
  cf_l2ChainId :: JsNumber
  cf_l1Rpc :: string
  cf_l2Rpc :: string
  cf_depositorKey :: string
  cf_senderKey :: string
  cf_callerKey :: string
  cf_depositGasLimit :: int
  cf_depositContract :: string
  cf_disputeGameFactory :: "string option"
  cf_outputsValidator :: "string option"
  cf_outputExecutor :: "string option"
  cf_l1StandardBridge :: "string option"
  cf_l1CrossDomainMessenger :: "string option"
  cf_testToken :: "string option"
  cf_tokenEnvFile :: string

definition config :: "(string \<Rightarrow> string) \<Rightarrow> Paths \<Rightarrow> vars \<Rightarrow> vars \<Rightarrow> DevnetConfig res" where
  "config lit P fv penv =
     rbind (toBigInt (env_value fv penv ''DEPOSIT_GAS_LIMIT'' ''1000000'')) (\<lambda>gas.
     rbind (addressEnv fv penv ''DEPOSIT_CONTRACT_ADDRESS'' ''0x6900000000000000000000000000000000000001'') (\<lambda>portal.
     Ok \<lparr>cf_l1ChainId = Number (env_value fv penv ''L1_CHAIN_ID'' ''900''),
         cf_l2ChainId = Number (env_value fv penv ''L2_CHAIN_ID'' ''901''),
         cf_l1Rpc = env_value fv penv ''L1_RPC'' (''http://127.0.0.1:'' @ String_of lit (num_env penv ''L1_PORT'' 8600)),
         cf_l2Rpc = env_value fv penv ''L2_RPC'' (''http://'' @ env_value fv penv ''HTTP_ADDR'' httpAddrDefault),
         cf_depositorKey = env_value fv penv ''DEPOSITOR_KEY'' ANVIL_1_KEY,
         cf_senderKey = env_value fv penv ''SENDER_KEY'' ANVIL_3_KEY,
         cf_callerKey = env_value fv penv ''CALLER_KEY'' ANVIL_3_KEY,
         cf_depositGasLimit = gas, cf_depositContract = portal,
         cf_disputeGameFactory = optionalAddress fv penv ''DISPUTE_GAME_FACTORY_ADDRESS'',
         cf_outputsValidator = optionalAddress fv penv ''OUTPUTS_VALIDATOR_ADDRESS'',
         cf_outputExecutor = optionalAddress fv penv ''OUTPUT_EXECUTOR_ADDRESS'',
         cf_l1StandardBridge = optionalAddress fv penv ''L1_STANDARD_BRIDGE_ADDRESS'',
         cf_l1CrossDomainMessenger = optionalAddress fv penv ''L1_CROSS_DOMAIN_MESSENGER_ADDRESS'',
         cf_testToken = optionalAddress fv penv ''TEST_TOKEN_ADDRESS'',
         cf_tokenEnvFile = pa_tokenEnv P\<rparr>))"

record Stack =
  st_l1Port :: JsNumber
  st_engineAddr :: string
  st_httpAddr :: string
  st_snapshotDir :: string
  st_dataDir :: string

definition stack :: "Paths \<Rightarrow> vars \<Rightarrow> vars \<Rightarrow> Stack" where
  "stack P fv penv =
     \<lparr>st_l1Port = num_env penv ''L1_PORT'' 8600,
      st_engineAddr = env_value fv penv ''ENGINE_ADDR'' ''127.0.0.1:8551'',
      st_httpAddr = env_value fv penv ''HTTP_ADDR'' httpAddrDefault,
      st_snapshotDir = or_else (penv ''SNAPSHOT_DIR'') (path_join (path_join (pa_repo P) ''.cartesi'') ''image''),
      st_dataDir = or_else (penv ''DATA_DIR'') []\<rparr>"

record ChainParams =
  cp_l1ChainId :: JsNumber
  cp_l2ChainId :: JsNumber
  cp_blockTime :: JsNumber
  cp_gasLimit :: string
  cp_maxCyclesPerInput :: string
  cp_checkpointInterval :: string
  cp_genesisTimestamp :: string
  cp_l1GenesisHash :: string
  cp_l1GenesisNumber :: string
  cp_batcherAddress :: string
  cp_batchInboxAddress :: string
  cp_depositContractAddress :: string
  cp_l1SystemConfigAddress :: string
  cp_baseFeeScalar :: string
  cp_blobBaseFeeScalar :: string
  cp_eip1559Denominator :: string
  cp_eip1559Elasticity :: string

definition chain_params :: "vars \<Rightarrow> vars \<Rightarrow> ChainParams res" where
  "chain_params fv penv = (let val = env_value fv penv in
     rbind (hashEnv fv penv ''L1_GENESIS_HASH'' (''0x'' @ replicate 64 (CHR ''0''))) (\<lambda>hash.
     rbind (addressEnv fv penv ''BATCHER_ADDRESS'' ANVIL_0) (\<lambda>batcher.
     rbind (addressEnv fv penv ''BATCH_INBOX_ADDRESS'' ''0xff00000000000000000000000000000000000901'') (\<lambda>inbox.
     rbind (addressEnv fv penv ''DEPOSIT_CONTRACT_ADDRESS'' ''0x6900000000000000000000000000000000000001'') (\<lambda>portal.
     rbind (addressEnv fv penv ''L1_SYSTEM_CONFIG_ADDRESS'' ''0x6900000000000000000000000000000000000002'') (\<lambda>sysconfig.
     Ok \<lparr>cp_l1ChainId = Number (val ''L1_CHAIN_ID'' ''900''), cp_l2ChainId = Number (val ''L2_CHAIN_ID'' ''901''),
         cp_blockTime = Number (val ''BLOCK_TIME'' ''2''), cp_gasLimit = val ''GAS_LIMIT'' ''30000000'',
         cp_maxCyclesPerInput = val ''MAX_CYCLES_PER_INPUT'' ''1000000000'',
         cp_checkpointInterval = val ''CHECKPOINT_INTERVAL'' ''25'',
         cp_genesisTimestamp = val ''GENESIS_TIMESTAMP'' ''0'',
         cp_l1GenesisHash = hash, cp_l1GenesisNumber = val ''L1_GENESIS_NUMBER'' ''0'',
         cp_batcherAddress = batcher, cp_batchInboxAddress = inbox, cp_depositContractAddress = portal,
         cp_l1SystemConfigAddress = sysconfig,
         cp_baseFeeScalar = val ''BASE_FEE_SCALAR'' ''1368'',
         cp_blobBaseFeeScalar = val ''BLOB_BASE_FEE_SCALAR'' ''810949'',
         cp_eip1559Denominator = val ''EIP1559_DENOMINATOR'' ''50'',
         cp_eip1559Elasticity = val ''EIP1559_ELASTICITY'' ''6''\<rparr>))))))"

definition chainParams :: "files \<Rightarrow> Paths \<Rightarrow> vars \<Rightarrow> ChainParams res" where
  "chainParams fs P penv = chain_params (deploymentVars fs P) penv"

record Addresses =
  da_batcherKey :: string
  da_proposerKey :: string
  da_proposerAddress :: string
  da_sequencerAddress :: string
  da_deployerKey :: string
  da_deployerAddress :: string
  da_guestOwner :: string
  da_guestConfigAddress :: string
  da_disputeGameFactory :: "string option"
  da_disputeGameType :: string
  da_outputsValidator :: "string option"
  da_outputExecutor :: "string option"
  da_l1StandardBridge :: "string option"
  da_l1CrossDomainMessenger :: "string option"

definition addresses :: "files \<Rightarrow> Paths \<Rightarrow> vars \<Rightarrow> Addresses res" where
  "addresses fs P penv = (let fv = deploymentVars fs P; val = env_value fv penv; opt = optionalAddress fv penv in
     rbind (addressEnv fv penv ''PROPOSER_ADDRESS'' ANVIL_2) (\<lambda>proposer.
     rbind (addressEnv fv penv ''SEQUENCER_ADDRESS'' SEQUENCER_ADDRESS_DEFAULT) (\<lambda>sequencer.
     rbind (addressEnv fv penv ''DEPLOYER_ADDRESS'' ANVIL_3) (\<lambda>deployer.
     rbind (addressEnv fv penv ''GUEST_OWNER'' ANVIL_3) (\<lambda>owner.
     rbind (addressEnv fv penv ''GUEST_CONFIG_ADDRESS'' ''0xc751000000000000000000000000000000000002'') (\<lambda>conf.
     Ok \<lparr>da_batcherKey = val ''BATCHER_KEY'' ANVIL_0_KEY, da_proposerKey = val ''PROPOSER_KEY'' ANVIL_2_KEY,
         da_proposerAddress = proposer, da_sequencerAddress = sequencer,
         da_deployerKey = val ''DEPLOYER_KEY'' ANVIL_3_KEY, da_deployerAddress = deployer,
         da_guestOwner = owner, da_guestConfigAddress = conf,
         da_disputeGameFactory = opt ''DISPUTE_GAME_FACTORY_ADDRESS'', da_disputeGameType = val ''DISPUTE_GAME_TYPE'' ''1'',
         da_outputsValidator = opt ''OUTPUTS_VALIDATOR_ADDRESS'', da_outputExecutor = opt ''OUTPUT_EXECUTOR_ADDRESS'',
         da_l1StandardBridge = opt ''L1_STANDARD_BRIDGE_ADDRESS'',
         da_l1CrossDomainMessenger = opt ''L1_CROSS_DOMAIN_MESSENGER_ADDRESS''\<rparr>))))))"

end
