(* ===== verification/Devnet_Chain.thy ===== *)
theory Devnet_Chain
  imports Devnet_Env
begin

text \<open>
  The steps that bring the devnet's chain up: recording a deployment (\<^verbatim>\<open>devnet/deploy-l1.ts\<close>,
  \<^verbatim>\<open>devnet/deploy-outputs.ts\<close>), anchoring the rollup (\<^verbatim>\<open>devnet/lib/genesis.ts\<close>), the command lines of the engine
  (\<^verbatim>\<open>devnet/lib/opcartesi.ts\<close>) and the genesis step of the compose file (\<^verbatim>\<open>devnet/compose/genesis.ts\<close>,
  \<^verbatim>\<open>devnet/compose/live.ts\<close>). A step runs on a host: its files, what it said and printed, the commands it
  started and the transactions it sent. The L1 node and
  the programs a step starts are parameters. A dash outside Latin-1 in a message is written as a hyphen.
\<close>

section \<open>Steps\<close>

text \<open>The transactions a step sends to L1.\<close>

datatype L1Tx = Fund string int | DepositCall string int int bool string

record Host =
  ho_files :: files
  ho_said :: "string list"
  ho_out :: "string list"
  ho_ran :: "string list list"
  ho_sent :: "L1Tx list"

text \<open>A step goes on with a value, or the process is over with an exit code.\<close>

datatype 'a status = Done 'a | Exited nat

type_synonym 'a step = "Host \<Rightarrow> 'a status \<times> Host"

definition hret :: "'a \<Rightarrow> 'a step" where
  "hret a h = (Done a, h)"

definition hbnd :: "'a step \<Rightarrow> ('a \<Rightarrow> 'b step) \<Rightarrow> 'b step" where
  "hbnd m f h = (case m h of (Done a, h') \<Rightarrow> f a h' | (Exited n, h') \<Rightarrow> (Exited n, h'))"

definition hfiles :: "(files \<Rightarrow> 'a) \<Rightarrow> 'a step" where
  "hfiles f h = (Done (f (ho_files h)), h)"

definition say :: "string \<Rightarrow> unit step" where
  "say message h = (Done (), h\<lparr>ho_said := ho_said h @ [''==> '' @ message]\<rparr>)"

definition die :: "string \<Rightarrow> 'a step" where
  "die message h = (Exited 1, h\<lparr>ho_said := ho_said h @ [''!!! '' @ message]\<rparr>)"

definition alreadyDone :: "string \<Rightarrow> 'a step" where
  "alreadyDone what h = (Exited 0, h\<lparr>ho_said := ho_said h @ [''==> '' @ what @ '' - nothing to do'']\<rparr>)"

definition log_lines :: "string list \<Rightarrow> unit step" where
  "log_lines ls h = (Done (), h\<lparr>ho_out := ho_out h @ ls\<rparr>)"

definition first_line :: "string \<Rightarrow> string" where
  "first_line s = hd (split_on (CHR 0x0A) s)"

text \<open>An exception nobody catches: its first line, the hint, and exit code 1 (\<^verbatim>\<open>reportAndExit\<close>, with \<^verbatim>\<open>DEVNET_DEBUG\<close> unset; set, it
  prints the exception whole and exits the same way).\<close>

definition reportAndExit :: "string \<Rightarrow> 'a step" where
  "reportAndExit message h = (Exited 1, h\<lparr>ho_said := ho_said h @ [''!!! '' @ first_line message, ''    (DEVNET_DEBUG=1 for the full error)'']\<rparr>)"

fun uncaught :: "'a res \<Rightarrow> 'a step" where
  "uncaught (Ok a) = hret a"
| "uncaught (Throw (Error m)) = reportAndExit m"
| "uncaught r = reportAndExit []"

definition writeFile :: "string \<Rightarrow> string \<Rightarrow> unit step" where
  "writeFile path text h = (Done (), h\<lparr>ho_files := (ho_files h)(path \<mapsto> text)\<rparr>)"

definition forget :: "string \<Rightarrow> unit step" where
  "forget path h = (Done (), h\<lparr>ho_files := (ho_files h)(path := None)\<rparr>)"

record RunOptions =
  ro_cwd :: "string option"
  ro_env :: "(string \<times> string) list"
  ro_capture :: bool

abbreviation no_options :: RunOptions where
  "no_options \<equiv> \<lparr>ro_cwd = None, ro_env = [], ro_capture = False\<rparr>"

abbreviation captured :: RunOptions where
  "captured \<equiv> \<lparr>ro_cwd = None, ro_env = [], ro_capture = True\<rparr>"

abbreviation run_in :: "string \<Rightarrow> RunOptions" where
  "run_in dir \<equiv> \<lparr>ro_cwd = Some dir, ro_env = [], ro_capture = False\<rparr>"

text \<open>A program: its exit code, what it prints and the files it leaves, from its command line, the options it is started with
  and the files it finds. The environment of the process, which it inherits, is the same for all.\<close>

type_synonym programs = "string list \<Rightarrow> RunOptions \<Rightarrow> files \<Rightarrow> nat \<times> string \<times> files"

definition run_cmd :: "programs \<Rightarrow> string list \<Rightarrow> RunOptions \<Rightarrow> (nat \<times> string) step" where
  "run_cmd spawn cmd opts h = (case spawn cmd opts (ho_files h) of (code, stdout, fs) \<Rightarrow>
     (Done (code, if ro_capture opts then stdout else []), h\<lparr>ho_files := fs, ho_ran := ho_ran h @ [cmd]\<rparr>))"

definition exec_cmd :: "programs \<Rightarrow> string list \<Rightarrow> RunOptions \<Rightarrow> 'a step" where
  "exec_cmd spawn cmd opts = hbnd (run_cmd spawn cmd opts) (\<lambda>(code, _) h. (Exited code, h))"

definition must_cmd :: "programs \<Rightarrow> string list \<Rightarrow> RunOptions \<Rightarrow> string step" where
  "must_cmd spawn cmd opts = hbnd (run_cmd spawn cmd opts) (\<lambda>(code, stdout).
     if code \<noteq> 0 then die (hd cmd @ '' exited '' @ dec code) else hret stdout)"

section \<open>Keys\<close>

definition asKey :: "string \<Rightarrow> string res" where
  "asKey key = (let k = toLowerCase key in
     if hex_text 64 k then Ok k else Throw (Error (''not a 32-byte hex private key: '' @ key)))"

section \<open>The L1 node\<close>

record L1Block =
  bk_hash :: string
  bk_number :: nat
  bk_timestamp :: nat

text \<open>
  Its answers: \<^verbatim>\<open>getBlock\<close> by number, \<open>None\<close> where the request fails; \<^verbatim>\<open>getCode\<close>, \<open>None\<close> where it is undefined; the
  \<^verbatim>\<open>scalar\<close> of a \<^verbatim>\<open>SystemConfig\<close>; and whether the node answers at all, takes \<^verbatim>\<open>anvil_setCode\<close>, and mines a
  transaction sent to it.
\<close>

record L1 =
  l1_getBlock :: "int \<Rightarrow> L1Block option"
  l1_getCode :: "string \<Rightarrow> string option"
  l1_scalar :: "string \<Rightarrow> nat option"
  l1_answers :: bool
  l1_setCode :: "string \<Rightarrow> bool"
  l1_mines :: "L1Tx \<Rightarrow> bool"

section \<open>Recording a deployment\<close>

text \<open>What \<^verbatim>\<open>JSON.parse\<close> finds in the reports of \<^verbatim>\<open>op-deployer inspect l1\<close> and \<^verbatim>\<open>inspect rollup\<close>: the properties
  the step reads, as text.\<close>

record L1Out =
  dp_OptimismPortalProxy :: string
  dp_SystemConfigProxy :: string
  dp_DisputeGameFactoryProxy :: string
  dp_L1StandardBridgeProxy :: string
  dp_L1CrossDomainMessengerProxy :: string
  dp_AnchorStateRegistryProxy :: string

record RollupOut =
  dp_batch_inbox_address :: string
  dp_genesis_hash :: string
  dp_genesis_number :: string

definition decodeScalar :: "nat \<Rightarrow> (nat \<times> nat) step" where
  "decodeScalar scalar =
     (let version = drop_bit 248 scalar in
      if version \<noteq> 1 then die (''SystemConfig scalar is version '' @ dec version @ '', not Ecotone (1)'')
      else hret (scalar AND 0xffffffff, drop_bit 32 scalar AND 0xffffffff))"

definition assign :: "string \<Rightarrow> string \<Rightarrow> string" where
  "assign name v = name @ ''='' @ v"

definition l1_lines :: "L1Out \<Rightarrow> RollupOut \<Rightarrow> nat \<Rightarrow> nat \<Rightarrow> string list" where
  "l1_lines dp ro base blob =
     [''# Written by devnet/deploy-l1.ts. Read back by devnet/lib/env.ts.'',
      ''# Addresses of the OP Stack contracts deployed on the devnet L1.'',
      assign ''DEPOSIT_CONTRACT_ADDRESS'' (dp_OptimismPortalProxy dp),
      assign ''L1_SYSTEM_CONFIG_ADDRESS'' (dp_SystemConfigProxy dp),
      assign ''BATCH_INBOX_ADDRESS'' (dp_batch_inbox_address ro),
      assign ''DISPUTE_GAME_FACTORY_ADDRESS'' (dp_DisputeGameFactoryProxy dp),
      assign ''L1_STANDARD_BRIDGE_ADDRESS'' (dp_L1StandardBridgeProxy dp),
      assign ''L1_CROSS_DOMAIN_MESSENGER_ADDRESS'' (dp_L1CrossDomainMessengerProxy dp),
      assign ''ANCHOR_STATE_REGISTRY_ADDRESS'' (dp_AnchorStateRegistryProxy dp),
      ''# The rollup starts after the block the contracts landed in, not'',
      ''# at L1 genesis: before this block there is no SystemConfig to read.'',
      assign ''L1_GENESIS_HASH'' (dp_genesis_hash ro),
      assign ''L1_GENESIS_NUMBER'' (dp_genesis_number ro),
      assign ''BASE_FEE_SCALAR'' (dec base),
      assign ''BLOB_BASE_FEE_SCALAR'' (dec blob)]"

definition strip_prefix :: "string \<Rightarrow> string \<Rightarrow> string option" where
  "strip_prefix p s = (if take (length p) s = p then Some (drop (length p) s) else None)"

subsection \<open>The intent\<close>

text \<open>
  \<^verbatim>\<open>String.replace\<close> with a global pattern that has one group. A matcher is given the character before and the text
  from the position on, and answers with the group and the length of the match. \<open>subst_template\<close> is the substitution in
  the replacement: the dollar itself, the match, what precedes and what follows it, and the group, written with one or two
  digits.
\<close>

type_synonym matcher = "char option \<Rightarrow> string \<Rightarrow> (string \<times> nat) option"

fun subst_template :: "string \<Rightarrow> string \<Rightarrow> string \<Rightarrow> string \<Rightarrow> string \<Rightarrow> string" where
  "subst_template before matched after grp [] = []"
| "subst_template before matched after grp [c] = [c]"
| "subst_template before matched after grp (c # d # t) =
     (if c \<noteq> CHR ''$'' then c # subst_template before matched after grp (d # t)
      else if d = CHR ''$'' then CHR ''$'' # subst_template before matched after grp t
      else if d = CHR ''&'' then matched @ subst_template before matched after grp t
      else if d = CHR 0x60 then before @ subst_template before matched after grp t
      else if d = CHR 0x27 then after @ subst_template before matched after grp t
      else if d = CHR ''1'' then grp @ subst_template before matched after grp t
      else if d = CHR ''0'' \<and> t \<noteq> [] \<and> hd t = CHR ''1'' then grp @ subst_template before matched after grp (tl t)
      else c # subst_template before matched after grp (d # t))"

function replace_all :: "matcher \<Rightarrow> string \<Rightarrow> string \<Rightarrow> string \<Rightarrow> string" where
  "replace_all m template before [] = []"
| "replace_all m template before (c # s) =
     (case m (if before = [] then None else Some (last before)) (c # s) of
        Some (grp, n) \<Rightarrow>
          if n = 0 then c # replace_all m template (before @ [c]) s
          else subst_template before (take n (c # s)) (drop n (c # s)) grp template @
            replace_all m template (before @ take n (c # s)) (drop n (c # s))
      | None \<Rightarrow> c # replace_all m template (before @ [c]) s)"
  by pat_completeness auto
termination
  by (relation "measure (\<lambda>(m, t, b, s). length s)") auto

text \<open>\<^verbatim>\<open>\s*KEY\s*=\s*\<close>: the group, and what follows it.\<close>

definition assignment_at :: "string \<Rightarrow> string \<Rightarrow> (string \<times> string) option" where
  "assignment_at key s =
     (case strip_prefix key (dropWhile is_space s) of
        None \<Rightarrow> None
      | Some r \<Rightarrow>
          (case strip_prefix ''='' (dropWhile is_space r) of
             None \<Rightarrow> None
           | Some r' \<Rightarrow>
               let rest = dropWhile is_space r' in Some (take (length s - length rest) s, rest)))"

definition line_start :: "char option \<Rightarrow> bool" where
  "line_start before = (case before of None \<Rightarrow> True | Some c \<Rightarrow> \<not> dot_char c)"

definition role_match :: "string \<Rightarrow> matcher" where
  "role_match key before s =
     (if \<not> line_start before then None
      else case assignment_at key s of
        None \<Rightarrow> None
      | Some (grp, rest) \<Rightarrow>
          if take 44 rest = [CHR 0x22] @ ''0x'' @ replicate 40 (CHR ''0'') @ [CHR 0x22] then Some (grp, length grp + 44) else None)"

definition word_match :: "string \<Rightarrow> matcher" where
  "word_match key before s =
     (if (case before of None \<Rightarrow> False | Some c \<Rightarrow> key_char c) \<or> strip_prefix key s = None then None
      else case assignment_at key s of
        None \<Rightarrow> None
      | Some (grp, rest) \<Rightarrow>
          if rest \<noteq> [] \<and> hd rest = CHR ''0'' \<and> (tl rest = [] \<or> \<not> key_char (hd (tl rest))) then Some (grp, length grp + 1) else None)"

definition number_match :: "string \<Rightarrow> matcher" where
  "number_match key before s =
     (if \<not> line_start before then None
      else case assignment_at key s of
        None \<Rightarrow> None
      | Some (grp, rest) \<Rightarrow>
          let digits = takeWhile is_digit rest in
          if digits \<noteq> [] then Some (grp, length grp + length digits) else None)"

definition intent_roles :: "Addresses \<Rightarrow> ChainParams \<Rightarrow> (string \<times> string) list" where
  "intent_roles a p =
     [(''SuperchainProxyAdminOwner'', da_deployerAddress a), (''SuperchainGuardian'', da_deployerAddress a),
      (''Challenger'', da_deployerAddress a), (''l1ProxyAdminOwner'', da_deployerAddress a),
      (''l2ProxyAdminOwner'', da_deployerAddress a), (''systemConfigOwner'', da_deployerAddress a),
      (''challenger'', da_deployerAddress a), (''unsafeBlockSigner'', da_sequencerAddress a),
      (''batcher'', cp_batcherAddress p), (''proposer'', da_proposerAddress a),
      (''baseFeeVaultRecipient'', da_deployerAddress a), (''l1FeeVaultRecipient'', da_deployerAddress a),
      (''sequencerFeeVaultRecipient'', da_deployerAddress a), (''operatorFeeVaultRecipient'', da_deployerAddress a)]"

definition fillIntent :: "Addresses \<Rightarrow> ChainParams \<Rightarrow> string \<Rightarrow> string" where
  "fillIntent a p intent =
     (let out = fold (\<lambda>(key, v) out. replace_all (role_match key) (''$1'' @ [CHR 0x22] @ v @ [CHR 0x22]) [] out) (intent_roles a p) intent;
          out = replace_all (word_match ''eip1559DenominatorCanyon'') (''$1'' @ cp_eip1559Denominator p) [] out;
          out = replace_all (word_match ''eip1559Denominator'') (''$1'' @ cp_eip1559Denominator p) [] out;
          out = replace_all (word_match ''eip1559Elasticity'') (''$1'' @ cp_eip1559Elasticity p) [] out in
      replace_all (number_match ''gasLimit'') (''$1'' @ cp_gasLimit p) [] out)"

subsection \<open>Deploying\<close>

definition rm_rf :: "string \<Rightarrow> files \<Rightarrow> files" where
  "rm_rf dir fs = (\<lambda>path. if path = dir \<or> take (length dir + 1) path = dir @ ''/'' then None else fs path)"

text \<open>Whether a command is on \<^verbatim>\<open>PATH\<close> (\<^verbatim>\<open>Bun.which\<close>), and how the two reports parse.\<close>

record Tools =
  to_which :: "string \<Rightarrow> bool"
  to_inspectL1 :: "string \<Rightarrow> L1Out option"
  to_inspectRollup :: "string \<Rightarrow> RollupOut option"

definition MULTICALL3_ADDRESS :: string where
  "MULTICALL3_ADDRESS = ''0xca11bde05977b3631167028862be2a173976ca11''"

definition hsome :: "'a option \<Rightarrow> string \<Rightarrow> 'a step" where
  "hsome x message = (case x of None \<Rightarrow> reportAndExit message | Some a \<Rightarrow> hret a)"

definition deployer :: "Tools \<Rightarrow> string list step" where
  "deployer tools = (if to_which tools ''op-deployer'' then hret [''op-deployer'']
     else die ''op-deployer is not on PATH - run this step with `docker compose run --rm l1-contracts`'')"

text \<open>\<open>l1Rpc\<close> is the address \<^verbatim>\<open>config\<close> was given at import.\<close>

definition deployL1 ::
  "(string \<Rightarrow> string) \<Rightarrow> programs \<Rightarrow> Tools \<Rightarrow> L1 \<Rightarrow> Paths \<Rightarrow> vars \<Rightarrow> string \<Rightarrow> unit step" where
  "deployL1 lit spawn tools l1 P penv l1Rpc =
     hbnd (forget (pa_l1Addresses P)) (\<lambda>_.
     hbnd (hfiles (\<lambda>fs. chainParams fs P penv)) (\<lambda>r. hbnd (uncaught r) (\<lambda>p.
     hbnd (hfiles (\<lambda>fs. addresses fs P penv)) (\<lambda>r. hbnd (uncaught r) (\<lambda>a.
     hbnd (if l1_answers l1 then hret () else die (''no L1 at '' @ l1Rpc @ '' - start one first'')) (\<lambda>_.
     hbnd (say (''placing Multicall3 at '' @ MULTICALL3_ADDRESS)) (\<lambda>_.
     hbnd (if l1_setCode l1 MULTICALL3_ADDRESS then hret () else reportAndExit ''anvil_setCode'') (\<lambda>_.
     hbnd (deployer tools) (\<lambda>opDeployer.
     hbnd (\<lambda>h. (Done (), h\<lparr>ho_files := rm_rf (pa_deployWorkdir P) (ho_files h)\<rparr>)) (\<lambda>_.
     hbnd (say (''generating an op-deployer intent for L1 '' @ String_of lit (cp_l1ChainId p) @ '' / L2 '' @ String_of lit (cp_l2ChainId p))) (\<lambda>_.
     hbnd (must_cmd spawn (opDeployer @ [''init'', ''--intent-type'', ''custom'', ''--l1-chain-id'', String_of lit (cp_l1ChainId p),
       ''--l2-chain-ids'', String_of lit (cp_l2ChainId p), ''--workdir'', pa_deployWorkdir P]) captured) (\<lambda>_.
     hbnd (hfiles (\<lambda>fs. fs (path_join (pa_deployWorkdir P) ''intent.toml''))) (\<lambda>t. hbnd (hsome t ''ENOENT: no such file or directory'') (\<lambda>intent.
     hbnd (writeFile (path_join (pa_deployWorkdir P) ''intent.toml'') (fillIntent a p intent)) (\<lambda>_.
     hbnd (say ''deploying the L1 contract suite (this takes a minute)'') (\<lambda>_.
     hbnd (run_cmd spawn (opDeployer @ [''apply'', ''--workdir'', pa_deployWorkdir P, ''--l1-rpc-url'', l1Rpc,
       ''--private-key'', da_deployerKey a]) no_options) (\<lambda>(code, _).
     hbnd (if code \<noteq> 0 then die (''op-deployer apply exited '' @ dec code) else hret ()) (\<lambda>_.
     hbnd (must_cmd spawn (opDeployer @ [''inspect'', ''l1'', ''--workdir'', pa_deployWorkdir P, String_of lit (cp_l2ChainId p)]) captured) (\<lambda>stdout.
     hbnd (hsome (to_inspectL1 tools stdout) ''JSON Parse error'') (\<lambda>l1Out.
     hbnd (must_cmd spawn (opDeployer @ [''inspect'', ''rollup'', ''--workdir'', pa_deployWorkdir P, String_of lit (cp_l2ChainId p)]) captured) (\<lambda>stdout.
     hbnd (hsome (to_inspectRollup tools stdout) ''JSON Parse error'') (\<lambda>rollupOut.
     hbnd (hsome (l1_scalar l1 (dp_SystemConfigProxy l1Out)) ''scalar'') (\<lambda>scalar.
     hbnd (decodeScalar scalar) (\<lambda>(base, blob).
     hbnd (say (''SystemConfig scalars: base='' @ dec base @ '' blob='' @ dec blob)) (\<lambda>_.
     hbnd (writeFile (pa_l1Addresses P) (join [CHR 0x0A] (l1_lines l1Out rollupOut base blob) @ [CHR 0x0A])) (\<lambda>_.
     log_lines ((''L1 contracts deployed. Addresses in '' @ pa_l1Addresses P @ '':'') #
       map (\<lambda>line. ''  '' @ line) (filter (\<lambda>line. take 1 line \<noteq> ''#'') (l1_lines l1Out rollupOut base blob)))))))))))))))))))))))))))))"

text \<open>
  The matches of \<^verbatim>\<open>/(OUTPUTS_VALIDATOR|OUTPUT_EXECUTOR)_ADDRESS=(0x[0-9a-fA-F]{40})/g\<close> in the output of the deploy
  script, left to right without overlap.
\<close>

definition address_at :: "string \<Rightarrow> string option" where
  "address_at s =
     (if take 2 s = ''0x'' \<and> 42 \<le> length s \<and> list_all (\<lambda>c. hex_val c \<noteq> None) (take 40 (drop 2 s)) then Some (take 42 s) else None)"

definition output_at :: "string \<Rightarrow> (string \<times> string) option" where
  "output_at s =
     (case strip_prefix ''OUTPUTS_VALIDATOR_ADDRESS='' s of
        Some r \<Rightarrow> map_option (\<lambda>a. (''OUTPUTS_VALIDATOR'', a)) (address_at r)
      | None \<Rightarrow>
          (case strip_prefix ''OUTPUT_EXECUTOR_ADDRESS='' s of
             Some r \<Rightarrow> map_option (\<lambda>a. (''OUTPUT_EXECUTOR'', a)) (address_at r)
           | None \<Rightarrow> None))"

function found_outputs :: "string \<Rightarrow> (string \<times> string) list" where
  "found_outputs [] = []"
| "found_outputs (c # s) =
     (case output_at (c # s) of
        Some (name, a) \<Rightarrow> (name, a) # found_outputs (drop (length name + length ''_ADDRESS='' + 42) (c # s))
      | None \<Rightarrow> found_outputs s)"
  by pat_completeness auto
termination
  by (relation "measure length") auto

definition outputs_lines :: "(string \<times> string) list \<Rightarrow> string list" where
  "outputs_lines found =
     ''# Written by devnet/deploy-outputs.ts. Read back by devnet/lib/env.ts.'' #
     map (\<lambda>(name, a). assign (name @ ''_ADDRESS'') a) found @ [[]]"

text \<open>The map of the matches, a name at its first place with its last address; the executor's must be among them.\<close>

definition deployed_outputs :: "(string \<times> string) list \<Rightarrow> (string \<times> string) list" where
  "deployed_outputs found = map (\<lambda>name. (name, the (map_of (rev found) name))) (rev (remdups (rev (map fst found))))"

definition record_outputs :: "Paths \<Rightarrow> string \<Rightarrow> string step" where
  "record_outputs P stdout =
     (let found = found_outputs stdout in
      case map_of (deployed_outputs found) ''OUTPUT_EXECUTOR'' of
        None \<Rightarrow> die ''the deploy script did not report the addresses; see its output above''
      | Some executor \<Rightarrow>
          hbnd (writeFile (pa_outputsAddresses P) (join [CHR 0x0A] (outputs_lines found))) (\<lambda>_. hret executor))"

definition send_tx :: "L1 \<Rightarrow> L1Tx \<Rightarrow> unit step" where
  "send_tx l1 tx h = (if l1_mines l1 tx then hret () else reportAndExit ''transaction'') (h\<lparr>ho_sent := ho_sent h @ [tx]\<rparr>)"

text \<open>
  The accounts library: the address of a private key, and the calldata of \<^verbatim>\<open>registerMessenger\<close>. The receipt of a
  transaction is awaited and its status not looked at.
\<close>

record Wallet =
  wa_address :: "string \<Rightarrow> string"
  wa_registerMessenger :: "string \<Rightarrow> string \<Rightarrow> string"

definition maturityDelay :: "vars \<Rightarrow> string" where
  "maturityDelay penv = or_else (penv ''OUTPUT_MATURITY_DELAY'') ''0''"

definition requireResolved :: "vars \<Rightarrow> string" where
  "requireResolved penv = or_else (penv ''OUTPUT_REQUIRE_RESOLVED'') ''false''"

definition executorFunding :: "vars \<Rightarrow> int res" where
  "executorFunding penv = toBigInt (or_else (penv ''EXECUTOR_FUNDING'') ''10000000000000000000'')"

definition registerGasLimit :: "vars \<Rightarrow> int res" where
  "registerGasLimit penv = toBigInt (or_else (penv ''REGISTER_GAS_LIMIT'') ''100000'')"

definition forge_options :: "Paths \<Rightarrow> vars \<Rightarrow> Addresses \<Rightarrow> ChainParams \<Rightarrow> string \<Rightarrow> RunOptions" where
  "forge_options P penv a p factory =
     \<lparr>ro_cwd = Some (path_join (pa_repo P) ''contracts''),
      ro_env = [(''DISPUTE_GAME_FACTORY_ADDRESS'', factory), (''DEPOSIT_CONTRACT_ADDRESS'', cp_depositContractAddress p),
        (''DISPUTE_GAME_TYPE'', da_disputeGameType a), (''OUTPUT_MATURITY_DELAY'', maturityDelay penv),
        (''OUTPUT_REQUIRE_RESOLVED'', requireResolved penv)],
      ro_capture = True\<rparr>"

text \<open>The two numbers of the environment are read when the module is loaded, before the step.\<close>

definition deployOutputs ::
  "programs \<Rightarrow> Tools \<Rightarrow> L1 \<Rightarrow> Wallet \<Rightarrow> Paths \<Rightarrow> vars \<Rightarrow> string \<Rightarrow> unit step" where
  "deployOutputs spawn tools l1 wallet P penv l1Rpc =
     hbnd (uncaught (executorFunding penv)) (\<lambda>funding.
     hbnd (uncaught (registerGasLimit penv)) (\<lambda>gasLimit.
     hbnd (hfiles (\<lambda>fs. addresses fs P penv)) (\<lambda>r. hbnd (uncaught r) (\<lambda>a.
     hbnd (hfiles (\<lambda>fs. chainParams fs P penv)) (\<lambda>r. hbnd (uncaught r) (\<lambda>p.
     hbnd (case da_disputeGameFactory a of Some factory \<Rightarrow> hret factory
           | None \<Rightarrow> die ''no DisputeGameFactory; bring the devnet up first (`docker compose up`)'') (\<lambda>factory.
     hbnd (if to_which tools ''forge'' then hret () else die ''forge is not on PATH; install foundry (https://getfoundry.sh)'') (\<lambda>_.
     hbnd (hfiles (\<lambda>fs. fs (path_join (path_join (pa_repo P) ''contracts'') ''dependencies'') \<noteq> None)) (\<lambda>installed.
     hbnd (if installed then hret [] else must_cmd spawn [''forge'', ''soldeer'', ''install''] (run_in (path_join (pa_repo P) ''contracts''))) (\<lambda>_.
     hbnd (run_cmd spawn [''forge'', ''script'', ''script/DeployOutputs.s.sol:DeployOutputs'', ''--rpc-url'', l1Rpc,
       ''--private-key'', da_deployerKey a, ''--broadcast''] (forge_options P penv a p factory)) (\<lambda>(_, stdout).
     hbnd (log_lines [stdout]) (\<lambda>_.
     hbnd (record_outputs P stdout) (\<lambda>executor.
     hbnd (uncaught (asKey (da_deployerKey a))) (\<lambda>key.
     hbnd (send_tx l1 (Fund executor funding)) (\<lambda>_.
     hbnd (if toLowerCase (wa_address wallet key) \<noteq> toLowerCase (da_guestOwner a)
           then die (''the deploy key is not the guest's owner ('' @ da_guestOwner a @ ''); the guest will ignore this registration'')
           else hret ()) (\<lambda>_.
     case (da_l1CrossDomainMessenger a, da_l1StandardBridge a) of
       (Some messenger, Some bridge) \<Rightarrow>
         hbnd (send_tx l1 (DepositCall (da_guestConfigAddress a) 0 gasLimit False (wa_registerMessenger wallet messenger bridge))) (\<lambda>_.
         hbnd (say (''wrote '' @ pa_outputsAddresses P)) (\<lambda>_.
         log_lines (map (\<lambda>(name, a). ''  '' @ assign (name @ ''_ADDRESS'') a) (deployed_outputs (found_outputs stdout)) @
           [''  registered the standard messenger with the guest''])))
     | _ \<Rightarrow> die ''deploy-l1.ts did not record the messenger/bridge addresses; rerun it''))))))))))))))))"

section \<open>Anchoring the rollup\<close>

definition genesis_lines :: "L1Block \<Rightarrow> string list" where
  "genesis_lines anchor =
     [''# Written by devnet/lib/genesis.ts. Read back by devnet/lib/env.ts.'',
      ''# The L1 anchor of this rollup, and the L2 genesis timestamp derived'',
      ''# from it. Both are consensus-relevant: op-node and the engine must'',
      ''# agree on them or the engine serves a genesis op-node rejects.'',
      assign ''L1_GENESIS_HASH'' (bk_hash anchor),
      assign ''L1_GENESIS_NUMBER'' (dec (bk_number anchor)),
      assign ''GENESIS_TIMESTAMP'' (dec (bk_timestamp anchor)),
      []]"

definition anchorRollup :: "L1 \<Rightarrow> Paths \<Rightarrow> unit step" where
  "anchorRollup l1 P =
     hbnd (hfiles (\<lambda>fs. readEnvFile fs (pa_l1Addresses P))) (\<lambda>deployed.
     case (deployed ''L1_GENESIS_HASH'', deployed ''L1_GENESIS_NUMBER'') of
       (Some recordedHash, Some recordedNumber) \<Rightarrow>
         hbnd (uncaught (toBigInt recordedNumber)) (\<lambda>number.
         case l1_getBlock l1 number of
           None \<Rightarrow> reportAndExit ''block not found''
         | Some anchor \<Rightarrow>
             if toLowerCase (bk_hash anchor) \<noteq> toLowerCase recordedHash
             then die (''L1 block '' @ recordedNumber @ '' is '' @ bk_hash anchor @ '', but the deployment recorded '' @
               recordedHash @ '' - the L1 reorged; redeploy'')
             else
               hbnd (writeFile (pa_chainGenesis P) (join [CHR 0x0A] (genesis_lines anchor))) (\<lambda>_.
               say (''anchored at L1 block '' @ dec (bk_number anchor) @ '' ('' @ bk_hash anchor @
                 ''), genesis timestamp '' @ dec (bk_timestamp anchor))))
     | _ \<Rightarrow> die (''no L1 deployment recorded in '' @ pa_l1Addresses P @ '' - deploy the contracts first''))"

section \<open>The engine's command lines\<close>

definition opCartesi :: "files \<Rightarrow> Paths \<Rightarrow> vars \<Rightarrow> string list" where
  "opCartesi fs P penv =
     (let bin = or_else (penv ''OP_CARTESI_BIN'') [] in
      if bin \<noteq> [] then [bin]
      else if fs (pa_opCartesiBin P) \<noteq> None then [pa_opCartesiBin P]
      else [''go'', ''run'', ''./cmd/op-cartesi''])"

record MachineOptions =
  mo_remote :: "string option"
  mo_snapshot :: "string option"

text \<open>The flags both subcommands get: those of the chain, then those of the machine, left out where empty.\<close>

definition consensus_flags :: "(string \<Rightarrow> string) \<Rightarrow> ChainParams \<Rightarrow> string list" where
  "consensus_flags lit p =
     [''-chain-id'', String_of lit (cp_l2ChainId p), ''-checkpoint-interval'', cp_checkpointInterval p,
      ''-genesis.timestamp'', cp_genesisTimestamp p, ''-gas-limit'', cp_gasLimit p,
      ''-max-cycles-per-input'', cp_maxCyclesPerInput p]"

definition machine_flags :: "vars \<Rightarrow> MachineOptions \<Rightarrow> string list" where
  "machine_flags penv machine =
     (let remote = or_else (mo_remote machine) (or_else (penv ''MACHINE_REMOTE'') []);
          snapshot = or_else (mo_snapshot machine) (or_else (penv ''MACHINE_SNAPSHOT'') []) in
      (if remote \<noteq> [] then [''-machine.remote'', remote] else []) @
      (if snapshot \<noteq> [] then [''-machine.snapshot'', snapshot] else []))"

definition chainFlags :: "(string \<Rightarrow> string) \<Rightarrow> files \<Rightarrow> Paths \<Rightarrow> vars \<Rightarrow> MachineOptions \<Rightarrow> string list res" where
  "chainFlags lit fs P penv machine =
     rbind (chainParams fs P penv) (\<lambda>p. Ok (consensus_flags lit p @ machine_flags penv machine))"

definition ensureJwt :: "Paths \<Rightarrow> bytes \<Rightarrow> unit step" where
  "ensureJwt P secret =
     hbnd (hfiles (\<lambda>fs. fs (pa_jwtSecret P) \<noteq> None)) (\<lambda>exists.
     if exists then hret ()
     else
       hbnd (writeFile (pa_jwtSecret P) (bytesToHex secret @ [CHR 0x0A])) (\<lambda>_.
       say (''wrote a new JWT secret to '' @ pa_jwtSecret P)))"

definition genesis_flags :: "(string \<Rightarrow> string) \<Rightarrow> Paths \<Rightarrow> ChainParams \<Rightarrow> string list" where
  "genesis_flags lit P p =
     [''-out'', pa_rollupConfig P, ''-l1.chain-id'', String_of lit (cp_l1ChainId p),
      ''-l1.genesis-hash'', cp_l1GenesisHash p, ''-l1.genesis-number'', cp_l1GenesisNumber p,
      ''-block-time'', String_of lit (cp_blockTime p), ''-batcher-address'', cp_batcherAddress p,
      ''-batch-inbox-address'', cp_batchInboxAddress p, ''-deposit-contract-address'', cp_depositContractAddress p,
      ''-l1-system-config-address'', cp_l1SystemConfigAddress p, ''-base-fee-scalar'', cp_baseFeeScalar p,
      ''-blob-base-fee-scalar'', cp_blobBaseFeeScalar p]"

definition generateRollupConfig ::
  "(string \<Rightarrow> string) \<Rightarrow> programs \<Rightarrow> Paths \<Rightarrow> vars \<Rightarrow> MachineOptions \<Rightarrow> unit step" where
  "generateRollupConfig lit spawn P penv machine =
     hbnd (hfiles (\<lambda>fs. chainParams fs P penv)) (\<lambda>r. hbnd (uncaught r) (\<lambda>p.
     hbnd (hfiles (\<lambda>fs. opCartesi fs P penv)) (\<lambda>bin.
     hbnd (hfiles (\<lambda>fs. chainFlags lit fs P penv machine)) (\<lambda>r. hbnd (uncaught r) (\<lambda>flags.
     hbnd (must_cmd spawn (bin @ [''genesis''] @ flags @ genesis_flags lit P p) (run_in (pa_repo P))) (\<lambda>_.
     say (''wrote '' @ pa_rollupConfig P)))))))"

record EngineOptions = MachineOptions +
  eo_engineAddr :: string
  eo_httpAddr :: string
  eo_dataDir :: "string option"

definition engine_machine :: "EngineOptions \<Rightarrow> MachineOptions" where
  "engine_machine eo = \<lparr>mo_remote = mo_remote eo, mo_snapshot = mo_snapshot eo\<rparr>"

definition runEngine :: "(string \<Rightarrow> string) \<Rightarrow> programs \<Rightarrow> Paths \<Rightarrow> vars \<Rightarrow> Stack \<Rightarrow> EngineOptions \<Rightarrow> 'a step" where
  "runEngine lit spawn P penv st eo =
     (let dataDir = or_else (eo_dataDir eo) (st_dataDir st) in
      hbnd (hfiles (\<lambda>fs. opCartesi fs P penv)) (\<lambda>bin.
      hbnd (hfiles (\<lambda>fs. chainFlags lit fs P penv (engine_machine eo))) (\<lambda>r. hbnd (uncaught r) (\<lambda>flags.
      exec_cmd spawn (bin @ [''run''] @ flags @ (if dataDir \<noteq> [] then [''-datadir'', dataDir] else []) @
        [''-engine.addr'', eo_engineAddr eo, ''-http.addr'', eo_httpAddr eo, ''-engine.jwt-secret'', pa_jwtSecret P]) (run_in (pa_repo P))))))"

text \<open>The two scripts that drive the engine by hand.\<close>

definition start_shim :: "(string \<Rightarrow> string) \<Rightarrow> programs \<Rightarrow> Paths \<Rightarrow> vars \<Rightarrow> Stack \<Rightarrow> bytes \<Rightarrow> 'a step" where
  "start_shim lit spawn P penv st secret =
     hbnd (ensureJwt P secret) (\<lambda>_.
     runEngine lit spawn P penv st
       \<lparr>mo_remote = penv ''MACHINE_REMOTE'', mo_snapshot = Some (or_else (penv ''MACHINE_SNAPSHOT'') (st_snapshotDir st)),
        eo_engineAddr = st_engineAddr st, eo_httpAddr = st_httpAddr st, eo_dataDir = None\<rparr>)"

definition generate_config :: "(string \<Rightarrow> string) \<Rightarrow> programs \<Rightarrow> Paths \<Rightarrow> vars \<Rightarrow> Stack \<Rightarrow> unit step" where
  "generate_config lit spawn P penv st =
     generateRollupConfig lit spawn P penv
       \<lparr>mo_remote = penv ''MACHINE_REMOTE'', mo_snapshot = Some (or_else (penv ''MACHINE_SNAPSHOT'') (st_snapshotDir st))\<rparr>"

section \<open>The steps of the compose file\<close>

definition anchorStillOnL1 :: "L1 \<Rightarrow> vars \<Rightarrow> bool" where
  "anchorStillOnL1 l1 recorded =
     (let hash = or_else (recorded ''L1_GENESIS_HASH'') []; number = or_else (recorded ''L1_GENESIS_NUMBER'') [] in
      hash \<noteq> [] \<and> number \<noteq> [] \<and>
      (case toBigInt number of
         Ok n \<Rightarrow> (case l1_getBlock l1 n of None \<Rightarrow> False | Some block \<Rightarrow> bk_hash block = hash)
       | _ \<Rightarrow> False))"

text \<open>\<^verbatim>\<open>isAddress\<close> of \<^verbatim>\<open>live.ts\<close>, which takes either case.\<close>

definition isAddress_any :: "string \<Rightarrow> bool" where
  "isAddress_any v \<longleftrightarrow> length v = 42 \<and> take 2 v = ''0x'' \<and> list_all (\<lambda>c. hex_val c \<noteq> None) (drop 2 v)"

definition deploymentStillOnL1 :: "L1 \<Rightarrow> vars \<Rightarrow> bool" where
  "deploymentStillOnL1 l1 recorded =
     (case recorded ''DEPOSIT_CONTRACT_ADDRESS'' of
        None \<Rightarrow> False
      | Some portal \<Rightarrow> isAddress_any portal \<and> anchorStillOnL1 l1 recorded \<and>
          (case l1_getCode l1 portal of None \<Rightarrow> False | Some code \<Rightarrow> code \<noteq> ''0x''))"

definition l1_contracts ::
  "(string \<Rightarrow> string) \<Rightarrow> programs \<Rightarrow> Tools \<Rightarrow> L1 \<Rightarrow> Paths \<Rightarrow> vars \<Rightarrow> string \<Rightarrow> unit step" where
  "l1_contracts lit spawn tools l1 P penv l1Rpc =
     hbnd (hfiles (\<lambda>fs. readEnvFile fs (pa_l1Addresses P))) (\<lambda>recorded.
     if deploymentStillOnL1 l1 recorded
     then alreadyDone (''the L1 suite is already deployed (OptimismPortal '' @ or_else (recorded ''DEPOSIT_CONTRACT_ADDRESS'') ''undefined'' @
       '', anchored at block '' @ or_else (recorded ''L1_GENESIS_NUMBER'') ''undefined'' @ '')'')
     else deployL1 lit spawn tools l1 P penv l1Rpc)"

text \<open>Is the chain the files describe the one anchored to the deployment on L1 now?\<close>

definition anchored_already :: "L1 \<Rightarrow> Paths \<Rightarrow> files \<Rightarrow> bool" where
  "anchored_already l1 P fs =
     (let deployed = readEnvFile fs (pa_l1Addresses P); anchored = readEnvFile fs (pa_chainGenesis P) in
      fs (pa_rollupConfig P) \<noteq> None \<and> fs (pa_chainFlags P) \<noteq> None \<and>
      anchored ''L1_GENESIS_HASH'' \<noteq> None \<and> anchored ''L1_GENESIS_HASH'' = deployed ''L1_GENESIS_HASH'' \<and>
      anchorStillOnL1 l1 anchored)"

text \<open>\<open>reached\<close> is whether the machine server answers the request to shut down.\<close>

definition genesis_step ::
  "(string \<Rightarrow> string) \<Rightarrow> programs \<Rightarrow> L1 \<Rightarrow> Paths \<Rightarrow> vars \<Rightarrow> bytes \<Rightarrow> bool \<Rightarrow> unit step" where
  "genesis_step lit spawn l1 P penv secret reached =
     (let remote = or_else (penv ''MACHINE_REMOTE'') []; snapshot = or_else (penv ''MACHINE_SNAPSHOT'') ''/snapshot'' in
      if remote = [] then die ''MACHINE_REMOTE is unset - this step needs a machine server of its own''
      else
        hbnd (hfiles (\<lambda>fs. (anchored_already l1 P fs, readEnvFile fs (pa_chainGenesis P) ''L1_GENESIS_NUMBER''))) (\<lambda>(already, at).
        if already then alreadyDone (''the rollup is already anchored at L1 block '' @ or_else at ''undefined'')
        else
          hbnd (forget (pa_outputsAddresses P)) (\<lambda>_. hbnd (forget (pa_tokenEnv P)) (\<lambda>_. hbnd (forget (pa_rollupConfig P)) (\<lambda>_.
          hbnd (ensureJwt P secret) (\<lambda>_.
          hbnd (anchorRollup l1 P) (\<lambda>_.
          hbnd (generateRollupConfig lit spawn P penv \<lparr>mo_remote = Some remote, mo_snapshot = Some snapshot\<rparr>) (\<lambda>_.
          hbnd (hfiles (\<lambda>fs. chainFlags lit fs P penv \<lparr>mo_remote = Some [], mo_snapshot = Some []\<rparr>)) (\<lambda>r. hbnd (uncaught r) (\<lambda>flags.
          hbnd (writeFile (pa_chainFlags P) (join '' '' flags @ [CHR 0x0A])) (\<lambda>_.
          hbnd (say (''wrote '' @ pa_chainFlags P @ '' - the flags the engines must run with'')) (\<lambda>_.
          if reached then say (''shut down the machine server at '' @ remote) else hret ()))))))))))))"

end
