(* ===== verification/Devnet_Lemmas.thy ===== *)
theory Devnet_Lemmas
  imports Devnet_Chain
begin

text \<open>
  Lemmas on the devnet's configuration and steps: how a step runs, how the lines of a written file are read back, and
  what the flags and parameters depend on.
\<close>

named_theorems step_simps \<open>how a step runs\<close>

section \<open>Text\<close>

lemma is_digit_digit [simp]: "d < 10 \<Longrightarrow> is_digit (digit d)"
  by (simp add: is_digit_def digit_def)

lemma dec_digits: "list_all is_digit (dec n)"
proof (induction n rule: less_induct)
  case (less n)
  show ?case
  proof (cases "n < 10")
    case True
    then show ?thesis by (subst to_base.simps) simp
  next
    case False
    then show ?thesis using less [of "n div 10"] by (subst to_base.simps) simp
  qed
qed

lemma dec_nonempty [simp]: "dec n \<noteq> []"
  by (subst to_base.simps) simp

lemma foldl_dec: "foldl (\<lambda>m c. 10 * m + the (hex_val c)) 0 (dec n) = n"
proof (induction n rule: less_induct)
  case (less n)
  show ?case
  proof (cases "n < 10")
    case True
    then show ?thesis by (subst to_base.simps) simp
  next
    case False
    then show ?thesis using less [of "n div 10"] by (subst to_base.simps) simp
  qed
qed

lemma digit_hex: "is_digit c \<Longrightarrow> \<exists>d < 10. hex_val c = Some d"
  by (auto simp: is_digit_def hex_val_def Let_def)

lemma digits_radix: "list_all is_digit s \<Longrightarrow> list_all (\<lambda>c. case hex_val c of None \<Rightarrow> False | Some d \<Rightarrow> d < 10) s"
  using digit_hex by (fastforce simp: list_all_iff)

lemma digit_facts: "is_digit c \<Longrightarrow> \<not> is_space c \<and> dot_char c \<and> c \<noteq> CHR ''x'' \<and> c \<noteq> CHR ''X'' \<and> c \<noteq> CHR ''o'' \<and> c \<noteq> CHR ''O'' \<and>
    c \<noteq> CHR ''b'' \<and> c \<noteq> CHR ''B'' \<and> c \<noteq> CHR ''-'' \<and> c \<noteq> CHR ''+'' \<and> c \<noteq> CHR 0x22"
  by (auto simp: is_digit_def is_space_def dot_char_def Let_def)

lemma js_trim_id: "list_all (\<lambda>c. \<not> is_space c) s \<Longrightarrow> js_trim s = s"
proof -
  assume "list_all (\<lambda>c. \<not> is_space c) s"
  moreover have "dropWhile is_space t = t" if "list_all (\<lambda>c. \<not> is_space c) t" for t using that by (cases t) auto
  ultimately show ?thesis by (simp add: js_trim_def)
qed

lemma toBigInt_digits:
  assumes "list_all is_digit s" and "s \<noteq> []"
  shows "toBigInt s = Ok (int (foldl (\<lambda>m c. 10 * m + the (hex_val c)) 0 s))"
proof -
  have "js_trim s = s" using assms(1) digit_facts by (intro js_trim_id) (auto simp: list_all_iff)
  moreover have "take 2 s \<noteq> [a, c]" if "\<not> is_digit c" for a c
  proof
    assume "take 2 s = [a, c]"
    then have "c \<in> set s" by (metis in_set_takeD list.set_intros)
    with assms(1) that show False by (auto simp: list_all_iff)
  qed
  moreover have "\<not> is_digit CHR ''x''" "\<not> is_digit CHR ''X''" "\<not> is_digit CHR ''o''" "\<not> is_digit CHR ''O''" "\<not> is_digit CHR ''b''"
    "\<not> is_digit CHR ''B''" using digit_facts by blast+
  moreover have "hd s \<noteq> CHR ''-''" "hd s \<noteq> CHR ''+''"
    using digit_facts [of "hd s"] assms by (auto simp: list_all_iff)
  ultimately show ?thesis using assms digits_radix [OF assms(1)]
    by (simp add: toBigInt_def Let_def radix_val_def)
qed

lemma toBigInt_dec [simp]: "toBigInt (dec n) = Ok (int n)"
  by (simp add: toBigInt_digits dec_digits foldl_dec)

section \<open>Address files\<close>

definition key_ok :: "string \<Rightarrow> bool" where
  "key_ok k \<longleftrightarrow> k \<noteq> [] \<and> key_start (hd k) \<and> list_all key_char k"

definition plain :: "string \<Rightarrow> bool" where
  "plain v \<longleftrightarrow> list_all dot_char v \<and> (v = [] \<or> hd v \<noteq> CHR 0x22)"

text \<open>What the pattern of a line describes: a key, an equals sign, and a value between two quotes or none.\<close>

definition line_shape :: "string \<Rightarrow> string \<Rightarrow> string \<Rightarrow> string \<Rightarrow> bool" where
  "line_shape line k q v \<longleftrightarrow> line = k @ ''='' @ q @ v @ q \<and> key_ok k \<and> list_all dot_char v"

lemma not_key_eq [simp]: "\<not> key_char CHR ''=''"
  by (simp add: key_char_def key_start_def is_digit_def Let_def)

lemma key_split: "list_all key_char k \<Longrightarrow> takeWhile key_char (k @ CHR ''='' # r) = k \<and> dropWhile key_char (k @ CHR ''='' # r) = CHR ''='' # r"
  by (induction k) auto

lemma env_line_parts:
  assumes "key_ok k"
  shows "env_line (k @ CHR ''='' # v) =
    (if 2 \<le> length v \<and> hd v = CHR 0x22 \<and> last v = CHR 0x22 \<and> list_all dot_char (butlast (tl v)) then Some (k, butlast (tl v))
     else if list_all dot_char v then Some (k, v) else None)"
  using assms key_split [of k v] by (simp add: env_line_def key_ok_def Let_def)

lemma env_line_Some:
  assumes "env_line line = Some (k, v)"
  obtains r where "line = k @ CHR ''='' # r" and "key_ok k"
proof -
  define k' where "k' = takeWhile key_char line"
  define r where "r = dropWhile key_char line"
  have e: "k' = k" "k' \<noteq> []" "key_start (hd k')" "r \<noteq> []" "hd r = CHR ''=''"
    using assms unfolding k'_def r_def by (auto simp: env_line_def Let_def split: if_splits)
  have "line = k' @ r" by (simp add: k'_def r_def)
  moreover have "r = CHR ''='' # tl r" using e(4,5) by (cases r) simp_all
  ultimately have "line = k @ CHR ''='' # tl r" using e(1) by simp
  moreover have "list_all key_char k'" unfolding k'_def by (auto simp: list_all_iff dest: set_takeWhileD)
  then have "key_ok k" using e by (simp add: key_ok_def)
  ultimately show ?thesis by (rule that)
qed

lemma quoted_ends: "2 \<le> length r \<Longrightarrow> hd r = c \<Longrightarrow> last r = c \<Longrightarrow> r = [c] @ butlast (tl r) @ [c]"
  by (cases r) (auto simp: butlast_append split: if_splits)

text \<open>The line reader is the pattern: it returns exactly what the pattern describes, the quoted reading first.\<close>

lemma env_line_iff:
  "env_line line = Some (k, v) \<longleftrightarrow>
     line_shape line k [CHR 0x22] v \<or> (line_shape line k [] v \<and> (\<forall>v'. \<not> line_shape line k [CHR 0x22] v'))"
proof (cases "\<exists>r. line = k @ CHR ''='' # r \<and> key_ok k")
  case False
  then show ?thesis using env_line_Some [of line k v] by (auto simp: line_shape_def)
next
  case True
  then obtain r where r: "line = k @ CHR ''='' # r" and k: "key_ok k" by blast
  define Q where "Q \<longleftrightarrow> 2 \<le> length r \<and> hd r = CHR 0x22 \<and> last r = CHR 0x22 \<and> list_all dot_char (butlast (tl r))"
  have q: "line_shape line k [CHR 0x22] v' \<longleftrightarrow> Q \<and> v' = butlast (tl r)" for v'
    using quoted_ends [of r "CHR 0x22"] k by (auto simp: line_shape_def r butlast_append Q_def)
  have n: "line_shape line k [] v \<longleftrightarrow> v = r \<and> list_all dot_char r"
    using k by (auto simp: line_shape_def r)
  have e: "env_line line = (if Q then Some (k, butlast (tl r)) else if list_all dot_char r then Some (k, r) else None)"
    by (simp only: r env_line_parts [OF k] Q_def)
  show ?thesis unfolding e q n by (cases Q; cases "list_all dot_char r") auto
qed

lemma env_line_plain [simp]: "key_ok k \<Longrightarrow> plain v \<Longrightarrow> env_line (assign k v) = Some (k, v)"
  by (auto simp: assign_def env_line_parts plain_def)

lemma env_line_comment [simp]: "env_line (CHR ''#'' # s) = None"
  by (simp add: env_line_def key_char_def key_start_def is_digit_def Let_def)

lemma env_line_Nil [simp]: "env_line [] = None"
  by (simp add: env_line_def)

definition add_line :: "string \<Rightarrow> vars \<Rightarrow> vars" where
  "add_line line m = (case env_line line of None \<Rightarrow> m | Some kv \<Rightarrow> set_var kv m)"

lemma parse_env_join:
  "ls \<noteq> [] \<Longrightarrow> list_all (\<lambda>l. CHR 0x0A \<notin> set l) ls \<Longrightarrow> parse_env (join [CHR 0x0A] ls) = fold add_line ls Map.empty"
  by (simp add: parse_env_def split_on_join add_line_def [abs_def])

lemma add_line_assign [simp]: "key_ok k \<Longrightarrow> k \<noteq> ''__proto__'' \<Longrightarrow> plain v \<Longrightarrow> add_line (assign k v) m = m(k \<mapsto> v)"
  by (simp add: add_line_def set_var_def)

lemma add_line_other [simp]: "env_line l = None \<Longrightarrow> add_line l m = m"
  by (simp add: add_line_def)

lemma newline_plain: "plain v \<Longrightarrow> CHR 0x0A \<notin> set v"
  by (auto simp: plain_def list_all_iff dot_char_def)

lemma newline_key: "key_ok k \<Longrightarrow> CHR 0x0A \<notin> set k"
  by (auto simp: key_ok_def list_all_iff key_char_def key_start_def is_digit_def Let_def)

lemma newline_assign [simp]: "key_ok k \<Longrightarrow> plain v \<Longrightarrow> CHR 0x0A \<notin> set (assign k v)"
  using newline_plain [of v] newline_key [of k] by (auto simp: assign_def)

lemma plain_dec [simp]: "plain (dec n)"
proof -
  have "hd (dec n) \<in> set (dec n)" by simp
  with dec_digits [of n] digit_facts show ?thesis by (auto simp: plain_def list_all_iff)
qed

section \<open>Values\<close>

lemma lower_hex_val: "is_lower_hex c \<Longrightarrow> hex_val c \<noteq> None"
  by (auto simp: is_lower_hex_def is_digit_def hex_val_def Let_def)

lemma address_bytes:
  assumes "isAddress v"
  obtains b where "toAddress (AHex v) = Ok b" and "length b = 20"
proof -
  from assms have v: "length v = 42" "take 2 v = ''0x''" "list_all is_lower_hex (drop 2 v)"
    by (simp_all add: isAddress_def hex_text_def)
  have "hexToBytes v = Ok (hex_pairs (drop 2 v))"
    using v lower_hex_val by (fastforce simp: hexToBytes_def strip0x_def Let_def list_all_iff list_ex_iff)
  with v(1) that show ?thesis by (simp add: toAddress_def length_hex_pairs)
qed

lemma addressEnv_Ok: "addressEnv fv penv name d = Ok v \<longleftrightarrow> isAddress v \<and> v = toLowerCase (env_value fv penv name d)"
  by (auto simp: addressEnv_def Let_def)

lemma hashEnv_Ok: "hashEnv fv penv name d = Ok v \<longleftrightarrow> isHash v \<and> v = toLowerCase (env_value fv penv name d)"
  by (auto simp: hashEnv_def Let_def)

lemma chain_params_Ok:
  assumes "chain_params fv penv = Ok p"
  shows "isHash (cp_l1GenesisHash p)" and "isAddress (cp_batcherAddress p)" and "isAddress (cp_batchInboxAddress p)"
    and "isAddress (cp_depositContractAddress p)" and "isAddress (cp_l1SystemConfigAddress p)"
    and "cp_l1GenesisHash p = toLowerCase (env_value fv penv ''L1_GENESIS_HASH'' (''0x'' @ replicate 64 (CHR ''0'')))"
    and "cp_genesisTimestamp p = env_value fv penv ''GENESIS_TIMESTAMP'' ''0''"
    and "cp_l1GenesisNumber p = env_value fv penv ''L1_GENESIS_NUMBER'' ''0''"
  using assms by (auto simp: chain_params_def Let_def addressEnv_Ok hashEnv_Ok simp del: append.simps)

section \<open>Steps\<close>

lemma hret_run [simp, step_simps]: "hret a h = (Done a, h)"
  by (simp add: hret_def)

lemma hbnd_Done [simp, step_simps]: "m h = (Done a, h') \<Longrightarrow> hbnd m f h = f a h'"
  by (simp add: hbnd_def)

lemma hbnd_Exited [simp, step_simps]: "m h = (Exited n, h') \<Longrightarrow> hbnd m f h = (Exited n, h')"
  by (simp add: hbnd_def)

lemma hfiles_run [simp, step_simps]: "hfiles f h = (Done (f (ho_files h)), h)"
  by (simp add: hfiles_def)

lemma writeFile_run [simp, step_simps]: "writeFile p t h = (Done (), h\<lparr>ho_files := (ho_files h)(p \<mapsto> t)\<rparr>)"
  by (simp add: writeFile_def)

lemma forget_run [simp, step_simps]: "forget p h = (Done (), h\<lparr>ho_files := (ho_files h)(p := None)\<rparr>)"
  by (simp add: forget_def)

lemma say_run [simp, step_simps]: "say t h = (Done (), h\<lparr>ho_said := ho_said h @ [''==> '' @ t]\<rparr>)"
  by (simp add: say_def)

lemma hbnd_DoneE:
  assumes "hbnd m f h = (Done b, h'')"
  obtains a h' where "m h = (Done a, h')" and "f a h' = (Done b, h'')"
  using assms by (auto simp: hbnd_def split: prod.splits status.splits)

lemma uncaught_Done: "uncaught r h = (Done a, h') \<longleftrightarrow> r = Ok a \<and> h' = h"
  by (cases r rule: uncaught.cases) (auto simp: reportAndExit_def)

lemma die_not_Done [simp]: "die t h = (Done a, h') \<longleftrightarrow> False"
  by (simp add: die_def)

lemma report_not_Done [simp]: "reportAndExit t h = (Done a, h') \<longleftrightarrow> False"
  by (simp add: reportAndExit_def)

lemma ensureJwt_Done:
  assumes "ensureJwt P secret h = (Done u, h')"
  obtains t where "ho_files h' = (ho_files h)(pa_jwtSecret P \<mapsto> t)" and "ho_ran h' = ho_ran h"
proof (cases "ho_files h (pa_jwtSecret P)")
  case None
  with assms that show ?thesis by (auto simp: ensureJwt_def hbnd_def hfiles_def)
next
  case (Some t)
  then have "ho_files h = (ho_files h)(pa_jwtSecret P \<mapsto> t)" by auto
  with assms that [of t] Some show ?thesis by (auto simp: ensureJwt_def hbnd_def hfiles_def)
qed

lemma must_Done:
  assumes "must_cmd spawn cmd opts h = (Done out, h')"
  obtains printed fs where "spawn cmd opts (ho_files h) = (0, printed, fs)" and "ho_files h' = fs" and "ho_ran h' = ho_ran h @ [cmd]"
  using assms by (auto simp: must_cmd_def run_cmd_def elim!: hbnd_DoneE split: prod.splits if_splits)

lemma anchorRollup_Done:
  assumes "anchorRollup l1 P h = (Done u, h')"
  obtains hash number n anchor where "readEnvFile (ho_files h) (pa_l1Addresses P) ''L1_GENESIS_HASH'' = Some hash"
    and "readEnvFile (ho_files h) (pa_l1Addresses P) ''L1_GENESIS_NUMBER'' = Some number"
    and "toBigInt number = Ok n" and "l1_getBlock l1 n = Some anchor" and "toLowerCase (bk_hash anchor) = toLowerCase hash"
    and "ho_files h' = (ho_files h)(pa_chainGenesis P \<mapsto> join [CHR 0x0A] (genesis_lines anchor))" and "ho_ran h' = ho_ran h"
  using assms unfolding anchorRollup_def
  by (auto elim!: hbnd_DoneE simp: uncaught_Done split: option.splits if_splits simp del: append.simps)

lemma genesis_keys: "key_ok ''L1_GENESIS_HASH''" "key_ok ''L1_GENESIS_NUMBER''" "key_ok ''GENESIS_TIMESTAMP''"
  by code_simp+

lemma genesis_vars:
  assumes "plain (bk_hash anchor)"
  shows "parse_env (join [CHR 0x0A] (genesis_lines anchor)) =
    [''L1_GENESIS_HASH'' \<mapsto> bk_hash anchor, ''L1_GENESIS_NUMBER'' \<mapsto> dec (bk_number anchor), ''GENESIS_TIMESTAMP'' \<mapsto> dec (bk_timestamp anchor)]"
proof -
  have "list_all (\<lambda>l. CHR 0x0A \<notin> set l) (genesis_lines anchor)"
    using assms genesis_keys by (simp add: genesis_lines_def)
  then have "parse_env (join [CHR 0x0A] (genesis_lines anchor)) = fold add_line (genesis_lines anchor) Map.empty"
    by (intro parse_env_join) (simp add: genesis_lines_def)
  also have "\<dots> = [''L1_GENESIS_HASH'' \<mapsto> bk_hash anchor, ''L1_GENESIS_NUMBER'' \<mapsto> dec (bk_number anchor),
      ''GENESIS_TIMESTAMP'' \<mapsto> dec (bk_timestamp anchor)]"
    using assms genesis_keys by (simp add: genesis_lines_def)
  finally show ?thesis .
qed

lemma generate_Done:
  assumes "generateRollupConfig lit spawn P penv machine h = (Done u, h')"
  obtains p bin out fs where "chainParams (ho_files h) P penv = Ok p"
    and "spawn (bin @ [''genesis''] @ (consensus_flags lit p @ machine_flags penv machine) @ genesis_flags lit P p)
      (run_in (pa_repo P)) (ho_files h) = (0, out, fs)"
    and "ho_files h' = fs"
    and "ho_ran h' = ho_ran h @ [bin @ [''genesis''] @ (consensus_flags lit p @ machine_flags penv machine) @ genesis_flags lit P p]"
  using assms unfolding generateRollupConfig_def chainFlags_def
  by (auto elim!: hbnd_DoneE must_Done simp: uncaught_Done simp del: append.simps)

end
