(* ===== verification/Devnet_Properties.thy ===== *)
theory Devnet_Properties
  imports Devnet_Lemmas
begin

text \<open>
  One chain per bring-up: the genesis step leaves files that agree with each other and with L1, does nothing when it is run
  again, and hands on parameters of the form their types say.
\<close>

section \<open>The genesis step\<close>

text \<open>The files of the devnet are different files; \<^verbatim>\<open>op-cartesi genesis\<close>, when it succeeds, has written the file it was
  told to and no other; an L1 block is asked for by number and has a hash of the usual form.\<close>

definition paths_apart :: "Paths \<Rightarrow> bool" where
  "paths_apart P \<longleftrightarrow> distinct [pa_l1Addresses P, pa_chainGenesis P, pa_outputsAddresses P, pa_tokenEnv P, pa_rollupConfig P,
     pa_chainFlags P, pa_jwtSecret P]"

definition genesis_writes :: "programs \<Rightarrow> Paths \<Rightarrow> bool" where
  "genesis_writes spawn P \<longleftrightarrow> (\<forall>cmd opts fs out fs'. ''genesis'' \<in> set cmd \<longrightarrow> spawn cmd opts fs = (0, out, fs') \<longrightarrow>
     (\<exists>t. fs' = fs(pa_rollupConfig P \<mapsto> t)))"

definition l1_ok :: "L1 \<Rightarrow> bool" where
  "l1_ok l1 \<longleftrightarrow> (\<forall>n b. l1_getBlock l1 n = Some b \<longrightarrow> int (bk_number b) = n \<and> isHash (bk_hash b))"

lemma lower_hex_dot: "is_lower_hex c \<Longrightarrow> dot_char c"
  by (auto simp: is_lower_hex_def is_digit_def dot_char_def)

lemma hex_plain: "hex_text n v \<Longrightarrow> plain v"
proof -
  assume v: "hex_text n v"
  obtain t where t: "v = CHR ''0'' # CHR ''x'' # t" "list_all is_lower_hex t"
    using v append_take_drop_id [of 2 v] by (metis append_Cons append_Nil hex_text_def)
  have "dot_char CHR ''0''" "dot_char CHR ''x''" by (simp_all add: dot_char_def)
  with t lower_hex_dot show ?thesis by (auto simp: plain_def list_all_iff)
qed

lemma genesis_writesD:
  assumes "genesis_writes spawn P" and "spawn (a @ [''genesis''] @ b) opts fs = (0, out, fs')"
  shows "\<exists>t. fs' = fs(pa_rollupConfig P \<mapsto> t)"
proof -
  have "''genesis'' \<in> set (a @ [''genesis''] @ b)" by simp
  with assms show ?thesis unfolding genesis_writes_def by blast
qed

lemma no_machine: "machine_flags penv \<lparr>mo_remote = Some [], mo_snapshot = Some []\<rparr> = []"
  by (simp add: machine_flags_def or_else_def)

lemma deploymentVars_cong:
  assumes "fs (pa_l1Addresses P) = fs' (pa_l1Addresses P)" and "fs (pa_chainGenesis P) = fs' (pa_chainGenesis P)"
    and "fs (pa_outputsAddresses P) = fs' (pa_outputsAddresses P)" and "fs (pa_tokenEnv P) = fs' (pa_tokenEnv P)"
  shows "chainParams fs P penv = chainParams fs' P penv"
  using assms by (simp add: chainParams_def deploymentVars_def readEnvFile_def)

text \<open>What a genesis step that goes through has done.\<close>

lemma genesis_Done:
  assumes run: "genesis_step lit spawn l1 P penv secret reached h = (Done u, h')"
    and P: "paths_apart P" and gw: "genesis_writes spawn P"
  obtains hash number n anchor p bin machine t j where
    "readEnvFile (ho_files h) (pa_l1Addresses P) ''L1_GENESIS_HASH'' = Some hash"
    and "readEnvFile (ho_files h) (pa_l1Addresses P) ''L1_GENESIS_NUMBER'' = Some number"
    and "toBigInt number = Ok n" and "l1_getBlock l1 n = Some anchor" and "toLowerCase (bk_hash anchor) = toLowerCase hash"
    and "ho_ran h' = ho_ran h @ [bin @ [''genesis''] @ (consensus_flags lit p @ machine) @ genesis_flags lit P p]"
    and "chainParams (ho_files h') P penv = Ok p"
    and "ho_files h' = (ho_files h)(pa_outputsAddresses P := None, pa_tokenEnv P := None, pa_jwtSecret P \<mapsto> j,
      pa_chainGenesis P \<mapsto> join [CHR 0x0A] (genesis_lines anchor), pa_rollupConfig P \<mapsto> t,
      pa_chainFlags P \<mapsto> join '' '' (consensus_flags lit p) @ [CHR 0x0A])"
proof -
  let ?h0 = "h\<lparr>ho_files := (ho_files h)(pa_outputsAddresses P := None, pa_tokenEnv P := None, pa_rollupConfig P := None)\<rparr>"
  let ?m = "\<lparr>mo_remote = Some (or_else (penv ''MACHINE_REMOTE'') []), mo_snapshot = Some (or_else (penv ''MACHINE_SNAPSHOT'') ''/snapshot'')\<rparr>"
  from run obtain u1 h1 u2 h2 u3 h3 flags where
    h1: "ensureJwt P secret ?h0 = (Done u1, h1)" and h2: "anchorRollup l1 P h1 = (Done u2, h2)"
    and h3: "generateRollupConfig lit spawn P penv ?m h2 = (Done u3, h3)"
    and flags: "chainFlags lit (ho_files h3) P penv \<lparr>mo_remote = Some [], mo_snapshot = Some []\<rparr> = Ok flags"
    and h': "ho_files h' = (ho_files h3)(pa_chainFlags P \<mapsto> join '' '' flags @ [CHR 0x0A])" "ho_ran h' = ho_ran h3"
    unfolding genesis_step_def Let_def
    by (auto elim!: hbnd_DoneE simp: uncaught_Done alreadyDone_def split: if_splits simp del: append.simps)
  from ensureJwt_Done [OF h1] obtain j where j: "ho_files h1 = (ho_files ?h0)(pa_jwtSecret P \<mapsto> j)" "ho_ran h1 = ho_ran h" by auto
  from anchorRollup_Done [OF h2] obtain hash number n anchor where
    a: "readEnvFile (ho_files h1) (pa_l1Addresses P) ''L1_GENESIS_HASH'' = Some hash"
      "readEnvFile (ho_files h1) (pa_l1Addresses P) ''L1_GENESIS_NUMBER'' = Some number"
      "toBigInt number = Ok n" "l1_getBlock l1 n = Some anchor" "toLowerCase (bk_hash anchor) = toLowerCase hash"
      "ho_files h2 = (ho_files h1)(pa_chainGenesis P \<mapsto> join [CHR 0x0A] (genesis_lines anchor))" "ho_ran h2 = ho_ran h1" .
  from generate_Done [OF h3] obtain p bin out fs where
    g: "chainParams (ho_files h2) P penv = Ok p"
      "spawn (bin @ [''genesis''] @ (consensus_flags lit p @ machine_flags penv ?m) @ genesis_flags lit P p)
        (run_in (pa_repo P)) (ho_files h2) = (0, out, fs)"
      "ho_files h3 = fs"
      "ho_ran h3 = ho_ran h2 @ [bin @ [''genesis''] @ (consensus_flags lit p @ machine_flags penv ?m) @ genesis_flags lit P p]" .
  obtain t where t: "fs = (ho_files h2)(pa_rollupConfig P \<mapsto> t)"
    using genesis_writesD [OF gw g(2)] by blast
  have "chainParams (ho_files h3) P penv = chainParams (ho_files h2) P penv"
    by (rule deploymentVars_cong) (use P t g(3) in \<open>auto simp: paths_apart_def\<close>)
  then have p3: "chainParams (ho_files h3) P penv = Ok p" using g(1) by simp
  then have fl: "flags = consensus_flags lit p" using flags by (simp add: chainFlags_def no_machine)
  have "chainParams (ho_files h') P penv = chainParams (ho_files h3) P penv"
    by (rule deploymentVars_cong) (use P h'(1) in \<open>auto simp: paths_apart_def\<close>)
  then have p': "chainParams (ho_files h') P penv = Ok p" using p3 by simp
  have l1a: "ho_files h1 (pa_l1Addresses P) = ho_files h (pa_l1Addresses P)"
    using j P by (auto simp: paths_apart_def)
  show thesis
  proof (rule that [OF _ _ a(3-5) _ p'])
    show "readEnvFile (ho_files h) (pa_l1Addresses P) ''L1_GENESIS_HASH'' = Some hash"
      "readEnvFile (ho_files h) (pa_l1Addresses P) ''L1_GENESIS_NUMBER'' = Some number"
      using a(1,2) l1a by (simp_all add: readEnvFile_def)
    show "ho_ran h' = ho_ran h @ [bin @ [''genesis''] @ (consensus_flags lit p @ machine_flags penv ?m) @ genesis_flags lit P p]"
      using g(4) a(7) j(2) h'(2) by simp
    show "ho_files h' = (ho_files h)(pa_outputsAddresses P := None, pa_tokenEnv P := None, pa_jwtSecret P \<mapsto> j,
      pa_chainGenesis P \<mapsto> join [CHR 0x0A] (genesis_lines anchor), pa_rollupConfig P \<mapsto> t,
      pa_chainFlags P \<mapsto> join '' '' (consensus_flags lit p) @ [CHR 0x0A])"
      using h'(1) g(3) t a(6) j(1) fl by (simp add: fun_eq_iff)
  qed
qed

lemma lower_hex_same: "is_lower_hex c \<Longrightarrow> lower c = c"
  by (auto simp: is_lower_hex_def is_digit_def lower_def Let_def)

lemma toLowerCase_hex: "hex_text n v \<Longrightarrow> toLowerCase v = v"
proof -
  assume v: "hex_text n v"
  have "lower c = c" if "c \<in> set v" for c
  proof -
    have "c \<in> set (take 2 v) \<or> c \<in> set (drop 2 v)" using that by (metis append_take_drop_id set_append Un_iff)
    moreover have "lower CHR ''0'' = CHR ''0''" "lower CHR ''x'' = CHR ''x''" by code_simp+
    ultimately show ?thesis using v lower_hex_same by (auto simp: hex_text_def list_all_iff)
  qed
  then show ?thesis by (simp add: toLowerCase_def map_idI)
qed

lemma anchored_params:
  assumes P: "paths_apart P" and hash: "isHash (bk_hash anchor)" and ok: "chainParams fs P penv = Ok p"
    and fs: "fs (pa_chainGenesis P) = Some (join [CHR 0x0A] (genesis_lines anchor))" "fs (pa_outputsAddresses P) = None"
      "fs (pa_tokenEnv P) = None"
  shows "cp_genesisTimestamp p = dec (bk_timestamp anchor)" and "cp_l1GenesisHash p = bk_hash anchor"
    and "cp_l1GenesisNumber p = dec (bk_number anchor)"
proof -
  have v: "readEnvFile fs (pa_chainGenesis P) = [''L1_GENESIS_HASH'' \<mapsto> bk_hash anchor,
      ''L1_GENESIS_NUMBER'' \<mapsto> dec (bk_number anchor), ''GENESIS_TIMESTAMP'' \<mapsto> dec (bk_timestamp anchor)]"
    using fs(1) genesis_vars [of anchor] hex_plain [of 64 "bk_hash anchor"] hash by (simp add: readEnvFile_def isHash_def)
  have e: "readEnvFile fs (pa_outputsAddresses P) = Map.empty" "readEnvFile fs (pa_tokenEnv P) = Map.empty"
    using fs(2,3) by (simp_all add: readEnvFile_def)
  have "env_value (deploymentVars fs P) penv ''L1_GENESIS_HASH'' d = bk_hash anchor"
    "env_value (deploymentVars fs P) penv ''L1_GENESIS_NUMBER'' d = dec (bk_number anchor)"
    "env_value (deploymentVars fs P) penv ''GENESIS_TIMESTAMP'' d = dec (bk_timestamp anchor)" for d
    by (simp_all add: env_value_def pick_def or_else_def deploymentVars_def v e)
  with chain_params_Ok(6-8) [of "deploymentVars fs P" penv p] ok hash toLowerCase_hex [of 64 "bk_hash anchor"]
  show "cp_genesisTimestamp p = dec (bk_timestamp anchor)" "cp_l1GenesisHash p = bk_hash anchor"
    "cp_l1GenesisNumber p = dec (bk_number anchor)"
    by (simp_all add: chainParams_def isHash_def)
qed

lemma genesis_agrees:
  assumes "paths_apart P" and "genesis_writes spawn P" and "l1_ok l1"
    and run: "genesis_step lit spawn l1 P penv secret reached h = (Done (), h')"
  obtains anchor p bin machine where "l1_getBlock l1 (int (bk_number anchor)) = Some anchor" and "isHash (bk_hash anchor)"
    and "map_option toLowerCase (readEnvFile (ho_files h) (pa_l1Addresses P) ''L1_GENESIS_HASH'') = Some (bk_hash anchor)"
    and "chainParams (ho_files h') P penv = Ok p"
    and "cp_genesisTimestamp p = dec (bk_timestamp anchor)" and "cp_l1GenesisHash p = bk_hash anchor"
    and "cp_l1GenesisNumber p = dec (bk_number anchor)"
    and "ho_ran h' = ho_ran h @ [bin @ [''genesis''] @ (consensus_flags lit p @ machine) @ genesis_flags lit P p]"
    and "ho_files h' (pa_chainFlags P) = Some (join '' '' (consensus_flags lit p) @ [CHR 0x0A])"
    and "ho_files h' (pa_rollupConfig P) \<noteq> None"
    and "ho_files h' (pa_chainGenesis P) = Some (join [CHR 0x0A] (genesis_lines anchor))"
    and "ho_files h' (pa_l1Addresses P) = ho_files h (pa_l1Addresses P)"
proof (rule genesis_Done [OF run assms(1,2)])
  fix hash number n anchor p bin machine t j
  assume g: "readEnvFile (ho_files h) (pa_l1Addresses P) ''L1_GENESIS_HASH'' = Some hash"
    "readEnvFile (ho_files h) (pa_l1Addresses P) ''L1_GENESIS_NUMBER'' = Some number"
    "toBigInt number = Ok n" "l1_getBlock l1 n = Some anchor" "toLowerCase (bk_hash anchor) = toLowerCase hash"
    "ho_ran h' = ho_ran h @ [bin @ [''genesis''] @ (consensus_flags lit p @ machine) @ genesis_flags lit P p]"
    "chainParams (ho_files h') P penv = Ok p"
    and f: "ho_files h' = (ho_files h)(pa_outputsAddresses P := None, pa_tokenEnv P := None, pa_jwtSecret P \<mapsto> j,
      pa_chainGenesis P \<mapsto> join [CHR 0x0A] (genesis_lines anchor), pa_rollupConfig P \<mapsto> t,
      pa_chainFlags P \<mapsto> join '' '' (consensus_flags lit p) @ [CHR 0x0A])"
  have b: "int (bk_number anchor) = n" "isHash (bk_hash anchor)" using assms(3) g(4) by (simp_all add: l1_ok_def)
  have fs: "ho_files h' (pa_chainGenesis P) = Some (join [CHR 0x0A] (genesis_lines anchor))" "ho_files h' (pa_outputsAddresses P) = None"
    "ho_files h' (pa_tokenEnv P) = None" "ho_files h' (pa_l1Addresses P) = ho_files h (pa_l1Addresses P)"
    "ho_files h' (pa_chainFlags P) = Some (join '' '' (consensus_flags lit p) @ [CHR 0x0A])" "ho_files h' (pa_rollupConfig P) \<noteq> None"
    using assms(1) unfolding f by (auto simp: paths_apart_def)
  show thesis
    by (rule that [OF _ b(2) _ g(7) anchored_params [OF assms(1) b(2) g(7) fs(1-3)] g(6) fs(5,6,1,4)])
      (use b g toLowerCase_hex [of 64 "bk_hash anchor"] in \<open>simp_all add: isHash_def\<close>)
qed

text \<open>
  C15. The genesis step leaves one chain behind. When it goes through, the parameters everything downstream reads back
  have the hash, the number and the timestamp of the L1 block the deployment is recorded at, whatever the environment and
  the files of an earlier chain said; \<^verbatim>\<open>rollup.json\<close> was generated with exactly these parameters; and the flags left for
  the engines are the consensus flags of that command line, without the machine it ran on.
\<close>

theorem genesis_step_agrees:
  assumes "paths_apart P" and "genesis_writes spawn P" and "l1_ok l1"
    and "genesis_step lit spawn l1 P penv secret reached h = (Done (), h')"
  shows "\<exists>anchor p bin machine. l1_getBlock l1 (int (bk_number anchor)) = Some anchor \<and>
    map_option toLowerCase (readEnvFile (ho_files h) (pa_l1Addresses P) ''L1_GENESIS_HASH'') = Some (bk_hash anchor) \<and>
    chainParams (ho_files h') P penv = Ok p \<and>
    cp_genesisTimestamp p = dec (bk_timestamp anchor) \<and> cp_l1GenesisHash p = bk_hash anchor \<and>
    cp_l1GenesisNumber p = dec (bk_number anchor) \<and>
    ho_ran h' = ho_ran h @ [bin @ [''genesis''] @ (consensus_flags lit p @ machine) @ genesis_flags lit P p] \<and>
    ho_files h' (pa_chainFlags P) = Some (join '' '' (consensus_flags lit p) @ [CHR 0x0A])"
  by (rule genesis_agrees [OF assms]) blast


lemma chain_params_iff:
  "(\<exists>p. chain_params fv penv = Ok p) \<longleftrightarrow>
     isHash (toLowerCase (env_value fv penv ''L1_GENESIS_HASH'' (''0x'' @ replicate 64 (CHR ''0'')))) \<and>
     isAddress (toLowerCase (env_value fv penv ''BATCHER_ADDRESS'' ANVIL_0)) \<and>
     isAddress (toLowerCase (env_value fv penv ''BATCH_INBOX_ADDRESS'' ''0xff00000000000000000000000000000000000901'')) \<and>
     isAddress (toLowerCase (env_value fv penv ''DEPOSIT_CONTRACT_ADDRESS'' ''0x6900000000000000000000000000000000000001'')) \<and>
     isAddress (toLowerCase (env_value fv penv ''L1_SYSTEM_CONFIG_ADDRESS'' ''0x6900000000000000000000000000000000000002''))"
  unfolding chain_params_def Let_def by (simp add: addressEnv_Ok hashEnv_Ok del: append.simps)

text \<open>
  C26. The types of the configuration are earned. Whatever files and environment say, the chain parameters are returned
  exactly when the five values among them that must be a hash or an address are; then the hash is 32 bytes of
  hexadecimal and every address is one the drive takes as 20 bytes.
\<close>

theorem chain_params_are_typed:
  "((\<exists>p. chainParams fs P penv = Ok p) \<longleftrightarrow>
      (let v = (\<lambda>name d. toLowerCase (env_value (deploymentVars fs P) penv name d)) in
       isHash (v ''L1_GENESIS_HASH'' (''0x'' @ replicate 64 (CHR ''0''))) \<and> isAddress (v ''BATCHER_ADDRESS'' ANVIL_0) \<and>
       isAddress (v ''BATCH_INBOX_ADDRESS'' ''0xff00000000000000000000000000000000000901'') \<and>
       isAddress (v ''DEPOSIT_CONTRACT_ADDRESS'' ''0x6900000000000000000000000000000000000001'') \<and>
       isAddress (v ''L1_SYSTEM_CONFIG_ADDRESS'' ''0x6900000000000000000000000000000000000002''))) \<and>
   (\<forall>p. chainParams fs P penv = Ok p \<longrightarrow> isHash (cp_l1GenesisHash p) \<and>
      list_all (\<lambda>a. \<exists>b. toAddress (AHex a) = Ok b \<and> length b = 20)
        [cp_batcherAddress p, cp_batchInboxAddress p, cp_depositContractAddress p, cp_l1SystemConfigAddress p])"
  (is "?iff \<and> (\<forall>p. _ p \<longrightarrow> ?typed p)")
proof (intro conjI allI impI)
  show ?iff
    unfolding chainParams_def Let_def by (rule chain_params_iff)
  fix p
  assume "chainParams fs P penv = Ok p"
  note ok = chain_params_Ok [OF this [unfolded chainParams_def]]
  have "\<exists>b. toAddress (AHex a) = Ok b \<and> length b = 20" if "isAddress a" for a
    using address_bytes [OF that] by blast
  with ok(1-5) show "isHash (cp_l1GenesisHash p)" "list_all (\<lambda>a. \<exists>b. toAddress (AHex a) = Ok b \<and> length b = 20)
      [cp_batcherAddress p, cp_batchInboxAddress p, cp_depositContractAddress p, cp_l1SystemConfigAddress p]"
    by simp_all
qed

section \<open>A sample devnet\<close>

definition sample_paths :: Paths where
  "sample_paths = paths ''/r/devnet'' ''/r'' Map.empty"

definition sample_anchor :: L1Block where
  "sample_anchor = \<lparr>bk_hash = ''0x'' @ replicate 64 (CHR ''a''), bk_number = 7, bk_timestamp = 1700000000\<rparr>"

definition sample_l1 :: L1 where
  "sample_l1 = \<lparr>l1_getBlock = [7 \<mapsto> sample_anchor], l1_getCode = Map.empty, l1_scalar = Map.empty, l1_answers = True,
     l1_setCode = (\<lambda>_. True), l1_mines = (\<lambda>_. True)\<rparr>"

definition sample_spawn :: programs where
  "sample_spawn cmd opts fs = (0, [], fs(pa_rollupConfig sample_paths \<mapsto> ''{}''))"

definition sample_env :: vars where
  "sample_env = [''MACHINE_REMOTE'' \<mapsto> ''http://machine'']"

definition sample_host :: Host where
  "sample_host = \<lparr>ho_files = [pa_l1Addresses sample_paths \<mapsto> join [CHR 0x0A] [assign ''L1_GENESIS_HASH'' (''0x'' @ replicate 64 (CHR ''a'')),
     assign ''L1_GENESIS_NUMBER'' ''7'']], ho_said = [], ho_out = [], ho_ran = [], ho_sent = []\<rparr>"

abbreviation sample_genesis :: "unit status \<times> Host" where
  "sample_genesis \<equiv> genesis_step (\<lambda>s. s) sample_spawn sample_l1 sample_paths sample_env (zeros 32) True sample_host"

lemma sample_hash_text: "isHash (''0x'' @ replicate 64 (CHR ''a''))"
  by (simp add: isHash_def hex_text_def list_all_iff is_lower_hex_def)

lemma sample_devnet: "paths_apart sample_paths" "genesis_writes sample_spawn sample_paths" "l1_ok sample_l1"
proof -
  show "paths_apart sample_paths" by code_simp
  show "genesis_writes sample_spawn sample_paths" by (auto simp: genesis_writes_def sample_spawn_def)
  show "l1_ok sample_l1" using sample_hash_text by (auto simp: l1_ok_def sample_l1_def sample_anchor_def split: if_splits)
qed

lemma sample_vars:
  "readEnvFile (ho_files sample_host) (pa_l1Addresses sample_paths) =
     [''L1_GENESIS_HASH'' \<mapsto> ''0x'' @ replicate 64 (CHR ''a''), ''L1_GENESIS_NUMBER'' \<mapsto> ''7'']"
proof -
  let ?ls = "[assign ''L1_GENESIS_HASH'' (''0x'' @ replicate 64 (CHR ''a'')), assign ''L1_GENESIS_NUMBER'' ''7'']"
  have p: "plain (''0x'' @ replicate 64 (CHR ''a''))" "plain ''7''"
    using hex_plain [OF sample_hash_text [unfolded isHash_def]] by (simp_all add: plain_def dot_char_def)
  have "parse_env (join [CHR 0x0A] ?ls) = fold add_line ?ls Map.empty"
    using p genesis_keys by (intro parse_env_join) simp_all
  also have "\<dots> = [''L1_GENESIS_HASH'' \<mapsto> ''0x'' @ replicate 64 (CHR ''a''), ''L1_GENESIS_NUMBER'' \<mapsto> ''7'']"
    using p genesis_keys by simp
  finally show ?thesis by (simp add: readEnvFile_def sample_host_def)
qed

text \<open>The defaults are well formed, so parameters are returned where only an anchor is set.\<close>

lemma default_addresses:
  "isAddress (toLowerCase ANVIL_0)" "isAddress (toLowerCase ''0xff00000000000000000000000000000000000901'')"
  "isAddress (toLowerCase ''0x6900000000000000000000000000000000000001'')"
  "isAddress (toLowerCase ''0x6900000000000000000000000000000000000002'')"
  by (simp_all add: isAddress_def hex_text_def is_lower_hex_def is_digit_def ANVIL_0_def toLowerCase_def lower_def)

lemma sample_params:
  assumes "fs (pa_l1Addresses sample_paths) = ho_files sample_host (pa_l1Addresses sample_paths)"
    and "fs (pa_chainGenesis sample_paths) = Some (join [CHR 0x0A] (genesis_lines sample_anchor))"
    and "fs (pa_outputsAddresses sample_paths) = None" and "fs (pa_tokenEnv sample_paths) = None"
  shows "\<exists>p. chainParams fs sample_paths sample_env = Ok p"
proof -
  have h: "isHash (bk_hash sample_anchor)" using sample_hash_text by (simp add: sample_anchor_def)
  let ?a = "readEnvFile (ho_files sample_host) (pa_l1Addresses sample_paths)"
  have l: "readEnvFile fs (pa_l1Addresses sample_paths) = ?a" using assms(1) by (simp add: readEnvFile_def)
  have g: "readEnvFile fs (pa_chainGenesis sample_paths) = [''L1_GENESIS_HASH'' \<mapsto> bk_hash sample_anchor,
      ''L1_GENESIS_NUMBER'' \<mapsto> dec (bk_number sample_anchor), ''GENESIS_TIMESTAMP'' \<mapsto> dec (bk_timestamp sample_anchor)]"
    using assms(2) genesis_vars [of sample_anchor] hex_plain h by (simp add: readEnvFile_def isHash_def)
  have v: "deploymentVars fs sample_paths = ?a ++ readEnvFile fs (pa_chainGenesis sample_paths)"
    using assms(3,4) l by (simp add: deploymentVars_def readEnvFile_def)
  have "env_value (deploymentVars fs sample_paths) sample_env ''L1_GENESIS_HASH'' d = bk_hash sample_anchor"
    "env_value (deploymentVars fs sample_paths) sample_env ''BATCHER_ADDRESS'' d = d"
    "env_value (deploymentVars fs sample_paths) sample_env ''BATCH_INBOX_ADDRESS'' d = d"
    "env_value (deploymentVars fs sample_paths) sample_env ''DEPOSIT_CONTRACT_ADDRESS'' d = d"
    "env_value (deploymentVars fs sample_paths) sample_env ''L1_SYSTEM_CONFIG_ADDRESS'' d = d" for d
    unfolding v g sample_vars by (simp_all add: env_value_def pick_def or_else_def sample_env_def)
  then show ?thesis unfolding chainParams_def chain_params_iff
    using h default_addresses toLowerCase_hex [of 64 "bk_hash sample_anchor"] by (simp add: isHash_def)
qed

lemma sample_bigint: "toBigInt ''7'' = Ok 7"
  using toBigInt_digits [of "''7''"] by (simp add: is_digit_def hex_val_def)

lemma sample_generate:
  assumes "chainParams (ho_files h) sample_paths sample_env = Ok p"
  shows "\<exists>h'. generateRollupConfig (\<lambda>s. s) sample_spawn sample_paths sample_env m h = (Done (), h') \<and>
    ho_files h' = (ho_files h)(pa_rollupConfig sample_paths \<mapsto> ''{}'')"
  using assms by (simp add: generateRollupConfig_def chainFlags_def must_cmd_def run_cmd_def sample_spawn_def hbnd_def hfiles_def)

lemma sample_genesis_Done: "sample_genesis = (Done (), snd sample_genesis)"
proof -
  note d = sample_devnet(1) [unfolded paths_apart_def]
  let ?P = sample_paths and ?fs0 = "ho_files sample_host"
  let ?fs1 = "?fs0(pa_outputsAddresses ?P := None, pa_tokenEnv ?P := None, pa_rollupConfig ?P := None)"
  let ?fs2 = "?fs1(pa_jwtSecret ?P \<mapsto> bytesToHex (zeros 32) @ [CHR 0x0A])"
  let ?fs3 = "?fs2(pa_chainGenesis ?P \<mapsto> join [CHR 0x0A] (genesis_lines sample_anchor))"
  let ?fs4 = "?fs3(pa_rollupConfig ?P \<mapsto> ''{}'')"
  have only: "?fs0 path = None" if "path \<noteq> pa_l1Addresses ?P" for path using that by (simp add: sample_host_def)
  have "readEnvFile ?fs2 (pa_l1Addresses ?P) = readEnvFile ?fs0 (pa_l1Addresses ?P)"
    using d by (auto simp: readEnvFile_def)
  then have v: "readEnvFile ?fs2 (pa_l1Addresses ?P) =
      [''L1_GENESIS_HASH'' \<mapsto> ''0x'' @ replicate 64 (CHR ''a''), ''L1_GENESIS_NUMBER'' \<mapsto> ''7'']" by (simp only: sample_vars)
  obtain p where p: "chainParams ?fs3 ?P sample_env = Ok p" using sample_params [of ?fs3] d by auto
  have "chainParams ?fs4 ?P sample_env = chainParams ?fs3 ?P sample_env"
    by (rule deploymentVars_cong) (use d in auto)
  with p have p4: "chainParams ?fs4 ?P sample_env = Ok p" by simp
  have jwt: "\<exists>h'. ensureJwt ?P (zeros 32) h = (Done (), h') \<and> ho_files h' = ?fs2" if "ho_files h = ?fs1" for h
    using that only [of "pa_jwtSecret ?P"] d by (auto simp: ensureJwt_def hbnd_def hfiles_def)
  have anchor: "\<exists>h'. anchorRollup sample_l1 ?P h = (Done (), h') \<and> ho_files h' = ?fs3" if "ho_files h = ?fs2" for h
    using that v sample_bigint by (simp add: anchorRollup_def sample_l1_def sample_anchor_def hbnd_def hfiles_def del: append.simps)
  have gen: "\<exists>h'. generateRollupConfig (\<lambda>s. s) sample_spawn ?P sample_env m h = (Done (), h') \<and> ho_files h' = ?fs4"
    if "ho_files h = ?fs3" for h m
    using sample_generate [of h p m] that p by simp
  have no: "\<not> anchored_already sample_l1 ?P ?fs0"
    using only [of "pa_rollupConfig ?P"] d by (auto simp: anchored_already_def Let_def)
  have remote: "or_else (sample_env ''MACHINE_REMOTE'') [] \<noteq> []" by (simp add: or_else_def sample_env_def)
  let ?h1 = "sample_host\<lparr>ho_files := ?fs1\<rparr>"
  obtain h2 where h2: "ensureJwt ?P (zeros 32) ?h1 = (Done (), h2)" "ho_files h2 = ?fs2" using jwt [of ?h1] by auto
  obtain h3 where h3: "anchorRollup sample_l1 ?P h2 = (Done (), h3)" "ho_files h3 = ?fs3" using anchor [OF h2(2)] by auto
  let ?m = "\<lparr>mo_remote = Some (or_else (sample_env ''MACHINE_REMOTE'') []), mo_snapshot = Some (or_else (sample_env ''MACHINE_SNAPSHOT'') ''/snapshot'')\<rparr>"
  obtain h4 where h4: "generateRollupConfig (\<lambda>s. s) sample_spawn ?P sample_env ?m h3 = (Done (), h4)" "ho_files h4 = ?fs4"
    using gen [OF h3(2), of ?m] by auto
  have "fst sample_genesis = Done ()"
    using no remote h2(1) h3(1) h4(1) p4 h4(2)
    by (simp add: genesis_step_def Let_def hbnd_def hfiles_def chainFlags_def del: append.simps fun_upd_apply)
  then show ?thesis by (metis prod.collapse)
qed

theorem genesis_step_agrees_witness:
  "\<exists>anchor p bin machine. l1_getBlock sample_l1 (int (bk_number anchor)) = Some anchor \<and>
    map_option toLowerCase (readEnvFile (ho_files sample_host) (pa_l1Addresses sample_paths) ''L1_GENESIS_HASH'') = Some (bk_hash anchor) \<and>
    chainParams (ho_files (snd sample_genesis)) sample_paths sample_env = Ok p \<and>
    cp_genesisTimestamp p = dec (bk_timestamp anchor) \<and> cp_l1GenesisHash p = bk_hash anchor \<and>
    cp_l1GenesisNumber p = dec (bk_number anchor) \<and>
    ho_ran (snd sample_genesis) = ho_ran sample_host @
      [bin @ [''genesis''] @ (consensus_flags (\<lambda>s. s) p @ machine) @ genesis_flags (\<lambda>s. s) sample_paths p] \<and>
    ho_files (snd sample_genesis) (pa_chainFlags sample_paths) = Some (join '' '' (consensus_flags (\<lambda>s. s) p) @ [CHR 0x0A])"
  by (rule genesis_step_agrees [OF sample_devnet sample_genesis_Done])


theorem chain_params_are_typed_witness:
  "\<exists>p. chainParams ((ho_files sample_host)(pa_chainGenesis sample_paths \<mapsto> join [CHR 0x0A] (genesis_lines sample_anchor)))
      sample_paths sample_env = Ok p \<and> isHash (cp_l1GenesisHash p) \<and>
    list_all (\<lambda>a. \<exists>b. toAddress (AHex a) = Ok b \<and> length b = 20)
      [cp_batcherAddress p, cp_batchInboxAddress p, cp_depositContractAddress p, cp_l1SystemConfigAddress p]"
proof -
  let ?fs = "(ho_files sample_host)(pa_chainGenesis sample_paths \<mapsto> join [CHR 0x0A] (genesis_lines sample_anchor))"
  have "\<exists>p. chainParams ?fs sample_paths sample_env = Ok p"
    by (rule sample_params) (use sample_devnet(1) in \<open>auto simp: paths_apart_def sample_host_def\<close>)
  with chain_params_are_typed [of ?fs sample_paths sample_env] show ?thesis by blast
qed

end
