(* ===== verification/Boot.thy ===== *)
theory Boot
  imports Application
begin

text \<open>
  Starting and serving (\<^verbatim>\<open>app/src/application.ts\<close>, \<^verbatim>\<open>app/src/ledger.ts\<close>): the drives are opened from their devices, the
  application is assembled over them, and requests are answered one after the other, the drive flushed before each answer.
  Opening a device is node's \<open>fsOpen\<close>, and a handle is the \<open>handle\<close> of Store; both are parameters. \<^verbatim>\<open>Rollup.run\<close> asks the
  platform for the next request and calls the handler that matches it, so what it runs is a list of requests.
\<close>

section \<open>Devices\<close>

definition openDevice :: "(bytes \<Rightarrow> bytes) \<Rightarrow> 'f handle \<Rightarrow> (string \<Rightarrow> 'f res) \<Rightarrow> string \<Rightarrow> 'f Ledger res" where
  "openDevice H h fsOpen path = rbind (fsOpen path) (\<lambda>f. Ledger_create H (FileStore h) f)"

definition ledger_inMemory :: "(bytes \<Rightarrow> bytes) \<Rightarrow> bytes Ledger res" where
  "ledger_inMemory H = Ledger_create H MemStore (MemStore_new (OfLength (nat (or0 (c_driveLength DEVNET_DRIVE_CONFIG)))))"

text \<open>Only a \<^verbatim>\<open>FileStore\<close> has something to flush; \<open>flush\<close> is its \<^verbatim>\<open>sync\<close>, and \<open>None\<close> for any other store.\<close>

definition ledger_sync :: "('s, unit) prog option \<Rightarrow> ('s Ledger, unit) prog" where
  "ledger_sync flush = (case flush of
     None \<Rightarrow> ret ()
   | Some sync \<Rightarrow> zoom (fst \<circ> jst) (\<lambda>s l. l\<lparr>jst := (s, snd (jst l))\<rparr>) sync)"

definition abi_sync :: "('a, unit) prog option \<Rightarrow> ('a \<times> AbiDrive, unit) prog" where
  "abi_sync flush = (case flush of
     None \<Rightarrow> ret ()
   | Some sync \<Rightarrow> zoom fst (\<lambda>a ad. (a, snd ad)) sync)"

section \<open>Boot\<close>

record ApplicationOptions =
  op_chainId :: nat
  op_owner :: bytes
  op_accountsDevice :: "string option"
  op_abiDevice :: "string option"
  op_abiDriveConfig :: "AbiDriveConfig option"

text \<open>\<^verbatim>\<open>a ?? b ?? c\<close>.\<close>

fun first_set :: "'v option list \<Rightarrow> 'v \<Rightarrow> 'v" where
  "first_set [] d = d"
| "first_set (Some v # vs) d = v"
| "first_set (None # vs) d = first_set vs d"

definition boot ::
  "(bytes \<Rightarrow> string) \<Rightarrow> (bytes \<Rightarrow> bytes) \<Rightarrow> 'f handle \<Rightarrow> (string \<Rightarrow> 'f res) \<Rightarrow> (string list \<Rightarrow> AbiItem list) \<Rightarrow>
     (string \<Rightarrow> string option) \<Rightarrow> ApplicationOptions \<Rightarrow> 'r \<Rightarrow> ('f, 'r, 'f) Application res" where
  "boot shown H h fsOpen parseAbi penv opts app =
     (let accountsDevice = first_set [op_accountsDevice opts, penv ''ACCOUNTS_DRIVE''] ''/dev/pmem1'';
          abiDevice = first_set [op_abiDevice opts, penv ''ABI_DRIVE''] ''/dev/pmem2'' in
      rbind (openDevice H h fsOpen accountsDevice) (\<lambda>ledger.
      rbind (fsOpen abiDevice) (\<lambda>a.
      assemble shown (FileStore h) parseAbi (op_abiDriveConfig opts) (op_chainId opts) (op_owner opts) ledger app a)))"

definition inMemory ::
  "(bytes \<Rightarrow> string) \<Rightarrow> (bytes \<Rightarrow> bytes) \<Rightarrow> (string list \<Rightarrow> AbiItem list) \<Rightarrow> ApplicationOptions \<Rightarrow> nat \<Rightarrow> 'r \<Rightarrow>
     (bytes, 'r, bytes) Application res" where
  "inMemory shown H parseAbi opts abiDriveLength app =
     rbind (ledger_inMemory H) (\<lambda>ledger.
     assemble shown MemStore parseAbi (op_abiDriveConfig opts) (op_chainId opts) (op_owner opts) ledger app
       (MemStore_new (OfLength abiDriveLength)))"

section \<open>The rollup loop\<close>

datatype Request = Advance AdvanceRequest | Inspect bytes

type_synonym answer = "bool \<times> Emission list"

text \<open>The two callbacks handed to \<^verbatim>\<open>Rollup.run\<close>: the handler, then the flush.\<close>

definition app_sync :: "('s, unit) prog option \<Rightarrow> (('s, 'r, 'a) Application, unit) prog" where
  "app_sync flush = zoom (\<lambda>ap. w_led (ap_world ap)) (\<lambda>l ap. ap\<lparr>ap_world := (ap_world ap)\<lparr>w_led := l\<rparr>\<rparr>) (ledger_sync flush)"

fun serve ::
  "(bytes \<Rightarrow> bytes) \<Rightarrow> 's store \<Rightarrow> Viem \<Rightarrow> ('s, unit) prog option \<Rightarrow> Request \<Rightarrow> (('s, 'r, 'a) Application, answer) prog" where
  "serve H S V flush (Advance req) =
     bnd (run_advance H S V req) (\<lambda>out. bnd (app_sync flush) (\<lambda>_. ret out))"
| "serve H S V flush (Inspect payload) =
     bnd (run_inspect H S V payload) (\<lambda>out. bnd (app_sync flush) (\<lambda>_. ret out))"

text \<open>Before the first request both drives are flushed.\<close>

definition run_start :: "('s, unit) prog option \<Rightarrow> ('a, unit) prog option \<Rightarrow> (('s, 'r, 'a) Application, unit) prog" where
  "run_start flush aflush =
     bnd (zoom ap_abi (\<lambda>ad ap. ap\<lparr>ap_abi := ad\<rparr>) (abi_sync aflush)) (\<lambda>_. app_sync flush)"

text \<open>
  The machine around the loop: an input that is not accepted is rolled back, and a query runs on a fork that is discarded,
  so only an accepted input moves the state the next request finds.
\<close>

fun keeps_state :: "Request \<Rightarrow> answer \<Rightarrow> bool" where
  "keeps_state (Advance req) out = fst out"
| "keeps_state (Inspect payload) out = False"

fun run ::
  "(bytes \<Rightarrow> bytes) \<Rightarrow> 's store \<Rightarrow> Viem \<Rightarrow> ('s, unit) prog option \<Rightarrow> Request list \<Rightarrow>
     ('s, 'r, 'a) Application \<Rightarrow> (answer list \<times> ('s, 'r, 'a) Application) res" where
  "run H S V flush [] ap = Ok ([], ap)"
| "run H S V flush (q # qs) ap =
     (case serve H S V flush q ap of
        (Ok out, ap') \<Rightarrow>
          rbind (run H S V flush qs (if keeps_state q out then ap' else ap)) (\<lambda>(outs, ap''). Ok (out # outs, ap''))
      | (Throw e, ap') \<Rightarrow> Throw e
      | (Diverge, ap') \<Rightarrow> Diverge)"

end
