(* ===== verification/Serving.thy ===== *)
theory Serving
  imports Boot Genesis
begin

text \<open>
  Serving requests. A query ends like an input does, and so every request of the loop is answered; the state the next request
  finds satisfies what the handlers rely on.
\<close>

section \<open>Queries end\<close>

context byte_store
begin

lemma views_of_built_ins_halt:
  assumes H: "keccak_digest H" and V: "viem_ok V" "viem_returns V"
  shows "halts (inv_at H) (registry_view H V look keys call)" "halts (inv_at H) (l1block_view V call)"
    "halts (inv_at H) (config_view V owner call)" "halts (inv_at H) (messenger_view V call)"
    "halts (inv_at H) (erc20_view H S V call)"
  unfolding registry_view_def l1block_view_def config_view_def messenger_view_def erc20_view_def Let_def
  using H V by (intro halts_intros halts_ops; (assumption | auto dest!: decode_ok)?)+

lemma contract_view_halts:
  assumes "viem_returns V" and "\<And>name cb args. cs_views spec name = Some cb \<Longrightarrow> halts (inv_at H) (cb args call)"
  shows "halts (inv_at H) (contract_view V spec call)"
  unfolding contract_view_def Let_def by (intro halts_intros assms(1)) (use assms(2) in blast)

lemma handler_view_halts:
  assumes "keccak_digest H" and "viem_ok V" and "viem_returns V" and "views_halt (inv_at H) Rt"
    and "resolve Rt dst block deposit l = Some h" and "handler_view H S V Rt h = Some view"
  shows "halts (inv_at H) (view call)"
  using assms resolve_manifest [of Rt dst block deposit l]
  by (cases h) (auto intro!: views_of_built_ins_halt contract_view_halts simp: views_halt_def)

lemma inspect_call_answers:
  assumes "keccak_digest H" and "viem_ok V" and "viem_returns V" and "views_halt (inv_at H) Rt" and inv: "inv_at H (w_led w)"
  shows "\<exists>res w'. inspect_call H S V Rt call w = (Ok res, w')"
proof -
  let ?c = "\<lparr>call_sender = dc_from call, call_to = dc_to call, call_value = dc_value call, call_data = dc_data call\<rparr>"
  have "view ?c w \<noteq> (Diverge, w')"
    if "resolve Rt (dc_to call) None None (w_led w) = Some h" "handler_view H S V Rt h = Some view" for h view w'
    using haltsD [OF handler_view_halts [OF assms(1-4) that, of ?c] _ inv] by blast
  then show ?thesis
    by (auto simp: inspect_call_def try_catch_def bnd_def gets_def ret_def split: option.split res.split prod.split)
qed

lemma inspect_simulate_answers:
  assumes H: "keccak_digest H" and V: "viem_ok V" "viem_returns V"
    and con: "contracts_respect (keeps_since contents ok H) Rt" "contracts_halt (inv_at H) Rt"
    and call: "length (dc_from call) = 20" "length (dc_to call) = 20" and inv: "inv_at H (w_led w)"
  shows "\<exists>res w'. inspect_simulate H S V Rt call w = (Ok res, w')"
proof -
  let ?block = "case lastBlock Rt of Some b \<Rightarrow> b | None \<Rightarrow> emptyBlock (cfg_chainId Rt)"
  let ?ctx = "\<lparr>ctx_block = ?block, ctx_sender = dc_from call, ctx_to = dc_to call, ctx_value = dc_value call,
      ctx_data = dc_data call, ctx_isDeposit = False, ctx_mint = 0\<rparr>"
  let ?w = "w\<lparr>w_sink := BufferSink (b_inputIndex ?block)\<rparr>"
  have ctx: "ctx_ok ?ctx" using call by (simp add: ctx_ok_def)
  obtain r w1 where run: "transfer_and_dispatch H S V Rt ?ctx None ?w = (r, w1)" by (cases "transfer_and_dispatch H S V Rt ?ctx None ?w")
  have "r \<noteq> Diverge" using dispatch_returns [OF H V con(2) ctx, of ?w None w1] inv run by auto
  moreover have "since contents ok H (w_led w) (w_led w1)"
    using stepsD [OF relay_client.transfer_and_dispatch_steps [OF keeps_since_relay [OF H] H V(1) ctx con(1)] run] since_refl [OF inv]
    by (simp add: keeps_since_def)
  then obtain w2 where "on_led (rollback_to H S (mark (w_led w))) w1 = (Ok (), w2)" by (rule halts_rollback)
  ultimately show ?thesis
    using run by (cases r) (auto simp: inspect_simulate_def Let_def try_catch_def)
qed

lemma inspect_answers:
  assumes "keccak_digest H" and "viem_ok V" and "viem_returns V"
    and "contracts_respect (keeps_since contents ok H) Rt" and "contracts_halt (inv_at H) Rt" and "views_halt (inv_at H) Rt"
    and "inv_at H (w_led w)"
  shows "\<exists>res w'. router_inspect H S V Rt payload w = (Ok res, w')"
proof (cases "decodeEvmCall V payload")
  case (Some call)
  note adr = decoded_call_addresses [OF assms(2) Some]
  show ?thesis
    using Some inspect_call_answers [OF assms(1-3,6,7), of call] inspect_simulate_answers [OF assms(1-5) adr assms(7)]
    by (simp add: router_inspect_def)
qed (simp add: router_inspect_def)

end

section \<open>The loop\<close>

text \<open>What the loop relies on of \<^verbatim>\<open>datasync\<close>: it returns and the device still has the same bytes.\<close>

definition flush_ok :: "('s \<Rightarrow> bytes) \<Rightarrow> ('s \<Rightarrow> bool) \<Rightarrow> ('s, unit) prog option \<Rightarrow> bool" where
  "flush_ok contents ok flush \<longleftrightarrow> (\<forall>sync s. flush = Some sync \<longrightarrow> ok s \<longrightarrow>
     (\<exists>s'. sync s = (Ok (), s') \<and> contents s' = contents s \<and> ok s'))"

text \<open>An application that can serve: ready, and its callbacks come to an end.\<close>

definition live :: "('s \<Rightarrow> bytes) \<Rightarrow> ('s \<Rightarrow> bool) \<Rightarrow> (bytes \<Rightarrow> bytes) \<Rightarrow> ('s, 'r, 'a) Application \<Rightarrow> bool" where
  "live contents ok H ap \<longleftrightarrow> ready contents ok H (\<lambda>_ _. True) ap \<and>
     contracts_halt (ledger_inv contents ok H) (ap_router ap) \<and> views_halt (ledger_inv contents ok H) (ap_router ap)"

definition signed_ok :: "Viem \<Rightarrow> Request \<Rightarrow> bool" where
  "signed_ok V q \<longleftrightarrow> (case q of Advance req \<Rightarrow> signer_nonzero V (rq_payload req) | Inspect payload \<Rightarrow> True)"

lemma halt_lastBlock [simp]:
  "contracts_halt I (Rt\<lparr>lastBlock := b\<rparr>) = contracts_halt I Rt" "views_halt I (Rt\<lparr>lastBlock := b\<rparr>) = views_halt I Rt"
  by (simp_all add: contracts_halt_def views_halt_def)

lemma sync_live:
  assumes "live contents ok H ap" and "flush_ok contents ok flush"
  obtains ap' where "app_sync flush ap = (Ok (), ap')" and "live contents ok H ap'"
    and "ap_router ap' = ap_router ap" and "w_app (ap_world ap') = w_app (ap_world ap)"
proof (cases flush)
  case None
  with assms that [of ap] show ?thesis by (simp add: app_sync_def ledger_sync_def zoom_def)
next
  case (Some sync)
  let ?l = "led_of ap"
  have inv: "ledger_inv contents ok H ?l" using assms(1) by (simp add: live_def ready_def)
  then obtain s' where s: "sync (fst (jst ?l)) = (Ok (), s')" "contents s' = contents (fst (jst ?l))" "ok s'"
    using assms(2) Some by (auto simp: flush_ok_def ledger_inv_def)
  let ?l' = "?l\<lparr>jst := (s', snd (jst ?l))\<rparr>"
  have "ledger_inv contents ok H ?l'" using inv s by (simp add: ledger_inv_def)
  with that [of "ap\<lparr>ap_world := (ap_world ap)\<lparr>w_led := ?l'\<rparr>\<rparr>"] assms(1) Some s(1) show ?thesis
    by (simp add: app_sync_def ledger_sync_def zoom_def live_def ready_def)
qed

context byte_store
begin

lemma trivial_client: "input_client S H (\<lambda>_ _. True) contents ok"
  by unfold_locales simp_all

lemma advance_live:
  assumes H: "keccak_digest H" and V: "viem_ok V" "viem_returns V" and ap: "live contents ok H ap"
    and nz: "signer_nonzero V (rq_payload req)"
  obtains out ap' where "run_advance H S V req ap = (Ok out, ap')" and "live contents ok H ap'"
proof -
  let ?Rt = "(ap_router ap)\<lparr>lastBlock := Some (blockContext req)\<rparr>"
  have l: "contracts_respect (keeps_since contents ok H) ?Rt" "contracts_halt (inv_at H) ?Rt"
    "inv_at H (led_of ap)" "snd (jst (led_of ap)) = []" using ap by (simp_all add: live_def ready_def)
  obtain r w' where run: "router_advance H S V ?Rt (blockContext req) (rq_payload req) (ap_world ap) = (r, w')"
    by (cases "router_advance H S V ?Rt (blockContext req) (rq_payload req) (ap_world ap)")
  have "r \<noteq> Diverge" using advance_halts [OF H V nz l, of "blockContext req"] run by simp
  then obtain res where r: "r = Ok res"
    using input_client.advance_respects [OF trivial_client H V(1) nz l(1) _ l(3,4) run] by (auto simp: contracts_respect_def steps_def)
  let ?ap = "ap\<lparr>ap_router := ?Rt, ap_world := w'\<rparr>"
  have "run_advance H S V req ap = (Ok (ar_accept res, emitted res), ?ap)"
    using run r by (simp add: run_advance_def Let_def zoom_def)
  moreover from input_client.advance_ready [OF trivial_client H V(1) _ nz this] ap have "live contents ok H ?ap" by (simp add: live_def)
  ultimately show ?thesis by (rule that)
qed

lemma inspect_live:
  assumes H: "keccak_digest H" and V: "viem_ok V" "viem_returns V" and ap: "live contents ok H ap"
  obtains out ap' where "run_inspect H S V payload ap = (Ok out, ap')" and "live contents ok H ap'"
proof -
  let ?Rt = "ap_router ap"
  have l: "contracts_respect (keeps_since contents ok H) ?Rt" "contracts_halt (inv_at H) ?Rt" "views_halt (inv_at H) ?Rt"
    "inv_at H (led_of ap)" using ap by (simp_all add: live_def ready_def)
  obtain res w' where run: "router_inspect H S V ?Rt payload (ap_world ap) = (Ok res, w')"
    using inspect_answers [OF H V l] by blast
  let ?ap = "ap\<lparr>ap_world := w'\<rparr>"
  have "run_inspect H S V payload ap = (Ok (ir_accept res, map Report (ir_reports res)), ?ap)"
    using run by (simp add: run_inspect_def zoom_def)
  moreover from input_client.inspect_ready [OF trivial_client H V(1) _ this] ap have "live contents ok H ?ap" by (simp add: live_def)
  ultimately show ?thesis by (rule that)
qed

lemma serve_live:
  assumes "keccak_digest H" and "viem_ok V" and "viem_returns V" and "flush_ok contents ok flush" and "live contents ok H ap"
    and "signed_ok V q"
  obtains out ap' where "serve H S V flush q ap = (Ok out, ap')" and "live contents ok H ap'"
proof (cases q)
  case (Advance req)
  with assms(6) have nz: "signer_nonzero V (rq_payload req)" by (simp add: signed_ok_def)
  obtain out ap1 where 1: "run_advance H S V req ap = (Ok out, ap1)" "live contents ok H ap1"
    by (rule advance_live [OF assms(1-3,5) nz])
  obtain ap2 where "app_sync flush ap1 = (Ok (), ap2)" "live contents ok H ap2" by (rule sync_live [OF 1(2) assms(4)])
  with 1 Advance that show ?thesis by simp
next
  case (Inspect payload)
  obtain out ap1 where 1: "run_inspect H S V payload ap = (Ok out, ap1)" "live contents ok H ap1"
    by (rule inspect_live [OF assms(1-3,5)])
  obtain ap2 where "app_sync flush ap1 = (Ok (), ap2)" "live contents ok H ap2" by (rule sync_live [OF 1(2) assms(4)])
  with 1 Inspect that show ?thesis by simp
qed

lemma run_live:
  assumes "keccak_digest H" and "viem_ok V" and "viem_returns V" and "flush_ok contents ok flush"
  shows "live contents ok H ap \<Longrightarrow> list_all (signed_ok V) qs \<Longrightarrow>
    \<exists>outs ap'. run H S V flush qs ap = Ok (outs, ap') \<and> length outs = length qs \<and> live contents ok H ap'"
proof (induction qs arbitrary: ap)
  case Nil
  then show ?case by simp
next
  case (Cons q qs)
  obtain out ap1 where 1: "serve H S V flush q ap = (Ok out, ap1)" "live contents ok H ap1"
    by (rule serve_live [OF assms Cons.prems(1)]) (use Cons.prems(2) in auto)
  let ?ap = "if keeps_state q out then ap1 else ap"
  have "live contents ok H ?ap" using 1(2) Cons.prems(1) by simp
  with Cons.IH [of ?ap] Cons.prems(2) obtain outs ap' where
    "run H S V flush qs ?ap = Ok (outs, ap')" "length outs = length qs" "live contents ok H ap'" by auto
  with 1(1) show ?case by simp
qed

end

end
