(* ===== verification/Demo.thy ===== *)
theory Demo
  imports Boot Devnet_Env
begin

text \<open>
  The devnet application (\<^verbatim>\<open>demo/src/index.ts\<close>): the library booted with one contract, a counter whose state is a variable of
  the program, here the application part of the world. \<^verbatim>\<open>parseAbi\<close> and \<^verbatim>\<open>getAddress\<close> are \<^verbatim>\<open>viem\<close>'s and parameters.
\<close>

definition CHAIN_ID :: "vars \<Rightarrow> int res" where
  "CHAIN_ID penv = toBigInt (or_else (penv ''CHAIN_ID'') ''901'')"

definition OWNER :: "(string \<Rightarrow> bytes res) \<Rightarrow> vars \<Rightarrow> bytes res" where
  "OWNER parseAddress penv = parseAddress (or_else (penv ''OWNER'') ''0x90F79bf6EB2c4f870365E785982E1f101E93b906'')"

definition counterAbi :: "string list" where
  "counterAbi = [''function increment()'', ''function count() view returns (uint256)'']"

definition COUNTER_ADDRESS :: bytes where
  "COUNTER_ADDRESS = [0xc0, 0xde] @ zeros 17 @ [0x01]"

definition counter :: "(string list \<Rightarrow> AbiItem list) \<Rightarrow> ('s, nat) ContractSpec" where
  "counter parseAbi =
     \<lparr>cs_address = COUNTER_ADDRESS, cs_abi = parseAbi counterAbi, cs_payable = None,
      cs_transactions = [''increment'' \<mapsto> (\<lambda>args ctx. modify (\<lambda>w. w\<lparr>w_app := w_app w + 1\<rparr>))],
      cs_views = [''count'' \<mapsto> (\<lambda>args call. bnd (gets w_app) (\<lambda>count. ret (VUint count)))]\<rparr>"

text \<open>What \<^verbatim>\<open>main\<close> does before it serves.\<close>

definition demo_boot ::
  "(bytes \<Rightarrow> string) \<Rightarrow> (bytes \<Rightarrow> bytes) \<Rightarrow> 'f handle \<Rightarrow> (string \<Rightarrow> 'f res) \<Rightarrow> (string list \<Rightarrow> AbiItem list) \<Rightarrow>
     vars \<Rightarrow> nat \<Rightarrow> bytes \<Rightarrow> ('f, nat, 'f) Application res" where
  "demo_boot shown H h fsOpen parseAbi penv chainId owner =
     rbind (boot shown H h fsOpen parseAbi penv
        \<lparr>op_chainId = chainId, op_owner = owner, op_accountsDevice = None, op_abiDevice = None, op_abiDriveConfig = None\<rparr> 0)
       (\<lambda>app. case contract shown (FileStore h) (counter parseAbi) app of
          (Ok _, app') \<Rightarrow> Ok app' | (Throw e, _) \<Rightarrow> Throw e | (Diverge, _) \<Rightarrow> Diverge)"

end
