(* ===== verification/Demo_Properties.thy ===== *)
theory Demo_Properties
  imports Serving Demo Samples
begin

text \<open>
  The counter counts. No built-in handler touches the application's own state, so the count moves only where the router
  dispatches to the counter; and there it moves by one for every input that calls \<^verbatim>\<open>increment\<close> and is neither rejected nor
  reverted.
\<close>

section \<open>Application state\<close>

definition app_same :: "(('s, 'r) World, 'a) prog \<Rightarrow> bool" where
  "app_same m \<longleftrightarrow> (\<forall>w. w_app (snd (m w)) = w_app w)"

named_theorems app_intros \<open>programs that leave the application's state\<close>

lemma app_sameD: "app_same m \<Longrightarrow> m w = (r, w') \<Longrightarrow> w_app w' = w_app w"
  unfolding app_same_def by (metis snd_conv)

lemma app_basic [app_intros]:
  "app_same (ret a)" "app_same (raise e)" "app_same (lift r)" "app_same (gets f)" "app_same (on_led m)" "app_same (on_sink k)"
  "app_same (revert V reason)" "app_same (view_revert V reason)" "app_same (modify (w_attributes_update g))"
  by (simp_all add: app_same_def on_led_def on_sink_def zoom_def revert_def view_revert_def split: prod.split)

lemma app_bnd [app_intros]:
  assumes "app_same m" and "\<And>a. app_same (f a)"
  shows "app_same (bnd m f)"
  unfolding app_same_def
proof
  fix w
  show "w_app (snd (bnd m f w)) = w_app w"
    by (rule bnd_cases [of m w f]) (use assms app_sameD [OF assms(1)] in \<open>auto simp: app_same_def\<close>)
qed

lemma app_try_catch [app_intros]:
  assumes m: "app_same m" and h: "\<And>e. app_same (h e)"
  shows "app_same (try_catch m h)"
  unfolding app_same_def
proof
  fix w
  obtain r w' where m': "m w = (r, w')" by (cases "m w")
  then have "w_app w' = w_app w" using m by (rule app_sameD [rotated])
  with m' h show "w_app (snd (try_catch m h w)) = w_app w"
    by (cases r) (auto simp: try_catch_def app_same_def)
qed

lemma app_if [app_intros]: "app_same f \<Longrightarrow> app_same g \<Longrightarrow> app_same (if b then f else g)"
  by simp

lemma app_cases [app_intros]:
  "app_same f \<Longrightarrow> (\<And>a. app_same (g a)) \<Longrightarrow> app_same (case x of None \<Rightarrow> f | Some a \<Rightarrow> g a)"
  "(\<And>a b. app_same (h a b)) \<Longrightarrow> app_same (case p of (a, b) \<Rightarrow> h a b)"
  "app_same f \<Longrightarrow> (\<And>y ys. app_same (k y ys)) \<Longrightarrow> app_same (case xs of [] \<Rightarrow> f | y # ys \<Rightarrow> k y ys)"
  by (simp_all split: option.split prod.split list.split)

lemma app_case_abi [app_intros]:
  "(\<And>n. app_same (f1 n)) \<Longrightarrow> (\<And>n. app_same (f2 n)) \<Longrightarrow> (\<And>n. app_same (f3 n)) \<Longrightarrow> (\<And>n. app_same (f4 n)) \<Longrightarrow>
   (\<And>n. app_same (f5 n)) \<Longrightarrow> (\<And>n. app_same (f6 n)) \<Longrightarrow> (\<And>n. app_same (f7 n)) \<Longrightarrow>
   app_same (case x of VUint n \<Rightarrow> f1 n | VNeg n \<Rightarrow> f2 n | VAddr n \<Rightarrow> f3 n | VBytes n \<Rightarrow> f4 n | VString n \<Rightarrow> f5 n
      | VBool n \<Rightarrow> f6 n | VList n \<Rightarrow> f7 n)"
  by (simp split: abi.split)

lemma app_case_exn [app_intros]:
  "(\<And>k m. app_same (f1 k m)) \<Longrightarrow> (\<And>m. app_same (f2 m)) \<Longrightarrow> (\<And>k m. app_same (f3 k m)) \<Longrightarrow> (\<And>d m. app_same (f4 d m)) \<Longrightarrow>
   (\<And>d m. app_same (f5 d m)) \<Longrightarrow> (\<And>m. app_same (f6 m)) \<Longrightarrow> (\<And>m. app_same (f7 m)) \<Longrightarrow>
   app_same (case x of AccountsDriveError k m \<Rightarrow> f1 k m | InsufficientFunds m \<Rightarrow> f2 m | AbiDriveError k m \<Rightarrow> f3 k m
      | RevertExn d m \<Rightarrow> f4 d m | FailExn d m \<Rightarrow> f5 d m | Error m \<Rightarrow> f6 m | RangeError m \<Rightarrow> f7 m)"
  by (simp split: exn.split)

lemma app_out [app_intros]:
  "app_same (out_log V e l)" "app_same (out_voucher d p)" "app_same (out_withdrawal H V s t v g x)" "app_same (view_return V abi fn y)"
  unfolding out_log_def out_voucher_def out_withdrawal_def view_return_def by (intro app_intros)+

lemma app_bridge: "app_same (bridge_advance H S V ctx)"
  unfolding bridge_advance_def withdrawEther_def withdrawERC20_def debit_or_revert_def Let_def by (intro app_intros)

lemma app_portal: "app_same (portal_advance H S V ctx)" "app_same (passer_advance H S V ctx)"
  unfolding portal_advance_def portal_ether_def portal_erc20_def passer_advance_def Let_def by (intro app_intros)+

lemma app_erc20: "app_same (erc20_advance H S V ctx)" "app_same (l1block_advance V ctx)"
  unfolding erc20_advance_def erc20_transfer_def l1block_advance_def Let_def by (intro app_intros)+

lemma app_config: "app_same (config_advance H S V owner self ctx)"
  unfolding config_advance_def config_setFee_def config_setTokenMetadata_def config_registerPortal_def
    config_registerMessenger_def config_registerToken_def Let_def
  by (intro app_intros) (auto intro!: app_intros split: ErrorKind.split)

lemma app_send: "app_same (sendCrossDomainMessage H V cd a)"
  unfolding sendCrossDomainMessage_def Let_def by (intro app_intros)

lemma app_dispatch: "app_same (dispatch H S V m cd)"
  unfolding dispatch_def finalizeFromMessenger_def finalizeBridgeERC20_def finalizeBridgeETH_def Let_def by (intro app_intros)

lemma app_messaging: "app_same (l2bridge_advance H S V ctx)" "app_same (messenger_advance H S V ctx)"
  unfolding l2bridge_advance_def l2bridge_initiate_def debit_or_revert_def messenger_advance_def relay_checked_def relay_def Let_def
  by (intro app_intros app_send app_dispatch)+

lemmas app_handlers = app_bridge app_portal app_erc20 app_config app_messaging

section \<open>Calls of the counter\<close>

text \<open>What the demo relies on of \<^verbatim>\<open>parseAbi\<close>: the mutability of the two functions of its ABI.\<close>

definition counter_parsed :: "(string list \<Rightarrow> AbiItem list) \<Rightarrow> bool" where
  "counter_parsed parseAbi \<longleftrightarrow> mutabilityOf (parseAbi counterAbi) ''increment'' = Some ''nonpayable'' \<and>
     mutabilityOf (parseAbi counterAbi) ''count'' = Some ''view''"

definition calls_fn :: "Viem \<Rightarrow> AbiItem list \<Rightarrow> string \<Rightarrow> bytes \<Rightarrow> bool" where
  "calls_fn V abi fn data \<longleftrightarrow> (case tryDecodeCalldata V (signatures abi) data of None \<Rightarrow> False | Some (name, _) \<Rightarrow> name = fn)"

text \<open>An input that calls \<^verbatim>\<open>increment\<close>, sending no value along.\<close>

definition increments :: "Viem \<Rightarrow> AbiItem list \<Rightarrow> bytes \<Rightarrow> bool" where
  "increments V abi raw \<longleftrightarrow> (case parseInput V raw of
     Deposit d \<Rightarrow> dep_to d = Some COUNTER_ADDRESS \<and> dep_value d = 0 \<and> calls_fn V abi ''increment'' (dep_data d)
   | Signed tx \<Rightarrow> sg_to tx = Some COUNTER_ADDRESS \<and> sg_value tx = 0 \<and> calls_fn V abi ''increment'' (sg_data tx)
   | _ \<Rightarrow> False)"

definition hits :: "Viem \<Rightarrow> AbiItem list \<Rightarrow> TxContext \<Rightarrow> bool" where
  "hits V abi ctx \<longleftrightarrow> ctx_to ctx = COUNTER_ADDRESS \<and> ctx_value ctx = 0 \<and> calls_fn V abi ''increment'' (ctx_data ctx)"

definition routes_counter :: "(string list \<Rightarrow> AbiItem list) \<Rightarrow> ('s, nat) Router \<Rightarrow> bool" where
  "routes_counter parseAbi Rt \<longleftrightarrow>
     manifest Rt = manifest (new_Router 0 [] :: ('s, nat) Router) @ [(COUNTER_ADDRESS, HContract (counter parseAbi))]"

lemma routes_counter_map: "routes_counter parseAbi Rt \<Longrightarrow> map_of (manifest Rt) COUNTER_ADDRESS = Some (HContract (counter parseAbi))"
  by (simp add: routes_counter_def new_Router_def COUNTER_ADDRESS_def address_defs)

lemma routes_counter_contract:
  "routes_counter parseAbi Rt \<Longrightarrow> (a, HContract spec) \<in> set (manifest Rt) \<Longrightarrow> a = COUNTER_ADDRESS \<and> spec = counter parseAbi"
  by (auto simp: routes_counter_def new_Router_def)

lemma resolve_counter: "routes_counter parseAbi Rt \<Longrightarrow> resolve Rt COUNTER_ADDRESS b dep l = Some (HContract (counter parseAbi))"
  by (simp add: resolve_def routes_counter_map)

lemma resolve_contract:
  assumes "routes_counter parseAbi Rt" and "resolve Rt dst b dep l = Some (HContract spec)"
  shows "dst = COUNTER_ADDRESS \<and> spec = counter parseAbi"
proof -
  from assms(2) have "map_of (manifest Rt) dst = Some (HContract spec)" by (auto simp: resolve_def split: option.splits if_splits)
  then show ?thesis using routes_counter_contract [OF assms(1)] by (blast dest: map_of_SomeD)
qed

lemma counter_advance:
  assumes "counter_parsed parseAbi"
  shows "if calls_fn V (parseAbi counterAbi) ''increment'' (ctx_data ctx)
    then contract_advance V (counter parseAbi) ctx w = (Ok Accept, w\<lparr>w_app := w_app w + 1\<rparr>)
    else \<exists>data. contract_advance V (counter parseAbi) ctx w = (Ok (Revert data), w)"
  using assms by (auto simp: contract_advance_def counter_def counter_parsed_def calls_fn_def revert_def try_catch_def Let_def
      split: option.splits)

lemma transfer_counts:
  assumes "counter_parsed parseAbi" and Rt: "routes_counter parseAbi Rt"
    and run: "transfer_and_dispatch H S V Rt ctx dep w = (r, w')"
  shows "w_app w' = w_app w + of_bool (hits V (parseAbi counterAbi) ctx \<and> r = Ok Accept)"
    and "hits V (parseAbi counterAbi) ctx \<Longrightarrow> r = Ok a \<Longrightarrow> a = Accept \<and> w_sink w' = w_sink w"
proof -
  let ?hits = "hits V (parseAbi counterAbi) ctx"
  let ?k = "\<lambda>h. case h of None \<Rightarrow> ret Accept | Some handler \<Rightarrow>
      if ctx_value ctx > 0 \<and> \<not> payable handler then revert V ''not payable''
      else (case handler_advance H S V Rt handler of None \<Rightarrow> revert V ''not a transaction target'' | Some adv \<Rightarrow> adv ctx)"
  have led: "w_app w2 = w_app w1 \<and> w_sink w2 = w_sink w1" if "on_led m w1 = (x, w2)" for m :: "('a Ledger, unit) prog" and w1 x w2
    using that by (auto simp: on_led_def zoom_def split: prod.splits)
  have k: "w_app w2 = w_app w1 + of_bool (?hits \<and> r = Ok Accept) \<and> (?hits \<longrightarrow> r = Ok Accept \<and> w_sink w2 = w_sink w1)"
    if k: "?k (resolve Rt (ctx_to ctx) (Some (ctx_block ctx)) dep (w_led w1)) w1 = (r, w2)" for w1 w2
  proof (cases "ctx_to ctx = COUNTER_ADDRESS")
    case True
    then have "(if ctx_value ctx > 0 then revert V ''not payable'' w1 else contract_advance V (counter parseAbi) ctx w1) = (r, w2)"
      using k Rt by (simp add: resolve_counter counter_def split: if_splits)
    with counter_advance [OF assms(1), of V ctx w1] True show ?thesis
      by (auto simp: hits_def revert_def split: if_splits)
  next
    case False
    have "app_same (?k (resolve Rt (ctx_to ctx) (Some (ctx_block ctx)) dep (w_led w1)))"
      using resolve_contract [OF Rt] False by (auto intro!: app_intros app_handlers split: option.split elim!: handler_advance.elims)
    from app_sameD [OF this k] False show ?thesis by (simp add: hits_def)
  qed
  from run have *: "w_app w' = w_app w + of_bool (?hits \<and> r = Ok Accept) \<and> (?hits \<longrightarrow> (\<forall>a. r = Ok a \<longrightarrow> a = Accept \<and> w_sink w' = w_sink w))"
    unfolding transfer_and_dispatch_def
    by (auto simp: bnd_def gets_def split: prod.splits res.splits dest!: led k)
  then show "w_app w' = w_app w + of_bool (?hits \<and> r = Ok Accept)" by simp
  show "a = Accept \<and> w_sink w' = w_sink w" if ?hits "r = Ok a" using * that by simp
qed

lemma settle_accepts:
  assumes "settle H S ch result l = (Ok res, l')" and "ar_accept res"
  shows "res = result"
proof -
  have "\<not> ar_accept r" if "charge H S ch l = (Ok (Some r), l1)" for r l1
    using that by (auto simp: charge_def try_catch_def rejected_def elim!: bnd_OkE split: option.splits prod.splits res.splits)
  with assms show ?thesis by (auto simp: settle_def elim!: bnd_OkE split: option.splits)
qed

lemma finish_accepts:
  assumes "finish H S mrk ch outcome sink l = (Ok res, l')" and "ar_accept res"
  shows "if outcome = Accept then ar_emissions res = emissions sink else ar_emissions res \<noteq> []"
  using assms by (cases outcome) (auto simp: finish_def finished_def rejected_def elim!: bnd_OkE dest!: settle_accepts)

lemma execute_counts:
  assumes "counter_parsed parseAbi" and "routes_counter parseAbi Rt"
    and run: "execute H S V Rt ctx mrk ch w = (Ok res, w')" and acc: "ar_accept res"
  shows "w_app w' = w_app w + of_bool (hits V (parseAbi counterAbi) ctx \<and> ar_emissions res = [])"
proof -
  let ?w = "w\<lparr>w_sink := BufferSink (b_inputIndex (ctx_block ctx))\<rparr>"
  let ?dep = "if ctx_isDeposit ctx then Some (ctx_sender ctx) else None"
  obtain r w1 where d: "transfer_and_dispatch H S V Rt ctx ?dep ?w = (r, w1)" by (cases "transfer_and_dispatch H S V Rt ctx ?dep ?w")
  note t = transfer_counts [OF assms(1,2) d]
  define outcome where "outcome = (case r of Ok a \<Rightarrow> a
    | Throw e \<Rightarrow> if ch \<noteq> None then Revert (errorRevert V (describe e)) else Reject (describe e) | Diverge \<Rightarrow> Accept)"
  from run d have "on_led (finish H S mrk ch outcome (w_sink w1)) w1 = (Ok res, w')" "r \<noteq> Diverge"
    by (auto simp: execute_def try_catch_def outcome_def bnd_def gets_def modify_def ret_def split: res.splits prod.splits)
  then obtain l' where f: "finish H S mrk ch outcome (w_sink w1) (w_led w1) = (Ok res, l')" and w': "w_app w' = w_app w1"
    by (auto simp: on_led_def zoom_def split: prod.splits)
  note e = finish_accepts [OF f acc]
  have "r = Ok Accept \<longleftrightarrow> outcome = Accept" using \<open>r \<noteq> Diverge\<close> by (auto simp: outcome_def split: res.splits if_splits)
  moreover have "emissions (w_sink w1) = []" if "hits V (parseAbi counterAbi) ctx" "r = Ok Accept"
    using t(2) that by (simp add: BufferSink_def)
  ultimately show ?thesis using t(1) w' e by (auto split: if_splits)
qed

lemma led_same_app: "on_led m w = (x, w') \<Longrightarrow> w_app w' = w_app w"
  by (auto simp: on_led_def zoom_def split: prod.splits)

lemma deposit_counts:
  assumes "counter_parsed parseAbi" and "routes_counter parseAbi Rt"
    and run: "advanceDeposit H S V Rt block d w = (Ok res, w')" and acc: "ar_accept res"
  shows "w_app w' = w_app w + of_bool (dep_to d = Some COUNTER_ADDRESS \<and> dep_value d = 0 \<and>
    calls_fn V (parseAbi counterAbi) ''increment'' (dep_data d) \<and> ar_emissions res = [])"
proof (cases "dep_to d")
  case None
  with run show ?thesis by (auto simp: advanceDeposit_def dest!: led_same_app)
next
  case (Some dst)
  have mint: "\<not> ar_accept r"
    if "on_led (try_catch (bnd (creditEther H S a n) (\<lambda>_. ret None)) (\<lambda>_. bnd (rollbackAll H S) (\<lambda>_. ret (Some (rejected why))))) w1 =
      (Ok (Some r), w2)" for a n why r and w1 w2 :: "('a, nat) World"
    using that by (auto simp: on_led_def zoom_def try_catch_def rejected_def elim!: bnd_OkE split: prod.splits res.splits)
  let ?ctx = "\<lparr>ctx_block = block, ctx_sender = dep_from d, ctx_to = dst, ctx_value = dep_value d,
      ctx_data = dep_data d, ctx_isDeposit = True, ctx_mint = dep_mint d\<rparr>"
  obtain refused w1 where m: "on_led (try_catch (bnd (creditEther H S (dep_from d) (int (dep_mint d))) (\<lambda>_. ret None))
        (\<lambda>_. bnd (rollbackAll H S) (\<lambda>_. ret (Some (rejected ''mint refused (drive full)''))))) w = (Ok refused, w1)"
      "(case refused of Some r \<Rightarrow> ret r | None \<Rightarrow> execute H S V Rt ?ctx (mark (w_led w1)) None) w1 = (Ok res, w')"
    using run Some by (auto simp: advanceDeposit_def Let_def elim!: bnd_OkE split: option.splits)
  with mint acc have "execute H S V Rt ?ctx (mark (w_led w1)) None w1 = (Ok res, w')" by (auto split: option.splits)
  from execute_counts [OF assms(1,2) this acc] led_same_app [OF m(1)] Some show ?thesis by (simp add: hits_def)
qed

lemma advance_counts:
  assumes "counter_parsed parseAbi" and "routes_counter parseAbi Rt"
    and run: "router_advance H S V Rt block raw w = (Ok res, w')" and acc: "ar_accept res"
  shows "w_app w' = w_app w + of_bool (increments V (parseAbi counterAbi) raw \<and> ar_emissions res = [])"
  using run acc deposit_counts [OF assms(1,2)] unfolding router_advance_def increments_def
  by (auto simp: advanceSigned_def rejected_def Let_def hits_def elim!: bnd_OkE dest!: led_same_app execute_counts [OF assms(1,2)]
      split: ParsedInput.splits option.splits if_splits prod.splits)

section \<open>Serving the counter\<close>

text \<open>A request the counter is to count: its input calls \<^verbatim>\<open>increment\<close>, and the answer is acceptance without a report.\<close>

fun counted :: "Viem \<Rightarrow> AbiItem list \<Rightarrow> Request \<times> answer \<Rightarrow> bool" where
  "counted V abi (Advance req, out) \<longleftrightarrow> increments V abi (rq_payload req) \<and> out = (True, [])"
| "counted V abi (Inspect payload, out) \<longleftrightarrow> False"

abbreviation count_of :: "('s, nat, 'a) Application \<Rightarrow> nat" where
  "count_of ap \<equiv> w_app (ap_world ap)"

lemma routes_lastBlock [simp]: "routes_counter parseAbi (Rt\<lparr>lastBlock := b\<rparr>) = routes_counter parseAbi Rt"
  by (simp add: routes_counter_def)

lemma app_sync_same: "app_sync flush ap = (x, ap') \<Longrightarrow> ap_router ap' = ap_router ap \<and> w_app (ap_world ap') = w_app (ap_world ap)"
  by (auto simp: app_sync_def zoom_def split: prod.splits)

lemma serve_counts:
  assumes "counter_parsed parseAbi" and Rt: "routes_counter parseAbi (ap_router ap)" and run: "serve H S V flush q ap = (Ok out, ap')"
    and keeps: "keeps_state q out"
  shows "routes_counter parseAbi (ap_router ap') \<and> count_of ap' = count_of ap + of_bool (counted V (parseAbi counterAbi) (q, out))"
proof (cases q)
  case (Inspect payload)
  with keeps show ?thesis by simp
next
  case (Advance req)
  then obtain ap1 where adv: "run_advance H S V req ap = (Ok out, ap1)" and sync: "app_sync flush ap1 = (Ok (), ap')"
    using run by (auto elim!: bnd_OkE)
  show ?thesis
  proof (rule run_advance_runs [OF adv])
    fix res w'
    let ?Rt = "(ap_router ap)\<lparr>lastBlock := Some (blockContext req)\<rparr>"
    assume r: "router_advance H S V ?Rt (blockContext req) (rq_payload req) (ap_world ap) = (Ok res, w')"
      and o: "out = (ar_accept res, emitted res)" and ap1: "ap1 = ap\<lparr>ap_router := ?Rt, ap_world := w'\<rparr>"
    have acc: "ar_accept res" using keeps o Advance by simp
    have "w_app w' = w_app (ap_world ap) + of_bool (increments V (parseAbi counterAbi) (rq_payload req) \<and> ar_emissions res = [])"
      using advance_counts [OF assms(1) _ r acc] Rt by simp
    then show ?thesis using app_sync_same [OF sync] ap1 Rt o acc Advance by (simp add: emitted_def)
  qed
qed

lemma run_Cons:
  assumes "run H S V flush (q # qs) ap = Ok (outs, ap')"
  obtains out ap1 outs' where "serve H S V flush q ap = (Ok out, ap1)"
    and "run H S V flush qs (if keeps_state q out then ap1 else ap) = Ok (outs', ap')" and "outs = out # outs'"
  using assms by (auto split: prod.splits res.splits)

lemma run_counts:
  assumes "counter_parsed parseAbi"
  shows "run H S V flush qs ap = Ok (outs, ap') \<Longrightarrow> routes_counter parseAbi (ap_router ap) \<Longrightarrow>
    routes_counter parseAbi (ap_router ap') \<and>
    count_of ap' = count_of ap + length (filter (counted V (parseAbi counterAbi)) (zip qs outs))"
proof (induction qs arbitrary: ap outs)
  case Nil
  then show ?case by simp
next
  case (Cons q qs)
  obtain out ap1 outs' where q: "serve H S V flush q ap = (Ok out, ap1)"
      "run H S V flush qs (if keeps_state q out then ap1 else ap) = Ok (outs', ap')" "outs = out # outs'"
    by (rule run_Cons [OF Cons.prems(1)])
  let ?ap = "if keeps_state q out then ap1 else ap"
  have one: "routes_counter parseAbi (ap_router ?ap) \<and> count_of ?ap = count_of ap + of_bool (counted V (parseAbi counterAbi) (q, out))"
  proof (cases "keeps_state q out")
    case True
    with serve_counts [OF assms Cons.prems(2) q(1)] show ?thesis by simp
  next
    case False
    then have "\<not> counted V (parseAbi counterAbi) (q, out)" by (cases q) auto
    with False Cons.prems(2) show ?thesis by simp
  qed
  with Cons.IH [OF q(2)] q(3) show ?case by simp
qed

lemma run_snoc:
  "run H S V flush qs ap = Ok (outs, ap') \<Longrightarrow> serve H S V flush q ap' = (Ok out, ap'') \<Longrightarrow>
    run H S V flush (qs @ [q]) ap = Ok (outs @ [out], if keeps_state q out then ap'' else ap')"
proof (induction qs arbitrary: ap outs)
  case Nil
  then show ?case by simp
next
  case (Cons p qs)
  obtain o1 ap1 outs' where p: "serve H S V flush p ap = (Ok o1, ap1)"
      "run H S V flush qs (if keeps_state p o1 then ap1 else ap) = Ok (outs', ap')" "outs = o1 # outs'"
    by (rule run_Cons [OF Cons.prems(1)])
  with Cons.IH [OF p(2) Cons.prems(2)] show ?case by simp
qed

lemma count_view:
  assumes "counter_parsed parseAbi" and "routes_counter parseAbi Rt" and "decodeEvmCall V payload = Some call" and "\<not> dc_simulate call"
    and "dc_to call = COUNTER_ADDRESS" and "calls_fn V (parseAbi counterAbi) ''count'' (dc_data call)"
    and "encodeFunctionResult V (signatures (parseAbi counterAbi)) ''count'' (VUint (w_app w)) = Ok d"
  shows "router_inspect H S V Rt payload w = (Ok (answered True TAG_RETURN d), w)"
  using assms by (auto simp: router_inspect_def inspect_call_def resolve_counter contract_view_def counter_def counter_parsed_def
      calls_fn_def view_return_def Let_def try_catch_def split: option.splits)

lemma counter_live:
  assumes Rt: "routes_counter parseAbi (ap_router ap)" and inv: "ledger_inv contents ok H (led_of ap)" "snd (jst (led_of ap)) = []"
  shows "live contents ok H ap"
proof -
  have tx: "steps R (cb args ctx) \<and> halts I (cb args ctx)" if "cs_transactions (counter parseAbi) name = Some cb" "\<And>l. R l l"
    for name cb args ctx and R I :: "'a Ledger \<Rightarrow> _"
    using that by (auto simp: counter_def steps_def halts_def split: if_splits)
  have view: "steps R (cb args call) \<and> halts I (cb args call)" if "cs_views (counter parseAbi) name = Some cb" "\<And>l. R l l"
    for name cb args call and R I :: "'a Ledger \<Rightarrow> _"
    using that by (auto simp: counter_def steps_def halts_def split: if_splits)
  note only = routes_counter_contract [OF Rt]
  have refl: "keeps_since contents ok H l l" "reading contents ok H l l" for l by (simp_all add: keeps_since_def reading_def)
  have "contracts_respect (keeps_since contents ok H) (ap_router ap)" "contracts_respect (\<lambda>_ _. True) (ap_router ap)"
    "contracts_halt (ledger_inv contents ok H) (ap_router ap)"
    using only tx refl(1) by (fastforce simp: contracts_respect_def contracts_halt_def)+
  moreover have "views_respect (reading contents ok H) (ap_router ap)" "views_halt (ledger_inv contents ok H) (ap_router ap)"
    using only view refl(2) by (fastforce simp: views_respect_def views_halt_def)+
  ultimately show ?thesis using inv by (simp add: live_def ready_def)
qed


text \<open>
  C31. The counter counts. After any sequence of requests the count has grown by the number of inputs among them that call
  \<^verbatim>\<open>increment\<close> without value and were accepted without a report; rejected inputs, reverted ones and queries, simulations
  included, leave it. A query of \<^verbatim>\<open>count\<close> then returns the encoding of this number.
\<close>

theorem counter_counts:
  assumes "byte_store S contents ok" and "keccak_digest H" and "viem_ok V" and "viem_returns V" and "flush_ok contents ok flush"
    and "counter_parsed parseAbi" and "routes_counter parseAbi (ap_router ap)"
    and "ledger_inv contents ok H (led_of ap)" and "snd (jst (led_of ap)) = []" and "list_all (signed_ok V) qs"
    and "decodeEvmCall V payload = Some call" and "\<not> dc_simulate call" and "dc_to call = COUNTER_ADDRESS"
    and "calls_fn V (parseAbi counterAbi) ''count'' (dc_data call)"
    and enc: "\<And>n. n < 2 ^ 256 \<Longrightarrow> encodeFunctionResult V (signatures (parseAbi counterAbi)) ''count'' (VUint n) = Ok (enc n)"
    and small: "count_of ap + length qs < 2 ^ 256"
  shows "\<exists>outs ap'. length outs = length qs \<and>
    count_of ap' = count_of ap + length (filter (counted V (parseAbi counterAbi)) (zip qs outs)) \<and>
    run H S V flush (qs @ [Inspect payload]) ap = Ok (outs @ [(True, [Report (tagged TAG_RETURN (enc (count_of ap')))])], ap')"
proof -
  have "live contents ok H ap" by (rule counter_live [OF assms(7-9)])
  then obtain outs ap' where r: "run H S V flush qs ap = Ok (outs, ap')" "length outs = length qs" "live contents ok H ap'"
    using byte_store.run_live [OF assms(1-5) _ assms(10)] by blast
  have c: "routes_counter parseAbi (ap_router ap')"
    "count_of ap' = count_of ap + length (filter (counted V (parseAbi counterAbi)) (zip qs outs))"
    using run_counts [OF assms(6) r(1) assms(7)] by simp_all
  have "count_of ap' \<le> count_of ap + length qs"
    using c(2) le_trans [OF length_filter_le, of "zip qs outs"] r(2) by simp
  then have enc': "encodeFunctionResult V (signatures (parseAbi counterAbi)) ''count'' (VUint (count_of ap')) = Ok (enc (count_of ap'))"
    using small by (intro enc) (rule le_less_trans)
  obtain ap'' where "app_sync flush ap' = (Ok (), ap'')" by (rule sync_live [OF r(3) assms(5)])
  then have "serve H S V flush (Inspect payload) ap' = (Ok (True, [Report (tagged TAG_RETURN (enc (count_of ap')))]), ap'')"
    using count_view [OF assms(6) c(1) assms(11-14) enc'] by (simp add: run_inspect_def zoom_def answered_def)
  from run_snoc [OF r(1) this] r(2) c(2) show ?thesis by auto
qed

section \<open>Boot\<close>

text \<open>On a blank accounts device the demo boots into a state the two theorems start from, at count zero.\<close>

lemma assemble_Ok:
  assumes "assemble shown A parseAbi cfg chainId owner ledger app a = Ok ap"
  shows "led_of ap = ledger" and "ap_router ap = new_Router chainId owner" and "w_app (ap_world ap) = app"
  using assms by (auto simp: assemble_def split: prod.splits res.splits)

lemma contract_Ok:
  assumes "contract shown A spec ap = (Ok (), ap')"
  shows "ap_world ap' = ap_world ap" and "manifest (ap_router ap') = manifest (ap_router ap) @ [(cs_address spec, HContract spec)]"
  using assms by (auto simp: contract_def Let_def router_register_def zoom_def elim!: bnd_OkE split: if_splits prod.splits res.splits)

lemma demo_boot_serves:
  assumes H: "keccak_digest H" and h: "handle_ok h img"
    and dev: "fsOpen (first_set [penv ''ACCOUNTS_DRIVE''] ''/dev/pmem1'') = Ok f" "img f = zeros 1048576"
    and run: "demo_boot shown H h fsOpen parseAbi penv chainId owner = Ok ap"
  shows "routes_counter parseAbi (ap_router ap) \<and> ledger_inv img (\<lambda>_. handle_ok h img) H (led_of ap) \<and>
    snd (jst (led_of ap)) = [] \<and> count_of ap = 0"
proof -
  let ?opts = "\<lparr>op_chainId = chainId, op_owner = owner, op_accountsDevice = None, op_abiDevice = None, op_abiDriveConfig = None\<rparr>"
  obtain app where b: "boot shown H h fsOpen parseAbi penv ?opts 0 = Ok app"
      "(case contract shown (FileStore h) (counter parseAbi) app of
          (Ok _, app') \<Rightarrow> Ok app' | (Throw e, _) \<Rightarrow> Throw e | (Diverge, _) \<Rightarrow> Diverge) = Ok ap"
    using run unfolding demo_boot_def rbind_eq_Ok by blast
  have k: "contract shown (FileStore h) (counter parseAbi) app = (Ok (), ap)"
    using b(2) by (cases "contract shown (FileStore h) (counter parseAbi) app"; cases "fst (contract shown (FileStore h) (counter parseAbi) app)") auto
  obtain l a where l: "Ledger_create H (FileStore h) f = Ok l"
      "assemble shown (FileStore h) parseAbi None chainId owner l 0 a = Ok app"
    using b(1) dev(1) by (auto simp: boot_def openDevice_def)
  note a = assemble_Ok [OF l(2)] and c = contract_Ok [OF k]
  have "routes_counter parseAbi (ap_router ap)" using a(2) c(2) by (simp add: routes_counter_def new_Router_def counter_def)
  moreover have "ledger_inv img (\<lambda>_. handle_ok h img) H l \<and> snd (jst l) = []"
    by (rule fstore.create_ok [of h img f H]) (use H h dev(2) l(1) in auto)
  ultimately show ?thesis using a(1,3) c(1) by simp
qed

section \<open>A sample counter\<close>

definition counter_viem :: Viem where
  "counter_viem = sample_viem
     \<lparr>toFunctionSelector := (\<lambda>sig. replicate 4 (of_nat (length sig))),
      decodeAbiParameters := (\<lambda>_ _. Ok [VUint 901, VAddr (zeros 20), VAddr COUNTER_ADDRESS, VUint 0, VBytes [1]]),
      decodeFunctionData := (\<lambda>_ data. Ok (if data = [] then ''increment'' else ''count'', [])),
      parseTransaction := (\<lambda>raw. if raw = [0x7e] then Ok (sample_tx ''deposit'' COUNTER_ADDRESS) else Throw (Error ''not a transaction''))\<rparr>"

definition sample_parseAbi :: "string list \<Rightarrow> AbiItem list" where
  "sample_parseAbi fns =
     [\<lparr>ai_type = ''function'', ai_name = ''increment'', ai_stateMutability = ''nonpayable'', ai_signature = ''increment()'', ai_json = ''{}''\<rparr>,
      \<lparr>ai_type = ''function'', ai_name = ''count'', ai_stateMutability = ''view'', ai_signature = ''count()'', ai_json = ''{}''\<rparr>]"

definition counter_app :: "bytes Ledger \<Rightarrow> (bytes, nat, bytes) Application" where
  "counter_app l = \<lparr>ap_world = \<lparr>w_led = l, w_sink = BufferSink 0, w_attributes = None, w_app = 0\<rparr>,
     ap_router = (new_Router 901 (sample_address 7))\<lparr>manifest := manifest (new_Router 901 (sample_address 7) :: (bytes, nat) Router) @
       [(COUNTER_ADDRESS, HContract (counter sample_parseAbi))]\<rparr>,
     ap_abi = ap_abi (sample_app l)\<rparr>"

abbreviation sample_requests :: "Request list" where
  "sample_requests \<equiv> [Advance (sample_request [0x7e]), Advance (sample_request []), Inspect [], Advance (sample_request [0x7e])]"

lemma counter_viem_ok: "viem_ok counter_viem" "viem_returns counter_viem" "list_all (signed_ok counter_viem) sample_requests"
  by (simp_all add: viem_ok_def viem_returns_def counter_viem_def sample_viem_def sample_tx_def COUNTER_ADDRESS_def signed_ok_def
      signer_nonzero_def recoverSender_def split: ParsedInput.split)

lemma counter_app_facts:
  "counter_parsed sample_parseAbi" "routes_counter sample_parseAbi (ap_router (counter_app l))" "led_of (counter_app l) = l"
  "count_of (counter_app l) = 0"
  by (simp_all add: counter_parsed_def sample_parseAbi_def routes_counter_def counter_app_def new_Router_def)

lemma counter_query:
  obtains call where "decodeEvmCall counter_viem (EVM_CALL_SELECTOR counter_viem) = Some call" and "\<not> dc_simulate call"
    and "dc_to call = COUNTER_ADDRESS" and "calls_fn counter_viem (sample_parseAbi counterAbi) ''count'' (dc_data call)"
  by (rule that [of "\<lparr>dc_simulate = False, dc_chainId = 901, dc_from = zeros 20, dc_to = COUNTER_ADDRESS, dc_value = 0, dc_data = [1]\<rparr>"])
    (simp_all add: decodeEvmCall_def EVM_CALL_SELECTOR_def EVM_SIMULATE_SELECTOR_def counter_viem_def sample_viem_def slice_def
      calls_fn_def tryDecodeCalldata_def)


theorem counter_counts_witness:
  "\<exists>l outs ap'. at_genesis l \<and> length outs = 4 \<and>
     count_of ap' = length (filter (counted counter_viem (sample_parseAbi counterAbi)) (zip sample_requests outs)) \<and>
     run sample_hash MemStore counter_viem None (sample_requests @ [Inspect (EVM_CALL_SELECTOR counter_viem)]) (counter_app l) =
       Ok (outs @ [(True, [Report (tagged TAG_RETURN [])])], ap')"
proof (rule genesis_ledger)
  fix l
  assume l: "at_genesis l" "ledger_inv (\<lambda>b. b) mem_ok sample_hash l" "snd (jst l) = []"
  obtain call where c: "decodeEvmCall counter_viem (EVM_CALL_SELECTOR counter_viem) = Some call" "\<not> dc_simulate call"
      "dc_to call = COUNTER_ADDRESS" "calls_fn counter_viem (sample_parseAbi counterAbi) ''count'' (dc_data call)"
    by (rule counter_query)
  have enc: "encodeFunctionResult counter_viem fns fn v = Ok []" for fns fn v by (simp add: counter_viem_def sample_viem_def)
  from counter_counts [where enc = "\<lambda>_. []" and ap = "counter_app l" and flush = None,
      OF mstore.byte_store_axioms sample_digest counter_viem_ok(1,2) _ counter_app_facts(1,2) _ _ counter_viem_ok(3) c enc] l
  show ?thesis by (auto simp: flush_ok_def counter_app_facts)
qed

end
