(* ===== verification/Scripts.thy ===== *)
theory Scripts
  imports Devnet_Chain World "HOL-Library.Sublist"
begin

text \<open>
  The command-line scripts (\<^verbatim>\<open>scripts/\<close>) and what they share: sending on L2 (\<^verbatim>\<open>scripts/lib/l2.ts\<close>), executing a voucher
  (\<^verbatim>\<open>scripts/lib/voucher.ts\<close>), proving and finalizing a withdrawal (\<^verbatim>\<open>scripts/lib/portal.ts\<close>), and the \<^verbatim>\<open>cartesi_\<close> calls
  (\<^verbatim>\<open>devnet/lib/cartesi.ts\<close>). The nodes and \<^verbatim>\<open>viem\<close> are parameters: a call is a program on the state \<open>'e\<close> of the world the
  script talks to, which may have moved when it returns. A session keeps, besides that state, the transactions the script
  sent, each with the state it was sent in, and what it printed. A script that exits with code 1 throws: an exception nobody
  catches ends the process with the same code. A dash outside Latin-1 in a message is written as a hyphen.
\<close>

section \<open>The nodes\<close>

record TransactionEmissions =
  te_accepted :: bool
  te_cycles :: string
  te_outputs :: "(string \<times> string) list"
  te_reports :: "string list"

record OutputProof =
  opr_output :: string
  opr_outputHashesSiblings :: "string list"
  opr_outputsMerkleRoot :: string
  opr_withdrawalsRoot :: string
  opr_outputsRootProof :: "string list"

record AbiFunction =
  af_type :: string
  af_name :: string
  af_inputs :: "(string \<times> string option) list"
  af_outputs :: "string list"
  af_stateMutability :: string

datatype ContractKind = systemKind | appKind | tokenKind

record ContractEntry =
  ce_address :: string
  ce_kind :: ContractKind
  ce_abi :: "AbiFunction list option"
  ce_l1Token :: "string option"

record ContractsList =
  cl_blockHash :: string
  cl_blockNumber :: string
  cl_contracts :: "ContractEntry list"

record Receipt =
  rc_transactionHash :: string
  rc_blockNumber :: nat
  rc_status :: string

record L2Block =
  lb_hash :: string
  lb_stateRoot :: string
  lb_withdrawalsRoot :: "string option"

text \<open>What \<^verbatim>\<open>waitToProve\<close> returns: the game's metadata word, the output it proposes, and the withdrawal.\<close>

record ProveInfo =
  pi_metadata :: string
  pi_outputIndex :: nat
  pi_l2BlockNumber :: nat
  pi_withdrawal :: string
  pi_withdrawalHash :: string

datatype Tx =
    AcceptRoot string nat "string list" "string list"
  | ExecuteOutput string string int "string list"
  | ProveWithdrawal string
  | ResolveClaim string nat nat
  | ResolveGame string
  | FinalizeWithdrawal string
  | DepositTransaction string int int int
  | Approve string string int
  | DepositERC20 string string string int nat string
  | L2Transaction string "string option" "int option"
  | InitiateWithdrawal string

record 'e Rpc =
  r_gameCount :: "string \<Rightarrow> ('e, nat) prog"
  r_gameAtIndex :: "string \<Rightarrow> nat \<Rightarrow> ('e, string) prog"
  r_l2BlockNumber :: "string \<Rightarrow> ('e, nat) prog"
  r_send :: "Tx \<Rightarrow> ('e, string) prog"
  r_receipt :: "string \<Rightarrow> ('e, Receipt) prog"
  r_l2Receipt :: "string \<Rightarrow> nat option \<Rightarrow> ('e, Receipt) prog"
  r_isTimeout :: "exn \<Rightarrow> bool"
  r_getTransactionEmissions :: "string \<Rightarrow> ('e, TransactionEmissions) prog"
  r_getOutputProof :: "string \<Rightarrow> string \<Rightarrow> ('e, OutputProof) prog"
  r_getContracts :: "string option \<Rightarrow> ('e, ContractsList) prog"
  r_l2Block :: "nat \<Rightarrow> ('e, L2Block) prog"
  r_sleep :: "nat \<Rightarrow> ('e, unit) prog"
  r_waitToProve :: "Receipt \<Rightarrow> ('e, ProveInfo) prog"
  r_buildProveWithdrawal :: "ProveInfo \<Rightarrow> ('e, string) prog"
  r_buildInitiateWithdrawal :: "string \<Rightarrow> int \<Rightarrow> ('e, string) prog"
  r_increaseTime :: "nat \<Rightarrow> ('e, unit) prog"
  r_mine :: "('e, unit) prog"
  r_proofMaturityDelay :: "string \<Rightarrow> ('e, nat) prog"
  r_finalityDelay :: "string \<Rightarrow> ('e, nat) prog"
  r_maxClockDuration :: "string \<Rightarrow> ('e, nat) prog"
  r_gameStatus :: "string \<Rightarrow> ('e, nat) prog"
  r_getCode :: "string \<Rightarrow> ('e, string option) prog"
  r_l1Balance :: "string \<Rightarrow> ('e, int) prog"
  r_l2Balance :: "string \<Rightarrow> ('e, int) prog"
  r_l1TokenBalance :: "string \<Rightarrow> string \<Rightarrow> ('e, int) prog"
  r_l2TokenBalance :: "string \<Rightarrow> string \<Rightarrow> ('e, int) prog"
  r_getL2TransactionHashes :: "Receipt \<Rightarrow> string list"
  r_forge :: "string list \<Rightarrow> ('e, string) prog"

text \<open>The pure part of \<^verbatim>\<open>viem\<close>: addresses, selectors, numbers, keys, and the calldata of \<^verbatim>\<open>bridgeERC20To\<close>.\<close>

record Lib =
  v_getAddress :: "string \<Rightarrow> string res"
  v_shown :: "bytes \<Rightarrow> string"
  v_isHex :: "string \<Rightarrow> bool"
  v_numberToHex :: "int \<Rightarrow> string"
  v_selector :: "string \<Rightarrow> string"
  v_keyAddress :: "string \<Rightarrow> string"
  v_bridgeERC20To :: "string \<Rightarrow> string \<Rightarrow> string \<Rightarrow> int \<Rightarrow> nat \<Rightarrow> string \<Rightarrow> string"

section \<open>Sessions\<close>

record 'e Session =
  se_env :: 'e
  se_sent :: "(Tx \<times> 'e) list"
  se_err :: "string list"
  se_out :: "string list"
  se_files :: files

type_synonym ('e, 'a) script = "('e Session, 'a) prog"

definition ask :: "('e, 'a) prog \<Rightarrow> ('e, 'a) script" where
  "ask m = zoom se_env (\<lambda>e s. s\<lparr>se_env := e\<rparr>) m"

definition send :: "'e Rpc \<Rightarrow> Tx \<Rightarrow> ('e, string) script" where
  "send r tx = bnd (modify (\<lambda>s. s\<lparr>se_sent := se_sent s @ [(tx, se_env s)]\<rparr>)) (\<lambda>_. ask (r_send r tx))"

definition console_error :: "string \<Rightarrow> ('e, unit) script" where
  "console_error msg = modify (\<lambda>s. s\<lparr>se_err := se_err s @ [msg]\<rparr>)"

definition console_log :: "string \<Rightarrow> ('e, unit) script" where
  "console_log msg = modify (\<lambda>s. s\<lparr>se_out := se_out s @ [msg]\<rparr>)"

text \<open>\<^verbatim>\<open>console.error\<close> and \<^verbatim>\<open>process.exit(1)\<close>.\<close>

definition quit :: "string \<Rightarrow> ('e, 'a) script" where
  "quit msg = bnd (console_error msg) (\<lambda>_. raise (Error msg))"

definition usage :: "string \<Rightarrow> ('e, 'a) script" where
  "usage message = quit (''usage: '' @ message)"

definition arg :: "string list \<Rightarrow> nat \<Rightarrow> string option" where
  "arg args i = (if i < length args then Some (args ! i) else None)"

text \<open>An argument that is missing or empty is falsy.\<close>

definition given :: "string option \<Rightarrow> bool" where
  "given a \<longleftrightarrow> a \<noteq> None \<and> a \<noteq> Some []"

text \<open>\<^verbatim>\<open>cartesiActions\<close>: the quantities of a request are sent in hexadecimal.\<close>

definition getOutputProof :: "'e Rpc \<Rightarrow> Lib \<Rightarrow> int \<Rightarrow> nat \<Rightarrow> ('e, OutputProof) script" where
  "getOutputProof r v index blockNumber =
     ask (r_getOutputProof r (v_numberToHex v index) (v_numberToHex v (int blockNumber)))"

definition getContracts :: "'e Rpc \<Rightarrow> Lib \<Rightarrow> nat option \<Rightarrow> ('e, ContractsList) script" where
  "getContracts r v blockNumber =
     ask (r_getContracts r (map_option (\<lambda>n. v_numberToHex v (int n)) blockNumber))"

definition getTransactionEmissions :: "'e Rpc \<Rightarrow> string \<Rightarrow> ('e, TransactionEmissions) script" where
  "getTransactionEmissions r hash = ask (r_getTransactionEmissions r hash)"

text \<open>Wait for the receipt of an L1 transaction that is being sent; a receipt that is not a success throws.\<close>

definition waitL1 :: "'e Rpc \<Rightarrow> ('e, string) script \<Rightarrow> ('e, unit) script" where
  "waitL1 r tx =
     bnd tx (\<lambda>hash. bnd (ask (r_receipt r hash)) (\<lambda>receipt.
     if rc_status receipt \<noteq> ''success''
     then raise (Error (''L1 transaction '' @ rc_transactionHash receipt @ '' reverted''))
     else ret ()))"

section \<open>Sending on L2\<close>

definition sendL2Tx :: "'e Rpc \<Rightarrow> DevnetConfig \<Rightarrow> string \<Rightarrow> string option \<Rightarrow> int option \<Rightarrow> string option \<Rightarrow> ('e, string) script" where
  "sendL2Tx r cf dst data v key =
     bnd (lift (asKey (or_else key (cf_senderKey cf)))) (\<lambda>_. send r (L2Transaction dst data v))"

definition l2Sender :: "Lib \<Rightarrow> DevnetConfig \<Rightarrow> string option \<Rightarrow> string res" where
  "l2Sender v cf key = rbind (asKey (or_else key (cf_senderKey cf))) (\<lambda>k. Ok (v_keyAddress v k))"

text \<open>With the timeout every caller leaves at its default, 60 seconds.\<close>

definition waitL2Receipt :: "'e Rpc \<Rightarrow> Lib \<Rightarrow> DevnetConfig \<Rightarrow> string \<Rightarrow> ('e, Receipt) script" where
  "waitL2Receipt r v cf hash =
     try_catch (ask (r_l2Receipt r hash (Some 60000))) (\<lambda>e.
       if r_isTimeout r e
       then bnd (lift (l2Sender v cf None)) (\<lambda>sender. raise (Error (''no receipt for '' @ hash @
         '' after 60s - the guest most likely rejected the transaction (rejected inputs are dropped without a receipt). '' @
         ''Common causes: the sender's L2 balance does not cover value plus fee, or a nonce mismatch. '' @
         ''Check with: bun scripts/balance.ts '' @ sender)))
       else raise e)"

section \<open>Vouchers\<close>

text \<open>The inner loop: from the newest game down, the first that proposes a block at or past the voucher's.\<close>

fun scan_games :: "'e Rpc \<Rightarrow> string \<Rightarrow> nat \<Rightarrow> nat \<Rightarrow> ('e, (nat \<times> string \<times> nat) option) script" where
  "scan_games r factory outBlock 0 = ret None"
| "scan_games r factory outBlock (Suc i) =
     bnd (ask (r_gameAtIndex r factory i)) (\<lambda>proxy.
     bnd (ask (r_l2BlockNumber r proxy)) (\<lambda>block.
     if block \<ge> outBlock then ret (Some (i, proxy, block)) else scan_games r factory outBlock i))"

text \<open>The outer loop, with fuel for the number of polls.\<close>

fun wait_game :: "'e Rpc \<Rightarrow> string \<Rightarrow> nat \<Rightarrow> nat \<Rightarrow> ('e, nat \<times> string \<times> nat) script" where
  "wait_game r factory outBlock 0 = (\<lambda>s. (Diverge, s))"
| "wait_game r factory outBlock (Suc fuel) =
     bnd (ask (r_gameCount r factory)) (\<lambda>count.
     bnd (scan_games r factory outBlock count) (\<lambda>game. case game of
       Some g \<Rightarrow> ret g
     | None \<Rightarrow> bnd (ask (r_sleep r 4000)) (\<lambda>_. wait_game r factory outBlock fuel)))"

definition zero_word :: string where
  "zero_word = ''0x'' @ replicate 64 (CHR ''0'')"

text \<open>The voucher's chain-wide index and the block that produced it.\<close>

definition voucher_output :: "'e Rpc \<Rightarrow> string \<Rightarrow> ('e, int \<times> nat) script" where
  "voucher_output r txHash =
     bnd (ask (r_l2Receipt r txHash None)) (\<lambda>receipt.
     bnd (getTransactionEmissions r txHash) (\<lambda>emissions.
     case te_outputs emissions of
       [] \<Rightarrow> raise (Error ''the transaction emitted no provable output'')
     | first # _ \<Rightarrow>
         bnd (lift (toBigInt (fst first))) (\<lambda>index.
         let outBlock = rc_blockNumber receipt in
         bnd (console_error (''  voucher is output '' @ dec_int index @ '', in L2 block '' @ dec outBlock)) (\<lambda>_.
         ret (index, outBlock)))))"

text \<open>The proof against the proposed block, its root claim opened on L1, and the voucher executed.\<close>

definition prove_voucher :: "'e Rpc \<Rightarrow> Lib \<Rightarrow> string \<Rightarrow> string \<Rightarrow> int \<Rightarrow> nat \<Rightarrow> nat \<Rightarrow> ('e, int) script" where
  "prove_voucher r v validator executor index gameIndex proposedBlock =
     bnd (getOutputProof r v index proposedBlock) (\<lambda>proof.
     bnd (ask (r_l2Block r proposedBlock)) (\<lambda>block.
     if \<not> given (lb_withdrawalsRoot block)
     then raise (Error (''L2 block '' @ dec proposedBlock @ '' has no withdrawalsRoot''))
     else
       bnd (waitL1 r (send r (AcceptRoot validator gameIndex
         [zero_word, lb_stateRoot block, the (lb_withdrawalsRoot block), lb_hash block] (opr_outputsRootProof proof)))) (\<lambda>_.
       bnd (console_error (''  accepted outputs root '' @ opr_outputsMerkleRoot proof @ '' from game '' @ dec gameIndex)) (\<lambda>_.
       bnd (waitL1 r (send r (ExecuteOutput executor (opr_output proof) index (opr_outputHashesSiblings proof)))) (\<lambda>_.
       bnd (console_error (''  executed output '' @ dec_int index)) (\<lambda>_.
       ret index))))))"

definition executeVoucher :: "'e Rpc \<Rightarrow> Lib \<Rightarrow> DevnetConfig \<Rightarrow> nat \<Rightarrow> string \<Rightarrow> ('e, int) script" where
  "executeVoucher r v cf fuel txHash =
     (case (cf_disputeGameFactory cf, cf_outputsValidator cf, cf_outputExecutor cf) of
        (Some factory, Some validator, Some executor) \<Rightarrow>
          bnd (lift (asKey (cf_callerKey cf))) (\<lambda>_.
          bnd (voucher_output r txHash) (\<lambda>(index, outBlock).
          bnd (console_error (''  waiting for a proposal covering L2 block '' @ dec outBlock)) (\<lambda>_.
          bnd (wait_game r factory outBlock fuel) (\<lambda>(gameIndex, game, proposedBlock).
          bnd (console_error (''  game '' @ dec gameIndex @ '' proposes L2 block '' @ dec proposedBlock)) (\<lambda>_.
          prove_voucher r v validator executor index gameIndex proposedBlock)))))
      | _ \<Rightarrow> raise (Error ''run ./devnet/deploy-l1.ts and ./devnet/deploy-outputs.ts first''))"

section \<open>Withdrawals\<close>

definition portal_errors :: "string list" where
  "portal_errors =
     [''OptimismPortal_InvalidRootClaim'', ''OptimismPortal_ProofNotOldEnough'', ''OptimismPortal_Unproven'',
      ''OptimismPortal_InvalidProofTimestamp'', ''OptimismPortal_ImproperDisputeGame'', ''OptimismPortal_InvalidDisputeGame'',
      ''OptimismPortal_AlreadyFinalized'', ''OptimismPortal_InvalidMerkleProof'', ''OptimismPortal_InvalidOutputRootProof'',
      ''OptimismPortal_BadTarget'', ''OptimismPortal_CallPaused'', ''OptimismPortal_GasEstimation'']"

text \<open>The map from selectors to names; of two equal selectors the later one counts.\<close>

definition portalErrorNames :: "Lib \<Rightarrow> string \<Rightarrow> string option" where
  "portalErrorNames v = map_of (rev (map (\<lambda>name. (toLowerCase (v_selector v (name @ ''()'')), name)) portal_errors))"

text \<open>The first match of \<^verbatim>\<open>/0x[0-9a-fA-F]{8}/\<close>.\<close>

fun first_selector :: "string \<Rightarrow> string option" where
  "first_selector [] = None"
| "first_selector (c # s) =
     (if take 2 (c # s) = ''0x'' \<and> 10 \<le> length (c # s) \<and> list_all (\<lambda>d. hex_val d \<noteq> None) (take 8 (drop 2 (c # s)))
      then Some (take 10 (c # s)) else first_selector s)"

text \<open>\<^verbatim>\<open>e.message = ...\<close> and \<^verbatim>\<open>e.message\<close>.\<close>

fun message_of :: "exn \<Rightarrow> string" where
  "message_of (AccountsDriveError k m) = m"
| "message_of (InsufficientFunds m) = m"
| "message_of (AbiDriveError k m) = m"
| "message_of (RevertExn d m) = m"
| "message_of (FailExn d m) = m"
| "message_of (Error m) = m"
| "message_of (RangeError m) = m"

fun with_message :: "exn \<Rightarrow> string \<Rightarrow> exn" where
  "with_message (AccountsDriveError k m) m' = AccountsDriveError k m'"
| "with_message (InsufficientFunds m) m' = InsufficientFunds m'"
| "with_message (AbiDriveError k m) m' = AbiDriveError k m'"
| "with_message (RevertExn d m) m' = RevertExn d m'"
| "with_message (FailExn d m) m' = FailExn d m'"
| "with_message (Error m) m' = Error m'"
| "with_message (RangeError m) m' = RangeError m'"

definition explainPortalRevert :: "Lib \<Rightarrow> exn \<Rightarrow> ('e, 'a) script" where
  "explainPortalRevert v e =
     (case Option.bind (first_selector (message_of e)) (\<lambda>m. portalErrorNames v (toLowerCase m)) of
        Some name \<Rightarrow> raise (with_message e (name @ '' - '' @ message_of e))
      | None \<Rightarrow> raise e)"

definition skipTime :: "'e Rpc \<Rightarrow> nat \<Rightarrow> string \<Rightarrow> ('e, unit) script" where
  "skipTime r seconds what =
     bnd (console_error (''  advancing anvil time by '' @ dec seconds @ ''s ('' @ what @ '')'')) (\<lambda>_.
     bnd (ask (r_increaseTime r seconds)) (\<lambda>_. ask (r_mine r)))"

definition resolve_game :: "'e Rpc \<Rightarrow> string \<Rightarrow> ('e, unit) script" where
  "resolve_game r gameProxy =
     bnd (ask (r_gameStatus r gameProxy)) (\<lambda>status.
     if status = 0 then
       bnd (console_error ''  resolving the dispute game'') (\<lambda>_.
       bnd (waitL1 r (send r (ResolveClaim gameProxy 0 0))) (\<lambda>_.
       waitL1 r (send r (ResolveGame gameProxy))))
     else ret ())"

text \<open>Wait for a game, build the proof, prove.\<close>

definition prove_withdrawal :: "'e Rpc \<Rightarrow> Lib \<Rightarrow> string \<Rightarrow> Receipt \<Rightarrow> ('e, ProveInfo) script" where
  "prove_withdrawal r v portal receipt =
     bnd (console_error (''  waiting for a proposal covering L2 block '' @ dec (rc_blockNumber receipt))) (\<lambda>_.
     bnd (ask (r_waitToProve r receipt)) (\<lambda>info.
     bnd (console_error (''  withdrawal '' @ pi_withdrawalHash info)) (\<lambda>_.
     bnd (console_error (''  game '' @ dec (pi_outputIndex info) @ '' proposes L2 block '' @ dec (pi_l2BlockNumber info))) (\<lambda>_.
     bnd (ask (r_buildProveWithdrawal r info)) (\<lambda>proveArgs.
     bnd (waitL1 r (try_catch (send r (ProveWithdrawal proveArgs)) (explainPortalRevert v))) (\<lambda>_.
     bnd (console_error (''  proven against OptimismPortal at '' @ portal)) (\<lambda>_.
     ret info)))))))"

text \<open>Outlive the delays, resolving the game between them, and finalize.\<close>

definition finalize_withdrawal :: "'e Rpc \<Rightarrow> Lib \<Rightarrow> string \<Rightarrow> ProveInfo \<Rightarrow> ('e, unit) script" where
  "finalize_withdrawal r v portal info =
     bnd (lift (v_getAddress v (''0x'' @ drop 26 (pi_metadata info)))) (\<lambda>gameProxy.
     bnd (ask (r_proofMaturityDelay r portal)) (\<lambda>maturity.
     bnd (ask (r_maxClockDuration r gameProxy)) (\<lambda>clock.
     bnd (skipTime r ((if maturity > clock then maturity else clock) + 60)
       (''proof maturity '' @ dec maturity @ ''s, game clock '' @ dec clock @ ''s'')) (\<lambda>_.
     bnd (resolve_game r gameProxy) (\<lambda>_.
     bnd (ask (r_finalityDelay r portal)) (\<lambda>finality.
     bnd (skipTime r (finality + 60) (''dispute game finality delay '' @ dec finality @ ''s'')) (\<lambda>_.
     bnd (waitL1 r (try_catch (send r (FinalizeWithdrawal (pi_withdrawal info))) (explainPortalRevert v))) (\<lambda>_.
     console_error ''  finalized through OptimismPortal''))))))))"

definition proveAndFinalizeWithdrawal :: "'e Rpc \<Rightarrow> Lib \<Rightarrow> DevnetConfig \<Rightarrow> Receipt \<Rightarrow> ('e, unit) script" where
  "proveAndFinalizeWithdrawal r v cf receipt =
     (case cf_disputeGameFactory cf of
        None \<Rightarrow> raise (Error ''run the devnet with contracts deployed first'')
      | Some _ \<Rightarrow>
          bnd (lift (asKey (cf_callerKey cf))) (\<lambda>_.
          bnd (prove_withdrawal r v (cf_depositContract cf) receipt) (\<lambda>info.
          finalize_withdrawal r v (cf_depositContract cf) info)))"

section \<open>The scripts\<close>

definition isTxHash :: "string \<Rightarrow> bool" where
  "isTxHash s \<longleftrightarrow> length s = 66 \<and> toLowerCase (take 2 s) = ''0x'' \<and> list_all (\<lambda>c. hex_val c \<noteq> None) (drop 2 s)"

definition execute_voucher_main :: "'e Rpc \<Rightarrow> Lib \<Rightarrow> DevnetConfig \<Rightarrow> nat \<Rightarrow> string list \<Rightarrow> ('e, unit) script" where
  "execute_voucher_main r v cf fuel args =
     (case arg args 0 of
        Some txArg \<Rightarrow>
          if txArg \<noteq> [] \<and> isTxHash txArg
          then bnd (executeVoucher r v cf fuel txArg) (\<lambda>index. console_log (dec_int index))
          else usage ''execute-voucher.ts <L2 tx hash>''
      | None \<Rightarrow> usage ''execute-voucher.ts <L2 tx hash>'')"

definition send_l2_tx_main :: "'e Rpc \<Rightarrow> Lib \<Rightarrow> DevnetConfig \<Rightarrow> string list \<Rightarrow> ('e, unit) script" where
  "send_l2_tx_main r v cf args =
     (if \<not> given (arg args 0) then usage ''send-l2-tx.ts <to> [calldata] [value-wei]''
      else
        bnd (lift (v_getAddress v (the (arg args 0)))) (\<lambda>dst.
        let data = (if given (arg args 1) then arg args 1 else None) in
        if (case data of Some d \<Rightarrow> \<not> v_isHex v d | None \<Rightarrow> False) then usage ''calldata must be 0x-prefixed hex''
        else
          bnd (case arg args 2 of None \<Rightarrow> ret None | Some a \<Rightarrow> bnd (lift (toBigInt a)) (\<lambda>n. ret (Some n))) (\<lambda>amount.
          bnd (sendL2Tx r cf dst data amount None) console_log)))"

text \<open>The address of a token on L2, as \<^verbatim>\<open>l2TokenAddress\<close> derives it and \<^verbatim>\<open>getAddress\<close> shows it.\<close>

definition token_facade :: "(bytes \<Rightarrow> bytes) \<Rightarrow> Lib \<Rightarrow> string \<Rightarrow> string res" where
  "token_facade H v l1Token = rbind (toAddress (AHex l1Token)) (\<lambda>a. Ok (v_shown v (l2TokenAddress H a)))"

definition balance_main :: "(bytes \<Rightarrow> bytes) \<Rightarrow> 'e Rpc \<Rightarrow> Lib \<Rightarrow> string list \<Rightarrow> ('e, unit) script" where
  "balance_main H r v args =
     (if \<not> given (arg args 0) then usage ''balance.ts <address> [l1-token]''
      else
        bnd (lift (v_getAddress v (the (arg args 0)))) (\<lambda>who.
        if \<not> given (arg args 1) then bnd (ask (r_l2Balance r who)) (\<lambda>b. console_log (dec_int b))
        else
          bnd (lift (v_getAddress v (the (arg args 1)))) (\<lambda>token.
          bnd (lift (token_facade H v token)) (\<lambda>facade.
          bnd (ask (r_l2TokenBalance r facade who)) (\<lambda>b. console_log (dec_int b))))))"

definition function_line :: "AbiFunction \<Rightarrow> string" where
  "function_line fn =
     (let args = join '', '' (map (\<lambda>(ty, name). ty @ (if given name then '' '' @ the name else [])) (af_inputs fn));
          rets = join '', '' (af_outputs fn);
          mut = (if af_stateMutability fn = ''nonpayable'' then [] else '' '' @ af_stateMutability fn) in
      ''    function '' @ af_name fn @ ''('' @ args @ '')'' @ mut @ (if rets \<noteq> [] then '' returns ('' @ rets @ '')'' else []))"

fun kind_name :: "ContractKind \<Rightarrow> string" where
  "kind_name systemKind = ''system''"
| "kind_name appKind = ''app''"
| "kind_name tokenKind = ''token''"

definition contract_lines :: "ContractEntry \<Rightarrow> string list" where
  "contract_lines c =
     ([CHR 0x0A] @ ''  '' @ ce_address c @ ''  ('' @ kind_name (ce_kind c) @ '')'') #
     (if ce_kind c = tokenKind \<and> given (ce_l1Token c)
      then [''    facade of L1 token '' @ the (ce_l1Token c) @ '' - standard ERC-20 surface'']
      else map function_line (filter (\<lambda>i. af_type i = ''function'') (or_else (ce_abi c) [])))"

fun log_all :: "string list \<Rightarrow> ('e, unit) script" where
  "log_all [] = ret ()"
| "log_all (l # ls) = bnd (console_log l) (\<lambda>_. log_all ls)"

definition contracts_main :: "(string \<Rightarrow> string) \<Rightarrow> 'e Rpc \<Rightarrow> Lib \<Rightarrow> string list \<Rightarrow> ('e, unit) script" where
  "contracts_main lit r v args =
     (if arg args 0 = Some ''-h'' \<or> arg args 0 = Some ''--help'' then usage ''contracts.ts''
      else
        bnd (getContracts r v None) (\<lambda>cl.
        bnd (console_log (''contracts as of block '' @ String_of lit (Number (cl_blockNumber cl)) @ '':'')) (\<lambda>_.
        log_all (concat (map contract_lines (cl_contracts cl))))))"

definition deposit_main :: "'e Rpc \<Rightarrow> Lib \<Rightarrow> DevnetConfig \<Rightarrow> string list \<Rightarrow> ('e, unit) script" where
  "deposit_main r v cf args =
     (if \<not> given (arg args 0) then usage ''deposit.ts <recipient address> [wei]''
      else
        bnd (lift (v_getAddress v (the (arg args 0)))) (\<lambda>dst.
        bnd (lift (toBigInt (or_else (arg args 1) ''1000000000000000000''))) (\<lambda>amount.
        bnd (lift (asKey (cf_depositorKey cf))) (\<lambda>_.
        bnd (ask (r_getCode r (cf_depositContract cf))) (\<lambda>code.
        if code = None \<or> code = Some ''0x''
        then quit (''no portal at '' @ cf_depositContract cf @ '' - the L1 contracts have not been deployed; '' @
          ''bring the devnet up with `docker compose up`'')
        else
          bnd (console_error (''depositing '' @ dec_int amount @ '' wei to '' @ dst @ '' via OptimismPortal at '' @ cf_depositContract cf)) (\<lambda>_.
          bnd (send r (DepositTransaction dst amount amount (cf_depositGasLimit cf))) (\<lambda>hash.
          bnd (ask (r_receipt r hash)) (\<lambda>receipt.
          bnd (console_log (''L1 tx '' @ hash @ '' in block '' @ dec (rc_blockNumber receipt) @ '' status '' @ rc_status receipt)) (\<lambda>_.
          case r_getL2TransactionHashes r receipt of
            [] \<Rightarrow> quit ''no TransactionDeposited log in the receipt''
          | l2Hash # _ \<Rightarrow>
              bnd (console_error (''  L2 deposit tx '' @ l2Hash @ ''; waiting for derivation'')) (\<lambda>_.
              try_catch
                (bnd (ask (r_l2Receipt r l2Hash (Some 120000))) (\<lambda>l2Receipt.
                 console_log (''L2 tx '' @ l2Hash @ '' in block '' @ dec (rc_blockNumber l2Receipt) @ '' status '' @ rc_status l2Receipt)))
                (\<lambda>_. console_error ''  not derived within 120s - the deposit stands, check the L2 hash later'')))))))))))"

definition withdraw_main :: "'e Rpc \<Rightarrow> Lib \<Rightarrow> DevnetConfig \<Rightarrow> string list \<Rightarrow> ('e, unit) script" where
  "withdraw_main r v cf args =
     (if \<not> given (arg args 0) \<or> \<not> given (arg args 1) then usage ''withdraw.ts <recipient> <wei>''
      else
        bnd (lift (v_getAddress v (the (arg args 0)))) (\<lambda>dst.
        bnd (lift (toBigInt (the (arg args 1)))) (\<lambda>amount.
        bnd (lift (l2Sender v cf None)) (\<lambda>sender.
        bnd (ask (r_l2Balance r sender)) (\<lambda>senderBalance.
        if senderBalance < amount
        then quit (''sender '' @ sender @ '' holds '' @ dec_int senderBalance @ '' wei on L2, less than the '' @ dec_int amount @
          '' to withdraw - deposit first: bun scripts/deposit.ts '' @ sender @ '' '' @ dec_int amount)
        else
          bnd (console_error (''initiating a withdrawal of '' @ dec_int amount @ '' wei to '' @ dst @ '' (sender '' @ sender @ '')'')) (\<lambda>_.
          bnd (ask (r_buildInitiateWithdrawal r dst amount)) (\<lambda>wargs.
          bnd (send r (InitiateWithdrawal wargs)) (\<lambda>txHash.
          bnd (console_error (''  L2 tx '' @ txHash)) (\<lambda>_.
          bnd (waitL2Receipt r v cf txHash) (\<lambda>receipt.
          bnd (ask (r_l1Balance r dst)) (\<lambda>before.
          bnd (proveAndFinalizeWithdrawal r v cf receipt) (\<lambda>_.
          bnd (ask (r_l1Balance r dst)) (\<lambda>after.
          bnd (console_error []) (\<lambda>_.
          bnd (console_error ''withdrawal finalized through OptimismPortal'') (\<lambda>_.
          bnd (console_error (''  recipient '' @ dst)) (\<lambda>_.
          console_error (''  balance   '' @ dec_int before @ '' -> '' @ dec_int after)))))))))))))))))"

definition withdraw_erc20_main :: "(bytes \<Rightarrow> bytes) \<Rightarrow> 'e Rpc \<Rightarrow> Lib \<Rightarrow> DevnetConfig \<Rightarrow> string list \<Rightarrow> ('e, unit) script" where
  "withdraw_erc20_main H r v cf args =
     (if \<not> given (arg args 0) \<or> \<not> given (arg args 1) then usage ''withdraw-erc20.ts <recipient> <amount> [l1-token]''
      else
        bnd (lift (v_getAddress v (the (arg args 0)))) (\<lambda>dst.
        bnd (lift (toBigInt (the (arg args 1)))) (\<lambda>amount.
        bnd (if given (arg args 2) then bnd (lift (v_getAddress v (the (arg args 2)))) (\<lambda>t. ret (Some t)) else ret (cf_testToken cf)) (\<lambda>token.
        case token of
          None \<Rightarrow> quit ''no token given and no TEST_TOKEN_ADDRESS; run bun scripts/deposit-erc20.ts first''
        | Some token \<Rightarrow>
            bnd (lift (l2Sender v cf None)) (\<lambda>sender.
            bnd (console_error (''asking the guest to bridge '' @ dec_int amount @ '' of '' @ token @ '' to '' @ dst @
              '' (sender '' @ sender @ '')'')) (\<lambda>_.
            bnd (lift (token_facade H v token)) (\<lambda>facade.
            bnd (sendL2Tx r cf (v_shown v L2_BRIDGE_ADDRESS) (Some (v_bridgeERC20To v facade token dst amount 400000 ''0x'')) None None) (\<lambda>txHash.
            bnd (console_error (''  L2 tx '' @ txHash)) (\<lambda>_.
            bnd (waitL2Receipt r v cf txHash) (\<lambda>receipt.
            bnd (ask (r_l1TokenBalance r token dst)) (\<lambda>before.
            bnd (proveAndFinalizeWithdrawal r v cf receipt) (\<lambda>_.
            bnd (ask (r_l1TokenBalance r token dst)) (\<lambda>after.
            bnd (console_error []) (\<lambda>_.
            bnd (console_error ''withdrawal finalized through L1StandardBridge'') (\<lambda>_.
            bnd (console_error (''  recipient '' @ dst)) (\<lambda>_.
            console_error (''  balance   '' @ dec_int before @ '' -> '' @ dec_int after)))))))))))))))))"

text \<open>The token of a deposit: the one named, the recorded one if it still has code, or a new one, which is then recorded.\<close>

definition token_line :: "string \<Rightarrow> string" where
  "token_line token = ''# Written by scripts/deposit-erc20.ts.'' @ [CHR 0x0A] @ assign ''TEST_TOKEN_ADDRESS'' token @ [CHR 0x0A]"

fun reported_token :: "string \<Rightarrow> string option" where
  "reported_token [] = None"
| "reported_token (c # s) =
     (case Option.bind (strip_prefix ''TEST_TOKEN_ADDRESS='' (c # s)) address_at of
        Some a \<Rightarrow> Some a
      | None \<Rightarrow> reported_token s)"

definition last_lines :: "string \<Rightarrow> string" where
  "last_lines text = (let ls = split_on (CHR 0x0A) text in join [CHR 0x0A] (drop (length ls - 20) ls))"

definition deployed :: "'e Rpc \<Rightarrow> string \<Rightarrow> ('e, bool) script" where
  "deployed r a = bnd (ask (r_getCode r a)) (\<lambda>code. ret (code \<noteq> None))"

definition fresh_token :: "'e Rpc \<Rightarrow> Lib \<Rightarrow> DevnetConfig \<Rightarrow> string \<Rightarrow> ('e, string) script" where
  "fresh_token r v cf depositor =
     bnd (case cf_testToken cf of
            Some t \<Rightarrow> console_error (''token.env's '' @ t @ '' has no code on this L1 - deploying a fresh test token'')
          | None \<Rightarrow> console_error ''deploying a test token'') (\<lambda>_.
     bnd (ask (r_forge r [''script'', ''script/DeployTestToken.s.sol:DeployTestToken'', ''--rpc-url'', cf_l1Rpc cf,
       ''--private-key'', cf_depositorKey cf, ''--broadcast''])) (\<lambda>text.
     case reported_token text of
       None \<Rightarrow> quit (last_lines text)
     | Some m \<Rightarrow>
         bnd (lift (v_getAddress v m)) (\<lambda>token.
         bnd (deployed r token) (\<lambda>d.
         if \<not> d then bnd (console_error (''forge reported '' @ token @ '' but the L1 has no code there:'')) (\<lambda>_. quit (last_lines text))
         else
           bnd (modify (\<lambda>s. s\<lparr>se_files := (se_files s)(cf_tokenEnvFile cf \<mapsto> token_line token)\<rparr>)) (\<lambda>_.
           bnd (console_error (''  token '' @ token @ '', supply held by '' @ depositor)) (\<lambda>_.
           ret token))))))"

definition deposit_token :: "'e Rpc \<Rightarrow> Lib \<Rightarrow> DevnetConfig \<Rightarrow> string \<Rightarrow> string option \<Rightarrow> ('e, string) script" where
  "deposit_token r v cf depositor tokenArg =
     (if given tokenArg then
        bnd (lift (v_getAddress v (the tokenArg))) (\<lambda>token.
        bnd (deployed r token) (\<lambda>d.
        if d then ret token else quit (''no contract code at '' @ token @ '' on L1 - is the token deployed there?'')))
      else (case cf_testToken cf of
        Some t \<Rightarrow> bnd (deployed r t) (\<lambda>d. if d then ret t else fresh_token r v cf depositor)
      | None \<Rightarrow> fresh_token r v cf depositor))"

definition deposit_erc20_main :: "(bytes \<Rightarrow> bytes) \<Rightarrow> 'e Rpc \<Rightarrow> Lib \<Rightarrow> DevnetConfig \<Rightarrow> string list \<Rightarrow> ('e, unit) script" where
  "deposit_erc20_main H r v cf args =
     (if arg args 0 = Some ''-h'' \<or> arg args 0 = Some ''--help'' then usage ''deposit-erc20.ts [amount] [token]''
      else
        bnd (lift (toBigInt (or_else (arg args 0) ''1000000000000000000''))) (\<lambda>amount.
        case cf_l1StandardBridge cf of
          None \<Rightarrow> quit ''run ./devnet/deploy-l1.ts first''
        | Some bridge \<Rightarrow>
            bnd (lift (asKey (cf_depositorKey cf))) (\<lambda>key.
            let depositor = v_keyAddress v key in
            bnd (deployed r bridge) (\<lambda>d.
            if \<not> d then quit (''L1StandardBridge ('' @ bridge @ '') has no code on this L1 - rerun ./devnet/deploy-l1.ts'')
            else
              bnd (deposit_token r v cf depositor (arg args 1)) (\<lambda>token.
              bnd (console_error (''depositing '' @ dec_int amount @ '' of '' @ token @ '' through L1StandardBridge at '' @ bridge)) (\<lambda>_.
              bnd (send r (Approve token bridge amount)) (\<lambda>approval.
              bnd (ask (r_receipt r approval)) (\<lambda>approvalReceipt.
              if rc_status approvalReceipt \<noteq> ''success'' then quit (''approve reverted in '' @ approval)
              else
                bnd (lift (token_facade H v token)) (\<lambda>facade.
                bnd (send r (DepositERC20 bridge token facade amount 400000 ''0x'')) (\<lambda>deposit.
                bnd (ask (r_receipt r deposit)) (\<lambda>depositReceipt.
                if rc_status depositReceipt \<noteq> ''success''
                then quit (''depositERC20 reverted in '' @ deposit @ '' - does '' @ depositor @ '' hold '' @ dec_int amount @ '' of '' @ token @ ''?'')
                else
                  bnd (ask (r_l1TokenBalance r token bridge)) (\<lambda>escrowed.
                  bnd (console_error (''  escrowed in L1StandardBridge: '' @ dec_int escrowed)) (\<lambda>_.
                  bnd (console_error []) (\<lambda>_.
                  bnd (console_error (''the guest credits '' @ depositor @ '' once the chain derives the deposit; check with:'')) (\<lambda>_.
                  console_error (''  bun scripts/balance.ts '' @ depositor @ '' '' @ token))))))))))))))))"

end
