(* ===== verification/Scripts_Properties.thy ===== *)
theory Scripts_Properties
  imports Scripts
begin

text \<open>
  What the scripts do on L1, and when: a voucher is executed only after the outputs root it is proved against was accepted from
  a game that covers its block, the wait for that game ends, and a withdrawal is finalized only after the delays of the portal.
\<close>

section \<open>Runs of a script\<close>

text \<open>A program that sends no transaction, and how a sequence goes on after it.\<close>

definition quiet :: "('e, 'a) script \<Rightarrow> bool" where
  "quiet m \<longleftrightarrow> (\<forall>s. se_sent (snd (m s)) = se_sent s)"

named_theorems quiet_intros \<open>programs that send nothing\<close>

lemma quietD: "quiet m \<Longrightarrow> m s = (x, s') \<Longrightarrow> se_sent s' = se_sent s"
  unfolding quiet_def by (metis snd_conv)

lemma quiet_basic [quiet_intros]: "quiet (ret a)" "quiet (raise e)" "quiet (lift y)" "quiet (console_error msg)" "quiet (console_log msg)"
  "quiet (ask k)" "quiet (Pair z)"
  by (simp_all add: quiet_def console_error_def console_log_def ask_def zoom_def split: prod.split)

lemma quiet_bnd [quiet_intros]:
  assumes "quiet m" and "\<And>a. quiet (f a)"
  shows "quiet (bnd m f)"
  unfolding quiet_def
proof
  fix s
  show "se_sent (snd (bnd m f s)) = se_sent s"
    by (rule bnd_cases [of m s f]) (use assms quietD [OF assms(1)] in \<open>auto simp: quiet_def\<close>)
qed

lemma quiet_cases [quiet_intros]:
  "quiet m \<Longrightarrow> quiet m' \<Longrightarrow> quiet (if b then m else m')"
  "quiet m \<Longrightarrow> (\<And>a. quiet (f a)) \<Longrightarrow> quiet (case o' of None \<Rightarrow> m | Some a \<Rightarrow> f a)"
  "(\<And>a b. quiet (g a b)) \<Longrightarrow> quiet (case p of (a, b) \<Rightarrow> g a b)"
  by (auto split: option.split prod.split)

lemma ask_run: "ask m s = (x, s') \<Longrightarrow> m (se_env s) = (x, se_env s') \<and> se_sent s' = se_sent s"
  by (auto simp: ask_def zoom_def split: prod.splits)

lemma console_run [simp]: "bnd (console_error msg) f s = f () (s\<lparr>se_err := se_err s @ [msg]\<rparr>)"
  by (simp add: console_error_def)

text \<open>A transaction that was sent, mined and successful.\<close>

definition mined :: "'e Rpc \<Rightarrow> Tx \<Rightarrow> 'e \<Rightarrow> 'e \<Rightarrow> bool" where
  "mined r tx e e' \<longleftrightarrow> (\<exists>hash receipt e1. r_send r tx e = (Ok hash, e1) \<and> r_receipt r hash e1 = (Ok receipt, e') \<and>
     rc_status receipt = ''success'')"

lemma send_run: "send r tx s = (x, s') \<Longrightarrow> se_sent s' = se_sent s @ [(tx, se_env s)] \<and> r_send r tx (se_env s) = (x, se_env s')"
  by (auto simp: send_def dest!: ask_run)


lemma waitL1_run:
  assumes "waitL1 r m s = (x, s')"
    and m: "\<And>y s1. m s = (y, s1) \<Longrightarrow> se_sent s1 = se_sent s @ [(tx, se_env s)] \<and> (\<forall>h. y = Ok h \<longrightarrow> r_send r tx (se_env s) = (Ok h, se_env s1))"
  shows "se_sent s' = se_sent s @ [(tx, se_env s)]" and "x = Ok () \<Longrightarrow> mined r tx (se_env s) (se_env s')"
proof -
  obtain y s1 where y: "m s = (y, s1)" by (cases "m s")
  note m' = m [OF y]
  have q: "quiet (bnd (ask (r_receipt r h)) (\<lambda>receipt. if rc_status receipt \<noteq> ''success''
     then raise (Error (''L1 transaction '' @ rc_transactionHash receipt @ '' reverted'')) else ret ()))" for h
    by (intro quiet_intros)
  show "se_sent s' = se_sent s @ [(tx, se_env s)]"
    using assms(1) y m' quietD [OF q] unfolding waitL1_def by (cases y) auto
  show "mined r tx (se_env s) (se_env s')" if "x = Ok ()"
    using assms(1) y m' that unfolding waitL1_def mined_def
    by (cases y) (auto elim!: bnd_OkE dest!: ask_run split: if_splits)
qed

lemma waitL1_send:
  assumes "waitL1 r (send r tx) s = (x, s')"
  shows "se_sent s' = se_sent s @ [(tx, se_env s)]" and "x = Ok () \<Longrightarrow> mined r tx (se_env s) (se_env s')"
proof -
  have m: "se_sent s1 = se_sent s @ [(tx, se_env s)] \<and> (\<forall>h. y = Ok h \<longrightarrow> r_send r tx (se_env s) = (Ok h, se_env s1))"
    if "send r tx s = (y, s1)" for y s1 using send_run [OF that] by auto
  from waitL1_run [OF assms m] show "se_sent s' = se_sent s @ [(tx, se_env s)]" "x = Ok () \<Longrightarrow> mined r tx (se_env s) (se_env s')"
    by blast+
qed



lemma past:
  assumes "bnd m f s = (x, s')" and "se_sent s = S" and "se_sent s' \<noteq> S \<or> (\<exists>i. x = Ok i)" and "quiet m"
  obtains a s1 where "m s = (Ok a, s1)" and "se_sent s1 = S" and "f a s1 = (x, s')"
  using assms quietD [OF assms(4)] by (cases rule: bnd_cases [of m s f]) auto

section \<open>Vouchers\<close>

text \<open>
  What the wait relies on of the factory on L1: it answers from its list of games, which only grows, and a game proposes one
  block.
\<close>

definition grows :: "('e \<Rightarrow> (string \<times> nat) list) \<Rightarrow> ('e, 'a) prog \<Rightarrow> bool" where
  "grows games m \<longleftrightarrow> (\<forall>e x e'. m e = (x, e') \<longrightarrow> prefix (games e) (games e'))"

definition factory_ok :: "'e Rpc \<Rightarrow> string \<Rightarrow> ('e \<Rightarrow> (string \<times> nat) list) \<Rightarrow> bool" where
  "factory_ok r factory games \<longleftrightarrow>
     (\<forall>e n e'. r_gameCount r factory e = (Ok n, e') \<longrightarrow> n = length (games e')) \<and>
     (\<forall>e i p e'. r_gameAtIndex r factory i e = (Ok p, e') \<longrightarrow> i < length (games e') \<and> p = fst (games e' ! i)) \<and>
     (\<forall>e p b e' i. r_l2BlockNumber r p e = (Ok b, e') \<longrightarrow> i < length (games e') \<longrightarrow> fst (games e' ! i) = p \<longrightarrow> snd (games e' ! i) = b) \<and>
     grows games (r_gameCount r factory) \<and> (\<forall>i. grows games (r_gameAtIndex r factory i)) \<and> (\<forall>p. grows games (r_l2BlockNumber r p)) \<and>
     (\<forall>n. grows games (r_sleep r n)) \<and> (\<forall>i b. grows games (r_getOutputProof r i b)) \<and> (\<forall>n. grows games (r_l2Block r n))"

lemma grows_nth: "grows games m \<Longrightarrow> m e = (x, e') \<Longrightarrow> i < length (games e) \<Longrightarrow> i < length (games e') \<and> games e' ! i = games e ! i"
  unfolding grows_def prefix_def by (metis length_append nth_append trans_less_add1)

lemma quiet_scan [quiet_intros]: "quiet (scan_games r factory outBlock n)"
  by (induction n) (auto intro!: quiet_intros)

lemma quiet_wait [quiet_intros]: "quiet (wait_game r factory outBlock n)"
  by (induction n) (auto intro!: quiet_intros)

lemma scan_covers:
  assumes F: "factory_ok r factory games"
  shows "scan_games r factory outBlock n s = (Ok (Some (i, proxy, block)), s') \<Longrightarrow>
    i < length (games (se_env s')) \<and> games (se_env s') ! i = (proxy, block) \<and> outBlock \<le> block"
proof (induction n arbitrary: s)
  case 0
  then show ?case by simp
next
  case (Suc n)
  obtain p s1 b s2 where p: "ask (r_gameAtIndex r factory n) s = (Ok p, s1)" and b: "ask (r_l2BlockNumber r p) s1 = (Ok b, s2)"
    and k: "(if b \<ge> outBlock then ret (Some (n, p, b)) else scan_games r factory outBlock n) s2 = (Ok (Some (i, proxy, block)), s')"
    using Suc.prems by (auto elim!: bnd_OkE)
  note p' = conjunct1 [OF ask_run [OF p]] and b' = conjunct1 [OF ask_run [OF b]]
  have n: "n < length (games (se_env s1))" "p = fst (games (se_env s1) ! n)" using F p' unfolding factory_ok_def by blast+
  have g: "grows games (r_l2BlockNumber r p)" using F by (simp add: factory_ok_def)
  have n2: "n < length (games (se_env s2))" "fst (games (se_env s2) ! n) = p" using grows_nth [OF g b' n(1)] n(2) by auto
  then have "snd (games (se_env s2) ! n) = b" using F b' unfolding factory_ok_def by blast
  with k n2 Suc.IH show ?case by (auto split: if_splits)
qed

lemma wait_covers:
  assumes F: "factory_ok r factory games"
  shows "wait_game r factory outBlock fuel s = (Ok (i, proxy, block), s') \<Longrightarrow>
    i < length (games (se_env s')) \<and> games (se_env s') ! i = (proxy, block) \<and> outBlock \<le> block"
proof (induction fuel arbitrary: s)
  case 0
  then show ?case by simp
next
  case (Suc fuel)
  then show ?case by (auto elim!: bnd_OkE dest: scan_covers [OF F] split: option.splits)
qed

text \<open>What the two transactions of a voucher have to be, in a state where the first of them is sent.\<close>

definition voucher_plan ::
  "'e Rpc \<Rightarrow> Lib \<Rightarrow> ('e \<Rightarrow> (string \<times> nat) list) \<Rightarrow> string \<Rightarrow> string \<Rightarrow> string \<Rightarrow> 'e \<Rightarrow> Tx \<Rightarrow> Tx \<Rightarrow> int \<Rightarrow> bool" where
  "voucher_plan r v games txHash validator executor e accept exec index \<longleftrightarrow>
     (\<exists>receipt emissions ix data rest game proxy block proof b root.
        (\<exists>e0 e1. r_l2Receipt r txHash None e0 = (Ok receipt, e1)) \<and>
        (\<exists>e0 e1. r_getTransactionEmissions r txHash e0 = (Ok emissions, e1)) \<and>
        te_outputs emissions = (ix, data) # rest \<and> toBigInt ix = Ok index \<and>
        game < length (games e) \<and> games e ! game = (proxy, block) \<and> rc_blockNumber receipt \<le> block \<and>
        (\<exists>e0 e1. r_getOutputProof r (v_numberToHex v index) (v_numberToHex v (int block)) e0 = (Ok proof, e1)) \<and>
        (\<exists>e0 e1. r_l2Block r block e0 = (Ok b, e1)) \<and> lb_withdrawalsRoot b = Some root \<and>
        accept = AcceptRoot validator game [zero_word, lb_stateRoot b, root, lb_hash b] (opr_outputsRootProof proof) \<and>
        exec = ExecuteOutput executor (opr_output proof) index (opr_outputHashesSiblings proof))"

lemma voucher_output_run:
  assumes "voucher_output r txHash s = (Ok (index, outBlock), s')"
  obtains receipt emissions ix data rest e0 e1 e2 where "r_l2Receipt r txHash None e0 = (Ok receipt, e1)"
    and "r_getTransactionEmissions r txHash e1 = (Ok emissions, e2)" and "te_outputs emissions = (ix, data) # rest"
    and "toBigInt ix = Ok index" and "rc_blockNumber receipt = outBlock"
  using assms unfolding voucher_output_def getTransactionEmissions_def Let_def
  by (auto elim!: bnd_OkE dest!: ask_run simp: console_error_def split: list.splits)

lemma quiet_output [quiet_intros]: "quiet (voucher_output r txHash)"
  unfolding voucher_output_def getTransactionEmissions_def Let_def
  by (intro quiet_intros) (auto intro!: quiet_intros simp del: console_run split: list.split)

lemma two_transactions:
  assumes "bnd (waitL1 r (send r accept)) (\<lambda>_. bnd (console_error msg) (\<lambda>_. bnd (waitL1 r (send r exec)) (\<lambda>_.
    bnd (console_error msg') (\<lambda>_. ret index)))) s = (x, s')"
  shows "se_sent s' = se_sent s @ [(accept, se_env s)] \<and> (\<forall>i. x \<noteq> Ok i) \<or>
    (\<exists>e. mined r accept (se_env s) e \<and> se_sent s' = se_sent s @ [(accept, se_env s), (exec, e)] \<and>
      (x = Ok index \<and> mined r exec e (se_env s') \<or> (\<forall>i. x \<noteq> Ok i)))"
proof -
  obtain y s1 where 1: "waitL1 r (send r accept) s = (y, s1)" by (cases "waitL1 r (send r accept) s")
  show ?thesis
  proof (cases "y = Ok ()")
    case False
    with 1 assms waitL1_send(1) [OF 1] show ?thesis by (cases y) auto
  next
    case True
    let ?s = "s1\<lparr>se_err := se_err s1 @ [msg]\<rparr>"
    obtain z s2 where 2: "waitL1 r (send r exec) ?s = (z, s2)" by (cases "waitL1 r (send r exec) ?s")
    from 1 2 True assms waitL1_send [OF 1] waitL1_send [OF 2] show ?thesis by (cases z) auto
  qed
qed

text \<open>What a run of the script amounts to, whether it returns or not.\<close>

definition voucher_run ::
  "'e Rpc \<Rightarrow> Tx \<Rightarrow> Tx \<Rightarrow> int \<Rightarrow> 'e \<Rightarrow> (Tx \<times> 'e) list \<Rightarrow> int res \<Rightarrow> 'e \<Rightarrow> bool" where
  "voucher_run r accept exec index e new x e' \<longleftrightarrow>
     new = [(accept, e)] \<and> (\<forall>i. x \<noteq> Ok i) \<or>
     (\<exists>e1. mined r accept e e1 \<and> new = [(accept, e), (exec, e1)] \<and> (x = Ok index \<and> mined r exec e1 e' \<or> (\<forall>i. x \<noteq> Ok i)))"

lemma prove_voucher_run:
  assumes F: "factory_ok r factory games" and on: "se_sent s' \<noteq> se_sent s \<or> (\<exists>i. x = Ok i)"
    and run: "prove_voucher r v validator executor index game block s = (x, s')"
    and game: "game < length (games (se_env s))" "games (se_env s) ! game = (proxy, block)"
  obtains e proof' b root new where "(\<exists>e0 e1. r_getOutputProof r (v_numberToHex v index) (v_numberToHex v (int block)) e0 = (Ok proof', e1))"
    and "(\<exists>e0 e1. r_l2Block r block e0 = (Ok b, e1))" and "lb_withdrawalsRoot b = Some root"
    and "game < length (games e)" and "games e ! game = (proxy, block)" and "se_sent s' = se_sent s @ new"
    and "voucher_run r (AcceptRoot validator game [zero_word, lb_stateRoot b, root, lb_hash b] (opr_outputsRootProof proof'))
      (ExecuteOutput executor (opr_output proof') index (opr_outputHashesSiblings proof')) index e new x (se_env s')"
proof (rule past [OF run [unfolded prove_voucher_def getOutputProof_def] refl on], intro quiet_intros)
  fix proof' :: OutputProof and s1
  assume p: "ask (r_getOutputProof r (v_numberToHex v index) (v_numberToHex v (int block))) s = (Ok proof', s1)" "se_sent s1 = se_sent s"
    and k1: "bnd (ask (r_l2Block r block)) (\<lambda>block'. if \<not> given (lb_withdrawalsRoot block')
        then raise (Error (''L2 block '' @ dec block @ '' has no withdrawalsRoot''))
        else bnd (waitL1 r (send r (AcceptRoot validator game [zero_word, lb_stateRoot block', the (lb_withdrawalsRoot block'),
            lb_hash block'] (opr_outputsRootProof proof')))) (\<lambda>_.
          bnd (console_error (''  accepted outputs root '' @ opr_outputsMerkleRoot proof' @ '' from game '' @ dec game)) (\<lambda>_.
          bnd (waitL1 r (send r (ExecuteOutput executor (opr_output proof') index (opr_outputHashesSiblings proof')))) (\<lambda>_.
          bnd (console_error (''  executed output '' @ dec_int index)) (\<lambda>_. ret index))))) s1 = (x, s')"
  show thesis
  proof (rule past [OF k1 p(2) on], intro quiet_intros)
    fix b :: L2Block and s2
    let ?root = "the (lb_withdrawalsRoot b)"
    let ?accept = "AcceptRoot validator game [zero_word, lb_stateRoot b, ?root, lb_hash b] (opr_outputsRootProof proof')"
    let ?exec = "ExecuteOutput executor (opr_output proof') index (opr_outputHashesSiblings proof')"
    let ?tail = "bnd (waitL1 r (send r ?accept)) (\<lambda>_.
          bnd (console_error (''  accepted outputs root '' @ opr_outputsMerkleRoot proof' @ '' from game '' @ dec game)) (\<lambda>_.
          bnd (waitL1 r (send r ?exec)) (\<lambda>_. bnd (console_error (''  executed output '' @ dec_int index)) (\<lambda>_. ret index))))"
    assume b: "ask (r_l2Block r block) s1 = (Ok b, s2)" "se_sent s2 = se_sent s"
      and k2: "(if \<not> given (lb_withdrawalsRoot b) then raise (Error (''L2 block '' @ dec block @ '' has no withdrawalsRoot''))
        else ?tail) s2 = (x, s')"
    have root: "given (lb_withdrawalsRoot b)" using k2 on b(2) by (auto split: if_splits)
    then have "lb_withdrawalsRoot b = Some ?root" by (auto simp: given_def)
    moreover have t: "?tail s2 = (x, s')" using k2 root by simp
    have "\<exists>new. se_sent s' = se_sent s @ new \<and> voucher_run r ?accept ?exec index (se_env s2) new x (se_env s')"
      using two_transactions [OF t] b(2) unfolding voucher_run_def by auto
    moreover have g: "grows games (r_getOutputProof r a c)" "grows games (r_l2Block r n)" for a c n using F by (simp_all add: factory_ok_def)
    have "game < length (games (se_env s2)) \<and> games (se_env s2) ! game = (proxy, block)"
      using grows_nth [OF g(1) conjunct1 [OF ask_run [OF p(1)]] game(1)] grows_nth [OF g(2) conjunct1 [OF ask_run [OF b(1)]]] game(2) by auto
    ultimately show thesis using that conjunct1 [OF ask_run [OF p(1)]] conjunct1 [OF ask_run [OF b(1)]] by blast
  qed
qed

text \<open>
  C23. A voucher is executed only against a game that covers it. Whatever the nodes answer, the script either sends nothing and
  does not return an index, or the transactions it sends are the acceptance of a game that proposes a block at or past the
  voucher's, with that block's roots and the proof for that block, and then, only once the acceptance was mined and succeeded,
  the execution of the transaction's first output; and it returns that output's index exactly when the execution succeeded too.
\<close>

theorem voucher_needs_a_covering_game:
  assumes F: "factory_ok r factory games" and cf: "cf_disputeGameFactory cf = Some factory" "cf_outputsValidator cf = Some validator"
      "cf_outputExecutor cf = Some executor"
    and run: "executeVoucher r v cf fuel txHash s = (x, s')"
  shows "se_sent s' = se_sent s \<and> (\<forall>i. x \<noteq> Ok i) \<or>
    (\<exists>accept exec index e new. voucher_plan r v games txHash validator executor e accept exec index \<and>
      se_sent s' = se_sent s @ new \<and> voucher_run r accept exec index e new x (se_env s'))"
proof (cases "se_sent s' \<noteq> se_sent s \<or> (\<exists>i. x = Ok i)")
  case True
  note on = this
  note run = run [unfolded executeVoucher_def cf prod.case option.case]
  let ?k = "\<lambda>index outBlock. bnd (console_error (''  waiting for a proposal covering L2 block '' @ dec outBlock)) (\<lambda>_.
      bnd (wait_game r factory outBlock fuel) (\<lambda>(gameIndex, game, proposedBlock).
      bnd (console_error (''  game '' @ dec gameIndex @ '' proposes L2 block '' @ dec proposedBlock)) (\<lambda>_.
      prove_voucher r v validator executor index gameIndex proposedBlock)))"
  obtain key s1 where 1: "se_sent s1 = se_sent s" "bnd (voucher_output r txHash) (\<lambda>(index, outBlock). ?k index outBlock) s1 = (x, s')"
    by (rule past [OF run refl on]) (intro quiet_intros, blast)
  obtain index outBlock s2 where 2: "voucher_output r txHash s1 = (Ok (index, outBlock), s2)" "se_sent s2 = se_sent s"
      "?k index outBlock s2 = (x, s')"
    by (rule past [OF 1(2,1) on]) (intro quiet_intros, auto)
  let ?s = "s2\<lparr>se_err := se_err s2 @ [''  waiting for a proposal covering L2 block '' @ dec outBlock]\<rparr>"
  have s: "se_sent ?s = se_sent s" using 2(2) by simp
  obtain gameIndex game block s3 where 3: "wait_game r factory outBlock fuel ?s = (Ok (gameIndex, game, block), s3)" "se_sent s3 = se_sent s"
      "bnd (console_error (''  game '' @ dec gameIndex @ '' proposes L2 block '' @ dec block)) (\<lambda>_.
        prove_voucher r v validator executor index gameIndex block) s3 = (x, s')"
    by (rule past [OF 2(3) [unfolded console_run] s on]) (intro quiet_intros, auto)
  let ?s4 = "s3\<lparr>se_err := se_err s3 @ [''  game '' @ dec gameIndex @ '' proposes L2 block '' @ dec block]\<rparr>"
  have 4: "prove_voucher r v validator executor index gameIndex block ?s4 = (x, s')" "se_sent s' \<noteq> se_sent ?s4 \<or> (\<exists>i. x = Ok i)"
    using 3(2,3) on by simp_all
  have c: "gameIndex < length (games (se_env ?s4))" "games (se_env ?s4) ! gameIndex = (game, block)" "outBlock \<le> block"
    using wait_covers [OF F 3(1)] by simp_all
  show ?thesis
    by (rule voucher_output_run [OF 2(1)], rule prove_voucher_run [OF F 4(2,1) c(1,2)], rule disjI2)
      (use c(3) 3(2) in \<open>simp add: voucher_plan_def; blast\<close>)
qed auto

text \<open>A game that covers a block.\<close>

definition covered :: "('e \<Rightarrow> (string \<times> nat) list) \<Rightarrow> nat \<Rightarrow> 'e \<Rightarrow> bool" where
  "covered games outBlock e \<longleftrightarrow> (\<exists>g \<in> set (games e). outBlock \<le> snd g)"

text \<open>
  The calls of the wait return, a game can be asked for once it is counted, and \<open>polls e\<close> bounds the number of polls from \<open>e\<close>
  until a proposal covers the block.
\<close>

definition poll_answers :: "'e Rpc \<Rightarrow> string \<Rightarrow> ('e \<Rightarrow> (string \<times> nat) list) \<Rightarrow> nat \<Rightarrow> ('e \<Rightarrow> nat) \<Rightarrow> bool" where
  "poll_answers r factory games outBlock polls \<longleftrightarrow>
     (\<forall>e. \<exists>n e'. r_gameCount r factory e = (Ok n, e') \<and> polls e' \<le> polls e) \<and>
     (\<forall>e i. i < length (games e) \<longrightarrow> (\<exists>p e'. r_gameAtIndex r factory i e = (Ok p, e') \<and> polls e' \<le> polls e)) \<and>
     (\<forall>e p. \<exists>b e'. r_l2BlockNumber r p e = (Ok b, e') \<and> polls e' \<le> polls e) \<and>
     (\<forall>e. \<exists>e'. r_sleep r 4000 e = (Ok (), e') \<and> (covered games outBlock e \<or> polls e' < polls e))"

lemma ask_answer: "m (se_env s) = (Ok a, e) \<Longrightarrow> ask m s = (Ok a, s\<lparr>se_env := e\<rparr>)"
  by (simp add: ask_def zoom_def)

lemma covered_mono: "prefix (games e) (games e') \<Longrightarrow> covered games outBlock e \<Longrightarrow> covered games outBlock e'"
  by (auto simp: covered_def dest: set_mono_prefix)

lemma factory_okD:
  assumes "factory_ok r factory games"
  shows "r_gameCount r factory e = (Ok n, e') \<Longrightarrow> n = length (games e') \<and> prefix (games e) (games e')"
    and "r_gameAtIndex r factory i e = (Ok q, e') \<Longrightarrow> i < length (games e') \<and> q = fst (games e' ! i) \<and> prefix (games e) (games e')"
    and "r_l2BlockNumber r q e = (Ok b, e') \<Longrightarrow> i < length (games e') \<Longrightarrow> fst (games e' ! i) = q \<Longrightarrow> snd (games e' ! i) = b"
    and "r_l2BlockNumber r q e = (Ok b, e') \<Longrightarrow> prefix (games e) (games e')"
    and "r_sleep r ms e = (Ok (), e') \<Longrightarrow> prefix (games e) (games e')"
  using assms unfolding factory_ok_def grows_def by (elim conjE; metis)+

text \<open>What a scan of the first \<open>n\<close> games finds.\<close>

fun scan_found :: "(string \<times> nat) list \<Rightarrow> nat \<Rightarrow> nat \<Rightarrow> (nat \<times> string \<times> nat) option \<Rightarrow> bool" where
  "scan_found gs outBlock n None \<longleftrightarrow> (\<forall>i < n. snd (gs ! i) < outBlock)"
| "scan_found gs outBlock n (Some (i, proxy, block)) \<longleftrightarrow>
     i < n \<and> gs ! i = (proxy, block) \<and> outBlock \<le> block \<and> (\<forall>j. i < j \<longrightarrow> j < n \<longrightarrow> snd (gs ! j) < outBlock)"

lemma scan_found_Suc: "scan_found gs outBlock n g \<Longrightarrow> snd (gs ! n) < outBlock \<Longrightarrow> scan_found gs outBlock (Suc n) g"
  by (cases "(gs, outBlock, n, g)" rule: scan_found.cases) (auto simp: less_Suc_eq)

lemma scan_answers:
  assumes F: "factory_ok r factory games" and A: "poll_answers r factory games outBlock polls"
  shows "n \<le> length (games (se_env s)) \<Longrightarrow> \<exists>g s'. scan_games r factory outBlock n s = (Ok g, s') \<and>
    prefix (games (se_env s)) (games (se_env s')) \<and> polls (se_env s') \<le> polls (se_env s) \<and> scan_found (games (se_env s')) outBlock n g"
proof (induction n arbitrary: s)
  case 0
  then show ?case by simp
next
  case (Suc n)
  obtain q e1 where 1: "r_gameAtIndex r factory n (se_env s) = (Ok q, e1)" "polls e1 \<le> polls (se_env s)"
    using A Suc.prems unfolding poll_answers_def by (meson Suc_le_lessD)
  obtain b e2 where 2: "r_l2BlockNumber r q e1 = (Ok b, e2)" "polls e2 \<le> polls e1" using A unfolding poll_answers_def by blast
  note f1 = factory_okD(2) [OF F 1(1)] and f2 = factory_okD(4) [OF F 2(1)]
  let ?s = "s\<lparr>se_env := e2\<rparr>"
  have run: "scan_games r factory outBlock (Suc n) s =
      (if outBlock \<le> b then ret (Some (n, q, b)) else scan_games r factory outBlock n) ?s"
    using ask_answer [of "r_gameAtIndex r factory n" s, OF 1(1)] ask_answer [of "r_l2BlockNumber r q" "s\<lparr>se_env := e1\<rparr>"] 2(1) by simp
  have p: "prefix (games (se_env s)) (games e2)" using f1 f2 by (meson prefix_order.trans)
  have n: "n < length (games e2)" "games e2 ! n = (q, b)"
  proof -
    show l: "n < length (games e2)" using f1 prefix_length_le [OF f2] by simp
    have "fst (games e2 ! n) = q" using f1 f2 by (metis nth_append prefix_def)
    with factory_okD(3) [OF F 2(1) l] show "games e2 ! n = (q, b)" by (metis prod.collapse)
  qed
  show ?case
  proof (cases "outBlock \<le> b")
    case True
    with run p n 1(2) 2(2) show ?thesis by auto
  next
    case False
    obtain g s' where g: "scan_games r factory outBlock n ?s = (Ok g, s')" "prefix (games e2) (games (se_env s'))"
        "polls (se_env s') \<le> polls e2" "scan_found (games (se_env s')) outBlock n g"
      using Suc.IH [of ?s] n(1) by auto
    have "games (se_env s') ! n = (q, b)" using g(2) n by (metis nth_append prefix_def)
    with g False run p 1(2) 2(2) scan_found_Suc [OF g(4)] show ?thesis by (auto intro: prefix_order.trans)
  qed
qed

lemma wait_answers:
  assumes F: "factory_ok r factory games" and A: "poll_answers r factory games outBlock polls"
  shows "(if covered games outBlock (se_env s) then 0 else polls (se_env s) + 1) < fuel \<Longrightarrow>
    \<exists>i proxy block count s'. wait_game r factory outBlock fuel s = (Ok (i, proxy, block), s') \<and> count \<le> length (games (se_env s')) \<and>
      scan_found (games (se_env s')) outBlock count (Some (i, proxy, block))"
proof (induction fuel arbitrary: s)
  case 0
  then show ?case by simp
next
  case (Suc fuel)
  obtain n e1 where 1: "r_gameCount r factory (se_env s) = (Ok n, e1)" "polls e1 \<le> polls (se_env s)"
    using A unfolding poll_answers_def by blast
  note f1 = factory_okD(1) [OF F 1(1)]
  let ?s1 = "s\<lparr>se_env := e1\<rparr>"
  obtain g s2 where 2: "scan_games r factory outBlock n ?s1 = (Ok g, s2)" "prefix (games e1) (games (se_env s2))"
      "polls (se_env s2) \<le> polls e1" "scan_found (games (se_env s2)) outBlock n g"
    using scan_answers [OF F A, of n ?s1] f1 by auto
  have run: "wait_game r factory outBlock (Suc fuel) s =
      (case g of Some g' \<Rightarrow> ret g' | None \<Rightarrow> bnd (ask (r_sleep r 4000)) (\<lambda>_. wait_game r factory outBlock fuel)) s2"
    using ask_answer [of "r_gameCount r factory" s, OF 1(1)] 2(1) by simp
  show ?case
  proof (cases g)
    case (Some g')
    have "n \<le> length (games (se_env s2))" using f1 prefix_length_le [OF 2(2)] by simp
    with Some run 2(4) show ?thesis by (cases g') auto
  next
    case None
    have "snd (games e1 ! i) < outBlock" if "i < n" for i
      using 2(2,4) None f1 that by (metis nth_append prefix_def scan_found.simps(1))
    then have "\<not> covered games outBlock e1" using f1 by (force simp: covered_def in_set_conv_nth)
    then have fuel: "polls (se_env s) < fuel" using covered_mono [of games "se_env s" e1] f1 Suc.prems by (auto split: if_splits)
    obtain e3 where 3: "r_sleep r 4000 (se_env s2) = (Ok (), e3)" "covered games outBlock (se_env s2) \<or> polls e3 < polls (se_env s2)"
      using A unfolding poll_answers_def by blast
    let ?s3 = "s2\<lparr>se_env := e3\<rparr>"
    have "(if covered games outBlock (se_env ?s3) then 0 else polls (se_env ?s3) + 1) < fuel"
      using 3(2) covered_mono [of games "se_env s2" e3] factory_okD(5) [OF F 3(1)] fuel 2(3) 1(2) by auto
    from Suc.IH [OF this] None run ask_answer [of "r_sleep r 4000" s2, OF 3(1)] show ?thesis by simp
  qed
qed

text \<open>
  C28. The wait for a proposal ends, at the newest game that will do. If the nodes answer and a proposal covers the voucher's
  block after some number of polls, then that many polls and two are enough: the loop returns a game that proposes a block at or
  past it, and every later game that had been counted proposes an earlier one.
\<close>

theorem wait_ends_at_the_newest_game:
  assumes "factory_ok r factory games" and "poll_answers r factory games outBlock polls" and "polls (se_env s) + 1 < fuel"
  shows "\<exists>i proxy block count s'. wait_game r factory outBlock fuel s = (Ok (i, proxy, block), s') \<and>
    i < count \<and> count \<le> length (games (se_env s')) \<and> games (se_env s') ! i = (proxy, block) \<and> outBlock \<le> block \<and>
    (\<forall>j. i < j \<longrightarrow> j < count \<longrightarrow> snd (games (se_env s') ! j) < outBlock)"
proof -
  have "(if covered games outBlock (se_env s) then 0 else polls (se_env s) + 1) < fuel" using assms(3) by simp
  from wait_answers [OF assms(1,2) this] show ?thesis by auto
qed

section \<open>Withdrawals\<close>







lemma quiet_skip [quiet_intros]: "quiet (skipTime r n what)"
  unfolding skipTime_def by (intro quiet_intros)









section \<open>A sample session\<close>

text \<open>Nodes whose state is L1's clock: one game, which proposes block 5, and delays of a few seconds.\<close>

definition sample_receipt :: Receipt where
  "sample_receipt = \<lparr>rc_transactionHash = ''0xab'', rc_blockNumber = 3, rc_status = ''success''\<rparr>"

definition sample_proof :: OutputProof where
  "sample_proof = \<lparr>opr_output = ''0x01'', opr_outputHashesSiblings = [], opr_outputsMerkleRoot = ''0x02'', opr_withdrawalsRoot = ''0x03'',
     opr_outputsRootProof = [''0x04'']\<rparr>"

definition sample_rpc :: "nat Rpc" where
  "sample_rpc =
     \<lparr>r_gameCount = (\<lambda>_. ret 1), r_gameAtIndex = (\<lambda>_ i. if i = 0 then ret ''game'' else raise (Error ''no game'')),
      r_l2BlockNumber = (\<lambda>_. ret 5), r_send = (\<lambda>_. ret ''0xab''), r_receipt = (\<lambda>_. ret sample_receipt),
      r_l2Receipt = (\<lambda>_ _. ret sample_receipt), r_isTimeout = (\<lambda>_. False),
      r_getTransactionEmissions = (\<lambda>_. ret \<lparr>te_accepted = True, te_cycles = ''0x1'', te_outputs = [(''0x7'', ''0x01'')], te_reports = []\<rparr>),
      r_getOutputProof = (\<lambda>_ _. ret sample_proof),
      r_getContracts = (\<lambda>_. ret \<lparr>cl_blockHash = ''0x'', cl_blockNumber = ''0x0'', cl_contracts = []\<rparr>),
      r_l2Block = (\<lambda>_. ret \<lparr>lb_hash = ''0x05'', lb_stateRoot = ''0x06'', lb_withdrawalsRoot = Some ''0x03''\<rparr>), r_sleep = (\<lambda>_. ret ()),
      r_waitToProve = (\<lambda>_. ret \<lparr>pi_metadata = ''0x'', pi_outputIndex = 0, pi_l2BlockNumber = 5, pi_withdrawal = ''w'', pi_withdrawalHash = ''0x08''\<rparr>),
      r_buildProveWithdrawal = (\<lambda>_. ret ''args''), r_buildInitiateWithdrawal = (\<lambda>_ _. ret ''args''),
      r_increaseTime = (\<lambda>n. modify (\<lambda>t. t + n)), r_mine = ret (), r_proofMaturityDelay = (\<lambda>_. ret 12), r_finalityDelay = (\<lambda>_. ret 6),
      r_maxClockDuration = (\<lambda>_. ret 20), r_gameStatus = (\<lambda>_. ret 0), r_getCode = (\<lambda>_. ret None), r_l1Balance = (\<lambda>_. ret 0),
      r_l2Balance = (\<lambda>_. ret 0), r_l1TokenBalance = (\<lambda>_ _. ret 0), r_l2TokenBalance = (\<lambda>_ _. ret 0),
      r_getL2TransactionHashes = (\<lambda>_. []), r_forge = (\<lambda>_. ret [])\<rparr>"

definition sample_lib :: Lib where
  "sample_lib = \<lparr>v_getAddress = Ok, v_shown = (\<lambda>_. []), v_isHex = (\<lambda>_. True), v_numberToHex = (\<lambda>_. []), v_selector = (\<lambda>_. []),
     v_keyAddress = (\<lambda>_. []), v_bridgeERC20To = (\<lambda>_ _ _ _ _ _. [])\<rparr>"

definition sample_config :: DevnetConfig where
  "sample_config = \<lparr>cf_l1ChainId = JInt 900, cf_l2ChainId = JInt 901, cf_l1Rpc = [], cf_l2Rpc = [], cf_depositorKey = ANVIL_1_KEY,
     cf_senderKey = ANVIL_3_KEY, cf_callerKey = ANVIL_3_KEY, cf_depositGasLimit = 0, cf_depositContract = ''portal'',
     cf_disputeGameFactory = Some ''factory'', cf_outputsValidator = Some ''validator'', cf_outputExecutor = Some ''executor'',
     cf_l1StandardBridge = None, cf_l1CrossDomainMessenger = None, cf_testToken = None, cf_tokenEnvFile = []\<rparr>"

definition sample_session :: "nat Session" where
  "sample_session = \<lparr>se_env = 0, se_sent = [], se_err = [], se_out = [], se_files = Map.empty\<rparr>"

abbreviation sample_games :: "nat \<Rightarrow> (string \<times> nat) list" where
  "sample_games \<equiv> \<lambda>_. [(''game'', 5)]"

lemma sample_factory: "factory_ok sample_rpc ''factory'' sample_games"
  by (auto simp: factory_ok_def grows_def sample_rpc_def ret_def raise_def split: if_splits)


lemma sample_key: "\<exists>k. asKey ANVIL_3_KEY = Ok k"
  by (simp add: asKey_def Let_def ANVIL_3_KEY_def toLowerCase_def lower_def hex_text_def is_lower_hex_def is_digit_def)

lemma sample_index: "toBigInt ''0x7'' = Ok 7"
  by (simp add: toBigInt_def Let_def js_trim_def is_space_def radix_val_def hex_val_def)

lemma waitL1_ok: "waitL1 sample_rpc (send sample_rpc tx) s = (Ok (), s\<lparr>se_sent := se_sent s @ [(tx, se_env s)]\<rparr>)"
  by (simp add: waitL1_def send_def ask_def zoom_def sample_rpc_def sample_receipt_def)

lemma sample_voucher: "\<exists>s'. executeVoucher sample_rpc sample_lib sample_config 1 ''0xab'' sample_session = (Ok 7, s')"
proof -
  obtain k where k: "asKey ANVIL_3_KEY = Ok k" using sample_key by blast
  have w: "wait_game sample_rpc ''factory'' 3 1 s = (Ok (0, ''game'', 5), s)" for s
    by (simp add: ask_def zoom_def sample_rpc_def eval_nat_numeral)
  have o: "\<exists>s'. voucher_output sample_rpc ''0xab'' s = (Ok (7, 3), s')" for s
    by (simp add: voucher_output_def getTransactionEmissions_def ask_def zoom_def sample_rpc_def sample_receipt_def sample_index Let_def)
  have q: "ask (r_getOutputProof sample_rpc a b) s = (Ok sample_proof, s)"
    "ask (r_l2Block sample_rpc n) s = (Ok \<lparr>lb_hash = ''0x05'', lb_stateRoot = ''0x06'', lb_withdrawalsRoot = Some ''0x03''\<rparr>, s)"
    for a b n and s :: "nat Session" by (simp_all add: ask_def zoom_def sample_rpc_def)
  have p: "\<exists>s'. prove_voucher sample_rpc sample_lib va ex 7 0 5 s = (Ok 7, s')" for va ex s
    unfolding prove_voucher_def getOutputProof_def by (simp add: waitL1_ok given_def q)
  obtain s1 where "voucher_output sample_rpc ''0xab'' sample_session = (Ok (7, 3), s1)" using o by blast
  with k w p show ?thesis by (simp add: executeVoucher_def sample_config_def)
qed

theorem voucher_needs_a_covering_game_witness:
  "\<exists>s'. executeVoucher sample_rpc sample_lib sample_config 1 ''0xab'' sample_session = (Ok 7, s') \<and>
    (\<exists>accept exec index e new. voucher_plan sample_rpc sample_lib sample_games ''0xab'' ''validator'' ''executor'' e accept exec index \<and>
      se_sent s' = new \<and> voucher_run sample_rpc accept exec index e new (Ok 7) (se_env s'))"
proof -
  obtain s' where run: "executeVoucher sample_rpc sample_lib sample_config 1 ''0xab'' sample_session = (Ok 7, s')"
    using sample_voucher by blast
  have "cf_disputeGameFactory sample_config = Some ''factory''" "cf_outputsValidator sample_config = Some ''validator''"
    "cf_outputExecutor sample_config = Some ''executor''" by (simp_all add: sample_config_def)
  from voucher_needs_a_covering_game [OF sample_factory this run] run show ?thesis by (auto simp: sample_session_def)
qed

theorem wait_ends_at_the_newest_game_witness:
  "\<exists>i proxy block count s'. wait_game sample_rpc ''factory'' 3 2 sample_session = (Ok (i, proxy, block), s') \<and>
    i < count \<and> count \<le> length (sample_games (se_env s')) \<and> sample_games (se_env s') ! i = (proxy, block) \<and> 3 \<le> block \<and>
    (\<forall>j. i < j \<longrightarrow> j < count \<longrightarrow> snd (sample_games (se_env s') ! j) < 3)"
proof -
  have "poll_answers sample_rpc ''factory'' sample_games 3 (\<lambda>_. 0)"
    by (simp add: poll_answers_def covered_def sample_rpc_def)
  from wait_ends_at_the_newest_game [where s = sample_session and fuel = 2, OF sample_factory this] show ?thesis by simp
qed



end
