(* ===== verification/Guest_Log.thy ===== *)
theory Guest_Log
  imports Scripts
begin

text \<open>
  The pane that follows the chain and prints the guest's reports (\<^verbatim>\<open>devnet/guest-log.ts\<close>). What is printed is text beyond
  Latin-1, so a string is the list of its UTF-16 code units; a payload is its bytes, shown in hexadecimal as the node sends it.
  The node is a parameter, like in Scripts; the loop, which never ends, is its first so many rounds.
\<close>

type_synonym ustring = "nat list"

abbreviation u :: "string \<Rightarrow> ustring" where
  "u s \<equiv> map of_char s"

section \<open>Text\<close>

definition cont :: "byte \<Rightarrow> bool" where
  "cont b \<longleftrightarrow> 0x80 \<le> b \<and> b \<le> 0xbf"

definition bits6 :: "byte \<Rightarrow> nat" where
  "bits6 b = unat b mod 64"

text \<open>\<^verbatim>\<open>TextDecoder("utf-8", { fatal: true })\<close>: the code points, or an error where the bytes are not well formed.\<close>

fun utf8_points :: "bytes \<Rightarrow> nat list option" where
  "utf8_points [] = Some []"
| "utf8_points (a # s) =
     (if a < 0x80 then map_option ((#) (unat a)) (utf8_points s)
      else if 0xc2 \<le> a \<and> a \<le> 0xdf then
        (case s of
           b # s' \<Rightarrow> if cont b then map_option ((#) ((unat a mod 32) * 64 + bits6 b)) (utf8_points s') else None
         | [] \<Rightarrow> None)
      else if 0xe0 \<le> a \<and> a \<le> 0xef then
        (case s of
           b # c # s' \<Rightarrow>
             if cont b \<and> cont c \<and> (a = 0xe0 \<longrightarrow> 0xa0 \<le> b) \<and> (a = 0xed \<longrightarrow> b \<le> 0x9f)
             then map_option ((#) ((unat a mod 16) * 4096 + bits6 b * 64 + bits6 c)) (utf8_points s') else None
         | _ \<Rightarrow> None)
      else if 0xf0 \<le> a \<and> a \<le> 0xf4 then
        (case s of
           b # c # d # s' \<Rightarrow>
             if cont b \<and> cont c \<and> cont d \<and> (a = 0xf0 \<longrightarrow> 0x90 \<le> b) \<and> (a = 0xf4 \<longrightarrow> b \<le> 0x8f)
             then map_option ((#) ((unat a mod 8) * 262144 + bits6 b * 4096 + bits6 c * 64 + bits6 d)) (utf8_points s') else None
         | _ \<Rightarrow> None)
      else None)"

text \<open>A byte order mark in front is dropped.\<close>

definition decode_utf8 :: "bytes \<Rightarrow> nat list option" where
  "decode_utf8 bytes = utf8_points (if take 3 bytes = [0xef, 0xbb, 0xbf] then drop 3 bytes else bytes)"

definition units :: "nat \<Rightarrow> ustring" where
  "units c = (if c < 0x10000 then [c] else [0xd800 + (c - 0x10000) div 1024, 0xdc00 + (c - 0x10000) mod 1024])"

definition MAX_REPORT_CHARS :: nat where
  "MAX_REPORT_CHARS = 400"

definition truncate_text :: "ustring \<Rightarrow> ustring" where
  "truncate_text s = (if length s > MAX_REPORT_CHARS
     then take MAX_REPORT_CHARS s @ [0x2026] @ u '' ('' @ u (dec (length s)) @ u '' chars)'' else s)"

definition isText :: "nat \<Rightarrow> bool" where
  "isText c \<longleftrightarrow> c > 0x1f \<or> 0x09 \<le> c \<and> c \<le> 0x0d"

text \<open>\<^verbatim>\<open>hexToBytes\<close> and \<^verbatim>\<open>size\<close> on the hexadecimal the node sends: \<^verbatim>\<open>0x\<close> and two digits for every byte.\<close>

definition hex_bytes :: "string \<Rightarrow> bytes" where
  "hex_bytes h = hex_pairs (drop 2 h)"

definition readable :: "string \<Rightarrow> ustring" where
  "readable payload =
     (if hex_bytes payload = [] then u ''(empty)''
      else case decode_utf8 (hex_bytes payload) of
        None \<Rightarrow> truncate_text (u payload)
      | Some text \<Rightarrow>
          if \<not> list_all isText text then truncate_text (u payload)
          else
            let kept = rev (dropWhile (\<lambda>c. c = 0x0a) (rev (concat (map units text)))) in
            truncate_text (concat (map (\<lambda>c. if c = 0x0a then [0x0a] @ replicate 11 0x20 else [c]) kept)))"

definition TAGS :: "byte \<Rightarrow> ustring option" where
  "TAGS = [TAG_APP \<mapsto> u ''report'', TAG_RETURN \<mapsto> u ''return'', TAG_REVERT \<mapsto> u ''revert'']"

definition padEnd :: "nat \<Rightarrow> ustring \<Rightarrow> ustring" where
  "padEnd n s = s @ replicate (n - length s) 0x20"

fun ujoin :: "ustring \<Rightarrow> ustring list \<Rightarrow> ustring" where
  "ujoin sep [] = []"
| "ujoin sep [x] = x"
| "ujoin sep (x # y # zs) = x @ sep @ ujoin sep (y # zs)"

text \<open>\<open>decodeError\<close> is \<^verbatim>\<open>viem\<close>'s \<^verbatim>\<open>decodeErrorResult\<close> with the two standard errors.\<close>

definition formatReport :: "(bytes \<Rightarrow> (ustring \<times> ustring list) res) \<Rightarrow> string \<Rightarrow> ustring" where
  "formatReport decodeError report =
     (case hex_bytes report of
        [] \<Rightarrow> u ''  (empty report)''
      | tag # payload \<Rightarrow>
          (case TAGS tag of
             None \<Rightarrow> u ''  report   '' @ readable report
           | Some label \<Rightarrow>
               let plain = u ''  '' @ padEnd 8 label @ [0x20] @ readable (''0x'' @ drop 4 report) in
               if tag = TAG_REVERT \<and> length payload \<ge> 4 then
                 (case decodeError payload of
                    Ok (errorName, args) \<Rightarrow> u ''  revert   '' @ errorName @ u ''('' @ ujoin (u '', '') args @ u '')''
                  | _ \<Rightarrow> plain)
               else plain))"

definition shortHash :: "string \<Rightarrow> ustring" where
  "shortHash hash = u (take 10 hash) @ [0x2026] @ u (drop (length hash - 6) hash)"

text \<open>
  \<^verbatim>\<open>(Number(n) / 10 ** k).toFixed(f)\<close> for a quotient of at least one and below \<^verbatim>\<open>1e21\<close>, which a 64-bit cycle counter gives:
  the quotient is rounded to 53 bits, ties to even, and then to \<open>f\<close> digits, ties up.
\<close>

definition quotient53 :: "nat \<Rightarrow> nat \<Rightarrow> nat \<times> nat" where
  "quotient53 p q =
     (let k = bitlen (p div q); num = p * 2 ^ (53 - k); den = q * 2 ^ (k - 53); m = num div den; r = num mod den;
          m' = (if 2 * r < den \<or> (2 * r = den \<and> even m) then m else m + 1) in
      (m' * 2 ^ (k - 53), 2 ^ (53 - k)))"

definition toFixed :: "nat \<Rightarrow> nat \<times> nat \<Rightarrow> string" where
  "toFixed f = (\<lambda>(num, den). let n = (2 * num * 10 ^ f + den) div (2 * den) in
     dec (n div 10 ^ f) @ ''.'' @ padStart f (CHR ''0'') (dec (n mod 10 ^ f)))"

definition formatCycles :: "int \<Rightarrow> string" where
  "formatCycles cycles =
     (let n = toNumber (nat cycles) in
      if cycles \<ge> 1000000000 then toFixed 2 (quotient53 n 1000000000) @ ''G''
      else if cycles \<ge> 1000000 then toFixed 1 (quotient53 n 1000000) @ ''M''
      else if cycles \<ge> 1000 then toFixed 1 (quotient53 n 1000) @ ''k''
      else dec_int cycles)"

section \<open>Blocks\<close>

record LogTx =
  lt_hash :: string
  lt_to :: "string option"
  lt_value :: nat

record LogBlock =
  lk_hash :: string
  lk_transactions :: "LogTx list"

record 'e LogRpc =
  n_getBlockNumber :: "('e, nat) prog"
  n_getBlock :: "nat \<Rightarrow> ('e, LogBlock) prog"
  n_getTransactionEmissions :: "string \<Rightarrow> ('e, TransactionEmissions) prog"
  n_sleep :: "nat \<Rightarrow> ('e, unit) prog"
  n_formatEther :: "nat \<Rightarrow> string"
  n_decodeError :: "bytes \<Rightarrow> (ustring \<times> ustring list) res"

definition interesting :: "TransactionEmissions \<Rightarrow> bool" where
  "interesting em \<longleftrightarrow> \<not> te_accepted em \<or> te_reports em \<noteq> [] \<or> te_outputs em \<noteq> []"

fun output_lines :: "(string \<times> string) list \<Rightarrow> ustring list res" where
  "output_lines [] = Ok []"
| "output_lines ((index, data) # os) =
     rbind (toBigInt index) (\<lambda>i. rbind (output_lines os) (\<lambda>ls.
     Ok ((u ''  output#'' @ u (dec_int i) @ [0x20] @ readable data) # ls)))"

definition tx_lines :: "'e LogRpc \<Rightarrow> LogTx \<Rightarrow> TransactionEmissions \<Rightarrow> int \<Rightarrow> ustring list res" where
  "tx_lines r tx em cycles =
     (if \<not> interesting em then Ok []
      else
        let verdict = (if te_accepted em then u ''accepted'' else u ''REJECTED'');
            dst = (if given (lt_to tx) then shortHash (the (lt_to tx)) else u ''(create)'');
            amount = (if lt_value tx > 0 then u '' value '' @ u (n_formatEther r (lt_value tx)) else []) in
        rbind (output_lines (te_outputs em)) (\<lambda>outs.
        Ok ((u ''  '' @ verdict @ [0x20] @ shortHash (lt_hash tx) @ u '' to '' @ dst @ amount @ [0x20, 0x2014, 0x20] @
             u (formatCycles cycles) @ u '' cycles'') # outs @ map (formatReport (n_decodeError r)) (te_reports em))))"

text \<open>The loop over the transactions of a block: their lines and the sum of their cycles.\<close>

fun collect :: "'e LogRpc \<Rightarrow> LogTx list \<Rightarrow> ustring list \<Rightarrow> int \<Rightarrow> ('e, ustring list \<times> int) prog" where
  "collect r [] ls cycles = ret (ls, cycles)"
| "collect r (tx # txs) ls cycles =
     bnd (n_getTransactionEmissions r (lt_hash tx)) (\<lambda>em.
     bnd (lift (toBigInt (te_cycles em))) (\<lambda>c.
     bnd (lift (tx_lines r tx em c)) (\<lambda>new.
     collect r txs (ls @ new) (cycles + c))))"

definition block_lines :: "'e LogRpc \<Rightarrow> nat \<Rightarrow> ('e, ustring list) prog" where
  "block_lines r number =
     bnd (n_getBlock r number) (\<lambda>block.
     bnd (collect r (lk_transactions block) [] 0) (\<lambda>(ls, cycles).
     ret ((u ''block '' @ u (dec number) @ [0x20] @ shortHash (lk_hash block) @ [0x20] @
           u (dec (length (lk_transactions block))) @ u '' tx, '' @ u (formatCycles cycles) @ u '' cycles'') # ls)))"

section \<open>Following\<close>

record 'e Follow =
  fo_env :: 'e
  fo_next :: "nat option"
  fo_complained :: bool
  fo_out :: "ustring list"
  fo_err :: "ustring list"

definition on_node :: "('e, 'a) prog \<Rightarrow> ('e Follow, 'a) prog" where
  "on_node m = zoom fo_env (\<lambda>e f. f\<lparr>fo_env := e\<rparr>) m"

text \<open>Every line of a block is printed after the last answer for it has come.\<close>

definition printBlock :: "'e LogRpc \<Rightarrow> nat \<Rightarrow> ('e Follow, unit) prog" where
  "printBlock r number =
     bnd (on_node (block_lines r number)) (\<lambda>ls. modify (\<lambda>f. f\<lparr>fo_out := fo_out f @ ls\<rparr>))"

text \<open>\<^verbatim>\<open>for (; next <= head; next++) await printBlock(next)\<close>, \<open>n\<close> times.\<close>

fun print_blocks :: "'e LogRpc \<Rightarrow> nat \<Rightarrow> nat \<Rightarrow> ('e Follow, unit) prog" where
  "print_blocks r next 0 = ret ()"
| "print_blocks r next (Suc n) =
     bnd (printBlock r next) (\<lambda>_.
     bnd (modify (\<lambda>f. f\<lparr>fo_next := Some (next + 1)\<rparr>)) (\<lambda>_. print_blocks r (next + 1) n))"

definition follow_head :: "'e LogRpc \<Rightarrow> string \<Rightarrow> ('e Follow, unit) prog" where
  "follow_head r rpc =
     bnd (on_node (n_getBlockNumber r)) (\<lambda>head.
     bnd (modify (\<lambda>f. case fo_next f of
            None \<Rightarrow> f\<lparr>fo_next := Some head, fo_out := fo_out f @ [u ''following the guest from block '' @ u (dec head) @ u '' on '' @ u rpc]\<rparr>
          | Some _ \<Rightarrow> f)) (\<lambda>_.
     bnd (modify (\<lambda>f. if head + 1 < the (fo_next f) then f\<lparr>fo_next := Some (head + 1)\<rparr> else f)) (\<lambda>_.
     bnd (gets (\<lambda>f. the (fo_next f))) (\<lambda>next.
     bnd (print_blocks r next (head + 1 - next)) (\<lambda>_.
     modify (\<lambda>f. f\<lparr>fo_complained := False\<rparr>))))))"

text \<open>One round of the loop.\<close>

definition follow_round :: "'e LogRpc \<Rightarrow> string \<Rightarrow> nat \<Rightarrow> ('e Follow, unit) prog" where
  "follow_round r rpc POLL_MS =
     bnd (try_catch (bnd (follow_head r rpc) (\<lambda>_. ret True)) (\<lambda>error.
       bnd (modify (\<lambda>f. if fo_complained f then f
         else f\<lparr>fo_err := fo_err f @ [u ''waiting for the chain: '' @ u (first_line (message_of error))], fo_complained := True\<rparr>)) (\<lambda>_.
       ret False))) (\<lambda>ok.
     on_node (n_sleep r (if ok then POLL_MS else 2000)))"

fun follow :: "'e LogRpc \<Rightarrow> string \<Rightarrow> nat \<Rightarrow> nat \<Rightarrow> ('e Follow, unit) prog" where
  "follow r rpc POLL_MS 0 = ret ()"
| "follow r rpc POLL_MS (Suc rounds) = bnd (follow_round r rpc POLL_MS) (\<lambda>_. follow r rpc POLL_MS rounds)"

end
