(* ===== verification/Guest_Log_Properties.thy ===== *)
theory Guest_Log_Properties
  imports Guest_Log Scripts_Properties
begin

text \<open>
  The pane prints the chain without gaps or repetitions, as long as the node gives a block one text (\<open>stable\<close>) and its head does
  not move backwards (\<open>head_advances\<close>).
\<close>

section \<open>Reports\<close>

text \<open>A report under \<^verbatim>\<open>TAG_FAIL\<close> has no label of its own, and its tag makes it unreadable: it is shown as hexadecimal.\<close>

lemma fail_report_is_hex:
  assumes "hex_bytes report = TAG_FAIL # payload"
  shows "formatReport d report = u ''  report   '' @ truncate_text (u report)"
proof -
  have t: "TAGS TAG_FAIL = None" by (simp add: TAGS_def TAG_FAIL_def TAG_APP_def TAG_RETURN_def TAG_REVERT_def)
  have "decode_utf8 (hex_bytes report) = map_option ((#) 3) (utf8_points payload)"
    using assms by (simp add: decode_utf8_def TAG_FAIL_def)
  then have "readable report = truncate_text (u report)"
    using assms by (cases "utf8_points payload") (simp_all add: readable_def isText_def)
  with t assms show ?thesis by (simp add: formatReport_def)
qed

section \<open>Following\<close>



text \<open>What has been printed: the greeting, then the blocks from the one joined at up to the next, each once and in order.\<close>

definition followed :: "(nat \<Rightarrow> ustring list) \<Rightarrow> ('e \<Rightarrow> nat) \<Rightarrow> string \<Rightarrow> 'e Follow \<Rightarrow> bool" where
  "followed text_of head rpc f \<longleftrightarrow>
     fo_next f = None \<and> fo_out f = [] \<or>
     (\<exists>joined n. fo_next f = Some n \<and> joined \<le> n \<and> n \<le> head (fo_env f) + 1 \<and>
        fo_out f = (u ''following the guest from block '' @ u (dec joined) @ u '' on '' @ u rpc) # concat (map text_of [joined..<n]))"






lemma followed_flags [simp]:
  "followed text_of head rpc (f\<lparr>fo_complained := c\<rparr>) = followed text_of head rpc f"
  "followed text_of head rpc (f\<lparr>fo_err := es\<rparr>) = followed text_of head rpc f"
  by (simp_all add: followed_def)










end
