(* ===== verification/Spec2Isabelle.thy ===== *)
theory Spec2Isabelle
  imports Samples Drive_Properties Wire_Properties Router_Properties Devnet_Properties Demo_Properties Scripts_Properties
    Guest_Log_Properties
begin

text \<open>
  The guest side of an OP-Stack rollup on a Cartesi machine (\<^verbatim>\<open>op-cartesi\<close>, its TypeScript packages): a router that
  executes EVM-shaped inputs against an account ledger kept in a byte-addressed drive.

  \<^bold>\<open>The program\<close>

  \<^verbatim>\<open>src/accounts-drive/js\<close> keeps accounts, a token registry and token balances in the bytes of a drive, in robin-hood
  hash tables; \<^verbatim>\<open>src/abi-drive/js\<close> keeps the interfaces of the contracts in a second drive. \<^verbatim>\<open>src/evm-compat/js\<close> is the
  vocabulary shared with L1: transactions, addresses, withdrawals, cross-domain messages, logs, inspect envelopes.
  \<^verbatim>\<open>src/app\<close> puts them together: a ledger with a journal over the drive, handlers for the system addresses, a router that
  turns an input into one of five outcomes, and the application that serves the rollup loop. \<^verbatim>\<open>src/demo\<close> is an application: a counter.
  \<^verbatim>\<open>src/devnet\<close> brings a chain up around it: contracts deployed on L1, the rollup anchored to a block, the engine started with matching
  flags, a pane that prints what the guest reports. \<^verbatim>\<open>src/scripts\<close> are the clients: deposits, transactions, withdrawals, vouchers.

  An input is parsed; a signed transaction is admitted under its nonce and balance; value moves; the handler of the target
  runs; its outcome decides what the journal keeps. Accept and fail keep all, revert keeps the fee or the mint, reject keeps
  nothing.

  \<^bold>\<open>How it is modelled\<close>

  Fallible code returns \<open>res\<close> (\<open>Ok\<close>, \<open>Throw\<close> with the exception, \<open>Diverge\<close>); stateful code is a \<open>prog\<close>, a function from a
  state to a result and a state, the state kept also when it throws (Prelude). Promises are run in program order: the guest
  awaits every one. An address is its 20 bytes, a \<^verbatim>\<open>Hex\<close> value its bytes, a \<^verbatim>\<open>bigint\<close> an integer; where the code stores a
  number in a field, the field's width and the wrap-around are written out.

  \<^item> Store: the \<^verbatim>\<open>Store\<close> interface and \<^verbatim>\<open>MemStore\<close>, \<^verbatim>\<open>FileStore\<close>, \<^verbatim>\<open>MachineStore\<close> of \<^verbatim>\<open>store.ts\<close>.
  \<^item> Drive_Codec, Drive_Config, Drive_Table, Drive: \<^verbatim>\<open>drive.ts\<close>, from the hexadecimal helpers over \<^verbatim>\<open>validateConfig\<close> and the
    probing loops to accounts, tokens, balances, \<^verbatim>\<open>format\<close> and \<^verbatim>\<open>open\<close>, in the three profiles. Abi_Drive: \<^verbatim>\<open>abi-drive\<close>.
  \<^item> Ledger: \<^verbatim>\<open>ledger.ts\<close>. Evm: \<^verbatim>\<open>addresses.ts\<close>, \<^verbatim>\<open>crossdomain.ts\<close>, \<^verbatim>\<open>withdrawal.ts\<close>, \<^verbatim>\<open>evmcall.ts\<close>, \<^verbatim>\<open>events.ts\<close>, \<^verbatim>\<open>tx.ts\<close>
    and the result types.
  \<^item> World, Handlers, Cross_Domain, Contract: the sink and the handlers of \<^verbatim>\<open>src/app/src/handlers\<close>, \<^verbatim>\<open>contract.ts\<close>.
  \<^item> Router, Application, Boot: \<^verbatim>\<open>router.ts\<close> and \<^verbatim>\<open>application.ts\<close>, Boot with the devices and the loop. Demo: \<^verbatim>\<open>demo/src/index.ts\<close>.
  \<^item> Devnet_Env: \<^verbatim>\<open>devnet/lib/env.ts\<close>, the layered configuration. Devnet_Chain: the steps of a bring-up (\<^verbatim>\<open>proc.ts\<close>, \<^verbatim>\<open>deploy-l1.ts\<close>,
    \<^verbatim>\<open>deploy-outputs.ts\<close>, \<^verbatim>\<open>genesis.ts\<close>, \<^verbatim>\<open>opcartesi.ts\<close>, \<^verbatim>\<open>compose/\<close>) as functions on a \<open>Host\<close>: its files, what it said and printed, the programs it ran and
    the L1 transactions it sent. A step ends with \<open>Done\<close>, or exits with a status.
  \<^item> Scripts: \<^verbatim>\<open>src/scripts\<close> and \<^verbatim>\<open>devnet/lib/cartesi.ts\<close> as programs on a \<open>Session\<close>: the state of the nodes, the transactions sent, the
    output. Guest_Log: \<^verbatim>\<open>devnet/guest-log.ts\<close>, text as its UTF-16 units. Messages are in ASCII: a dash for the source's long one.

  Parameters stand for code of other packages: \<open>H\<close> for keccak-256 (assumed only to have 32-byte digests,
  \<open>keccak_digest\<close>), the record \<open>Viem\<close> for what is called of viem (\<open>viem_ok\<close>: an address it decodes, parses or recovers has 20 bytes;
  \<open>viem_returns\<close>: its calls end; \<open>viem_decodes\<close>: decoding inverts encoding), \<open>signer_nonzero\<close>: recovery never gives the zero
  address; a file handle (\<open>handle_ok\<close>), and the callbacks of the application's contracts (\<open>contracts_respect\<close>: they
  change the ledger through its operations; \<open>contracts_halt\<close>: they end; \<open>flush_ok\<close>: flushing a drive changes no byte of it).
  On the devnet: the programs it starts (\<open>genesis_writes\<close>: \<^verbatim>\<open>op-cartesi genesis\<close> writes its output file and no other), the L1 node
  (\<open>l1_ok\<close>: a block is answered with its own number and a hash), the printing of a JavaScript number that is not an integer literal;
  for the scripts the record \<open>Rpc\<close>, arbitrary answers and failures of two nodes and a clock, and \<open>Lib\<close>, the pure part of viem.
  \<open>paths_apart\<close> says that the files of the devnet have different names.

  \<^bold>\<open>What is shown\<close>

  \<^item> Robin_Hood and Drive_Table: probing implements a finite map, on lists of slots and on bytes. The endless loops of the source
    get as many iterations as the table has slots; the load limit leaves an empty slot, so they always return. The loops that
    wait for a node are given a number of rounds: \<open>wait_game\<close> is \<open>Diverge\<close> without them, and C28 shows that enough rounds exist;
    \<open>follow\<close>, which has no end, is any number of them.
  \<^item> Drive_Spec, Drive_Tokens, Drive_Format: the invariant \<open>drive_inv\<close> and, per operation, refinement of a specification on
    maps (\<open>drive_refines\<close>). Drive_Properties states it on the in-memory store (C11 to C14, C16 to C19), with restarts, the journal
    and short file transfers (C20 to C22). Abi_Spec does the same for the ABI drive.
  \<^item> Ledger_Journal: undoing the journal restores the ledger, for every operation. Ledger_Abs: what each operation does to
    accounts and balances.
  \<^item> Wire_Properties: encodings round-trip, nonces and aliases are unique, gas covers the relay, the sender is the signer (C27, C32).
  \<^item> Handler_Steps, Router_Steps: locales \<open>reader_client\<close>, \<open>ledger_client\<close>, \<open>relay_client\<close>, \<open>input_client\<close> for what views, handlers, the
    messenger and the router rely on, and what every outcome does to the ledger. Router_Inv: the preorders they are used
    with. Router_Halts: every input ends. Genesis: the state after boot, sequences of requests, the interpretations.
  \<^item> This theory: the inputs as a whole (C1 to C10). Router_Properties: history, transfers, outputs, contracts, the ABI drive (C33 to C40).
    Samples: concrete parameters and states the statements are exercised on.
  \<^item> Serving: an application that is live stays so, whatever it is asked. Demo_Properties: every request is answered, the counter counts
    (C30, C31).
  \<^item> Devnet_Lemmas, Devnet_Properties: written configuration is read back, the genesis step leaves one chain and is idempotent, parameters
    are typed (C15, C24, C26).
  \<^item> Scripts_Properties: a voucher is executed against a game that covers it, the wait ends, a withdrawal outlives the delays (C23, C28,
    C29). Guest_Log_Properties: blocks are printed once and in order (C25).

  \<^bold>\<open>What is not modelled\<close>

  The wrapper of keccak, re-exports and type-only modules; the bundling of the demo (\<^verbatim>\<open>stage.mts\<close>, \<^verbatim>\<open>esbuild.mts\<close>), which calls build tools;
  the bytecode of Multicall3, data the devnet only passes on; the chain definitions and client constructors of \<^verbatim>\<open>wallet.ts\<close>, which are
  arguments of viem; the forwarding of signals to a child process. The node in Go, the Solidity contracts and the ports of the drive are in other
  languages: what the TypeScript sees of them are the parameters above.
\<close>

section \<open>Inputs\<close>




text \<open>C2. A rejected input leaves no trace: the drive bytes, the registry cache, the RAM and the journal are as the input found
  them, and nothing is emitted.\<close>

theorem rejected_leaves_no_trace:
  assumes st: "byte_store S contents ok" and H: "keccak_digest H" and V: "viem_ok V" and nz: "signer_nonzero V raw"
    and con: "contracts_respect (keeps_since contents ok H) Rt"
    and inv: "ledger_inv contents ok H (w_led w)" "snd (jst (w_led w)) = []"
    and run: "router_advance H S V Rt block raw w = (Ok res, w')" and rej: "ar_outcome res = OReject"
  shows "led_eq contents (w_led w) (w_led w') \<and> ar_emissions res = [] \<and> \<not> ar_accept res"
proof (cases "parseInput V raw")
  case Opaque
  with run rej show ?thesis by (auto simp: router_advance_def finished_def)
next
  case (Refused reason)
  with run show ?thesis by (auto simp: router_advance_def rejected_def led_eq_def)
next
  case (Deposit d)
  then have dep: "advanceDeposit H S V Rt block d w = (Ok res, w')" using run by (simp add: router_advance_def)
  note p = parse_deposit [OF V Deposit]
  show ?thesis
    by (rule byte_store.deposit_runs [where d = d and block = block, OF st H V con p inv])
      (use dep rej in \<open>auto simp: finished_def\<close>)
next
  case (Signed tx)
  then have sg: "advanceSigned H S V Rt block tx w = (Ok res, w')" using run by (simp add: router_advance_def)
  have nz': "\<not> isZero a" if "recoverSender V tx = Some a" for a using nz Signed that by (simp add: signer_nonzero_def)
  show ?thesis
    by (rule byte_store.signed_runs [where tx = tx and block = block, OF st H V con _ _ inv])
      (use sg rej parse_signed [OF V Signed] nz' in \<open>auto simp: finished_def\<close>)
qed

theorem rejected_leaves_no_trace_witness:
  "\<exists>l w'. at_genesis l \<and>
     router_advance sample_hash MemStore sample_viem sample_router sample_block [3] (sample_world l) =
       (Ok (rejected ''transaction type eip4844 not admitted''), w') \<and>
     led_eq (\<lambda>b. b) l (w_led w')"
proof (rule genesis_ledger)
  fix l
  assume l: "at_genesis l" "ledger_inv (\<lambda>b. b) mem_ok sample_hash l" "snd (jst l) = []"
  have run: "router_advance sample_hash MemStore sample_viem sample_router sample_block [3] (sample_world l) =
      (Ok (rejected ''transaction type eip4844 not admitted''), sample_world l)"
    by (simp add: router_advance_def sample_inputs)
  from rejected_leaves_no_trace [OF mstore.byte_store_axioms sample_digest sample_viem_ok sample_signers sample_respects(1) _ _ run] l
  have "led_eq (\<lambda>b. b) l (w_led (sample_world l))" by (simp add: rejected_def)
  with run l(1) show ?thesis by blast
qed

section \<open>Signed transactions and deposits\<close>

lemma labs_led_eq: "led_eq contents l l' \<Longrightarrow> labs contents l' = labs contents l"
  by (simp add: led_eq_def labs_def)

lemma signed_outcome:
  assumes st: "byte_store S contents ok" and H: "keccak_digest H" and V: "viem_ok V" and nz: "signer_nonzero V raw"
    and con: "contracts_respect (keeps_since contents ok H) Rt" "contracts_respect (nonces_kept contents ok H) Rt"
    and inv: "ledger_inv contents ok H (w_led w)" "snd (jst (w_led w)) = []"
    and parse: "parseInput V raw = Signed tx" and run: "router_advance H S V Rt block raw w = (Ok res, w')"
    and rej: "ar_outcome res \<noteq> OReject"
  obtains sender l where "admitted V Rt (labs contents (w_led w)) (ram w) tx sender"
    and "settled contents ok H (Some (sender, fee (ram w))) l (w_led w')" and "d_cfg (l_drive l) = d_cfg (l_drive (w_led w))"
    and "\<And>a. nonceOf (labs contents l) a = nonceOf (labs contents (w_led w)) a"
    and "ar_outcome res = ORevert \<Longrightarrow> led_eq contents (w_led w) l \<and> list_all is_report (ar_emissions res)"
proof -
  have sg: "advanceSigned H S V Rt block tx w = (Ok res, w')" using run parse by (simp add: router_advance_def)
  show ?thesis
  proof (rule byte_store.signed_runs [where tx = tx and block = block, OF st H V con(1) _ _ inv],
      goal_cases tx nz diverge reject revert commit)
    case (tx a)
    then show ?case by (rule parse_signed [OF V parse])
  next
    case (nz a)
    then have "signer_nonzero V raw \<Longrightarrow> \<not> isZero a" using parse by (simp add: signer_nonzero_def)
    then show ?case using assms(4) by blast
  next
    case (diverge sender dst w'')
    with sg show ?thesis by simp
  next
    case (reject res' w'')
    with sg rej show ?thesis by simp
  next
    case (revert sender es l2 w'')
    then have e: "res = finished ORevert es" "w'' = w'" using sg by simp_all
    show ?thesis
      by (rule that [of sender l2]) (use revert e labs_led_eq [OF revert(4)] in \<open>simp_all add: finished_def led_eq_def\<close>)
  next
    case (commit sender dst outcome w1 res' w'')
    let ?ctx = "signed_ctx block sender dst tx" and ?w = "w\<lparr>w_sink := BufferSink (b_inputIndex block)\<rparr>"
    have ctx: "ctx_ok ?ctx" using commit(2,3) parse_signed [OF V parse] V
      by (auto simp: ctx_ok_def signed_ctx_def admitted_def recoverSender_def viem_ok_def split: if_splits res.splits)
    have "nonces_kept contents ok H (w_led w) (w_led w1)" "keeps_since contents ok H (w_led w) (w_led w1)"
      using stepsD [OF relay_client.transfer_and_dispatch_steps [OF byte_store.nonces_relay [OF st H] H V ctx con(2)] commit(4)]
        stepsD [OF relay_client.transfer_and_dispatch_steps [OF byte_store.keeps_since_relay [OF st H] H V ctx con(1)] commit(4)]
      by simp_all
    with inv(1) since_refl [OF inv(1)] have k: "\<And>a. nonceOf (labs contents (w_led w1)) a = nonceOf (labs contents (w_led w)) a"
        "since contents ok H (w_led w) (w_led w1)"
      by (simp_all add: nonces_kept_def keeps_since_def)
    have e: "res' = res" "w'' = w'" using commit(1) sg by simp_all
    have nr: "ar_outcome res \<noteq> ORevert" using commit(5) e by (auto simp: finished_def)
    show ?thesis
      by (rule that [OF commit(2) commit(6) [unfolded e]]) (use k nr in \<open>simp_all add: since_def\<close>)
  qed
qed

text \<open>C3. A signed transaction that reverts changes exactly one account: the signer's nonce goes up by one and the fee leaves the
  signer's balance. All other accounts, every token balance, the registry and the RAM are as before, and only reports are emitted.
  It reverts only after admission: a low-s signature for this chain, the account's nonce, and a balance that covers fee and value.\<close>

theorem reverted_transaction_pays_only_the_fee:
  assumes "byte_store S contents ok" and "keccak_digest H" and "viem_ok V" and "signer_nonzero V raw"
    and "contracts_respect (keeps_since contents ok H) Rt" and "contracts_respect (nonces_kept contents ok H) Rt"
    and "ledger_inv contents ok H (w_led w)" and "snd (jst (w_led w)) = []"
    and "parseInput V raw = Signed tx" and "router_advance H S V Rt block raw w = (Ok res, w')" and rev: "ar_outcome res = ORevert"
  shows "\<exists>sender. admitted V Rt (labs contents (w_led w)) (ram w) tx sender \<and>
     charged (d_cfg (l_drive (w_led w))) sender (fee (ram w)) (labs contents (w_led w)) (labs contents (w_led w')) \<and>
     ram_view (ram w') = ram_view (ram w) \<and> list_all is_report (ar_emissions res)"
proof (rule signed_outcome [OF assms(1-10)])
  fix sender l
  assume a: "admitted V Rt (labs contents (w_led w)) (ram w) tx sender"
    "settled contents ok H (Some (sender, fee (ram w))) l (w_led w')" "d_cfg (l_drive l) = d_cfg (l_drive (w_led w))"
    "ar_outcome res = ORevert \<Longrightarrow> led_eq contents (w_led w) l \<and> list_all is_report (ar_emissions res)"
  then have "ram_view (l_ram l) = ram_view (ram w)" using rev by (simp add: led_eq_def ram_def)
  with a labs_led_eq [of contents "w_led w" l] rev show ?thesis
    by (intro exI [of _ sender]) (simp add: settled_def ram_def)
qed (use rev in simp)

theorem reverted_transaction_pays_only_the_fee_witness:
  "\<exists>l w'. at_genesis l \<and>
     router_advance sample_hash MemStore sample_viem sample_router sample_block [1] (sample_world l) =
       (Ok (finished ORevert [Report [TAG_REVERT]]), w') \<and>
     (\<exists>sender. charged (opened devnet_cfg) sender 0 empty_abs (labs (\<lambda>b. b) (w_led w')))"
proof (rule genesis_ledger)
  fix l
  assume l: "at_genesis l" "ledger_inv (\<lambda>b. b) mem_ok sample_hash l" "snd (jst l) = []" "l_ram l = new_ram" "labs (\<lambda>b. b) l = empty_abs"
  from sample_signed(1) [OF l(1,4)] obtain w' where
    w': "router_advance sample_hash MemStore sample_viem sample_router sample_block [1] (sample_world l) =
      (Ok (finished ORevert [Report [TAG_REVERT]]), w')" by blast
  from reverted_transaction_pays_only_the_fee [OF mstore.byte_store_axioms sample_digest sample_viem_ok sample_signers
      sample_respects(1,1) _ _ sample_inputs(2) w'] l
  have "\<exists>sender. charged (opened devnet_cfg) sender 0 empty_abs (labs (\<lambda>b. b) (w_led w'))"
    by (auto simp: finished_def ram_def new_ram_def at_genesis_def fresh_drive_def)
  with w' l(1) show ?thesis by blast
qed

text \<open>C4. A signed transaction that is not rejected was admitted under the account's nonce and moves exactly that nonce, by one:
  neither the handlers nor the settlement touch any other.\<close>

theorem signed_transaction_moves_one_nonce:
  assumes "byte_store S contents ok" and "keccak_digest H" and "viem_ok V" and "signer_nonzero V raw"
    and "contracts_respect (keeps_since contents ok H) Rt" and "contracts_respect (nonces_kept contents ok H) Rt"
    and "ledger_inv contents ok H (w_led w)" and "snd (jst (w_led w)) = []"
    and "parseInput V raw = Signed tx" and "router_advance H S V Rt block raw w = (Ok res, w')" and "ar_outcome res \<noteq> OReject"
  shows "\<exists>sender. recoverSender V tx = Some sender \<and> sg_nonce tx = nonceOf (labs contents (w_led w)) sender \<and>
     nonceOf (labs contents (w_led w')) sender =
       (nonceOf (labs contents (w_led w)) sender + 1) mod 256 ^ nonce_bytes (d_cfg (l_drive (w_led w))) \<and>
     (\<forall>a. a \<noteq> sender \<longrightarrow> nonceOf (labs contents (w_led w')) a = nonceOf (labs contents (w_led w)) a)"
proof (rule signed_outcome [OF assms])
  fix sender l
  assume "admitted V Rt (labs contents (w_led w)) (ram w) tx sender"
    and "settled contents ok H (Some (sender, fee (ram w))) l (w_led w')" "d_cfg (l_drive l) = d_cfg (l_drive (w_led w))"
    and "\<And>a. nonceOf (labs contents l) a = nonceOf (labs contents (w_led w)) a"
  then show ?thesis
    by (intro exI [of _ sender]) (auto simp: admitted_def settled_def charged_def nonceOf_def)
qed

theorem signed_transaction_moves_one_nonce_witness:
  "\<exists>l w'. at_genesis l \<and>
     router_advance sample_hash MemStore sample_viem sample_router sample_block [2] (sample_world l) = (Ok (finished OAccept []), w') \<and>
     nonceOf (labs (\<lambda>b. b) (w_led w')) (sample_address 7) = 1"
proof (rule genesis_ledger)
  fix l
  assume l: "at_genesis l" "ledger_inv (\<lambda>b. b) mem_ok sample_hash l" "snd (jst l) = []" "l_ram l = new_ram" "labs (\<lambda>b. b) l = empty_abs"
  from sample_signed(2) [OF l(1,4)] obtain w' where
    w': "router_advance sample_hash MemStore sample_viem sample_router sample_block [2] (sample_world l) = (Ok (finished OAccept []), w')"
    by blast
  from signed_transaction_moves_one_nonce [OF mstore.byte_store_axioms sample_digest sample_viem_ok sample_signers
      sample_respects(1,1) _ _ sample_inputs(3) w'] l
  have "nonceOf (labs (\<lambda>b. b) (w_led w')) (sample_address 7) = 1"
    by (auto simp: finished_def sample_recovers empty_abs_def nonceOf_def nonce_bytes_def)
  with w' l(1) show ?thesis by blast
qed




text \<open>C6. The mint of a deposit survives a revert: the sender's balance goes up by the mint, every other account, every token
  balance, the registry and the RAM are as before, and only reports are emitted.\<close>

theorem reverted_deposit_keeps_mint:
  assumes st: "byte_store S contents ok" and H: "keccak_digest H" and V: "viem_ok V"
    and con: "contracts_respect (keeps_since contents ok H) Rt"
    and inv: "ledger_inv contents ok H (w_led w)" "snd (jst (w_led w)) = []"
    and parse: "parseInput V raw = Deposit d" and run: "router_advance H S V Rt block raw w = (Ok res, w')"
    and rev: "ar_outcome res = ORevert"
  shows "ether_moved (labs contents (w_led w)) (labs contents (w_led w')) (dep_from d) (int (dep_mint d)) \<and>
     ram_view (ram w') = ram_view (ram w) \<and> list_all is_report (ar_emissions res)"
proof -
  have dep: "advanceDeposit H S V Rt block d w = (Ok res, w')" using run parse by (simp add: router_advance_def)
  note p = parse_deposit [OF V parse]
  show ?thesis
  proof (rule byte_store.deposit_runs [where d = d and block = block, OF st H V con p inv],
      goal_cases to20 diverge reject mint revert commit)
    case (revert l1 es l2 w'')
    then have e: "res = finished ORevert es" "w'' = w'" using dep by simp_all
    have "labs contents (w_led w') = labs contents l1" using labs_led_eq [OF revert(4)] revert(6) e by (simp add: settled_def)
    moreover have "ram_view (ram w') = ram_view (ram w)"
      using revert(2,4,6) e by (simp add: settled_def led_eq_def minted_def drive_step_def ram_def)
    ultimately show ?thesis using revert(2,3) e by (simp add: minted_def finished_def)
  qed (use dep rev in \<open>auto simp: finished_def\<close>)
qed

theorem reverted_deposit_keeps_mint_witness:
  "\<exists>l w'. at_genesis l \<and>
     router_advance sample_hash MemStore sample_viem sample_router sample_block [0x7e] (sample_world l) =
       (Ok (finished ORevert [Report [TAG_REVERT]]), w') \<and>
     etherOf (labs (\<lambda>b. b) (w_led w')) (sample_address 7) = 5"
proof (rule genesis_ledger)
  fix l
  assume l: "at_genesis l" "ledger_inv (\<lambda>b. b) mem_ok sample_hash l" "snd (jst l) = []" "labs (\<lambda>b. b) l = empty_abs"
  from sample_deposit [OF l(1,3)] obtain w' where
    w': "router_advance sample_hash MemStore sample_viem sample_router sample_block [0x7e] (sample_world l) =
      (Ok (finished ORevert [Report [TAG_REVERT]]), w')" by blast
  from reverted_deposit_keeps_mint [OF mstore.byte_store_axioms sample_digest sample_viem_ok sample_respects(1) _ _ sample_inputs(5) w'] l
  have "int (etherOf (labs (\<lambda>b. b) (w_led w')) (sample_address 7)) = int (etherOf empty_abs (sample_address 7)) + 5"
    by (simp add: finished_def ether_moved_def)
  then have "etherOf (labs (\<lambda>b. b) (w_led w')) (sample_address 7) = 5" by (simp add: etherOf_def empty_abs_def)
  with w' l(1) show ?thesis by blast
qed

section \<open>What every reachable state satisfies\<close>

text \<open>C7. The supply a token facade reports is the sum of the balances of all holders, in every state reachable from one where it is,
  by any requests in any order.\<close>

theorem supply_is_sum_of_balances:
  assumes "byte_store S contents ok" and "keccak_digest H" and "viem_ok V"
    and "ready contents ok H (supply_kept contents ok H) ap" and "reaches H S V ap ap'"
    and "\<And>tid. totalSupply tid (l_ram (led_of ap)) = int (circulating (labs contents (led_of ap)) tid)"
  shows "totalSupply tid (l_ram (led_of ap')) = int (\<Sum>x | length x = 20. a_bal (labs contents (led_of ap')) tid x)"
  using input_client.reaches_ready [OF byte_store.supply_input [OF assms(1,2)] assms(5,2,3,4)] assms(4,6)
  by (simp add: supply_kept_def supply_inv_def ready_def circulating_def)

theorem supply_is_sum_of_balances_witness:
  "\<exists>l ap'. at_genesis l \<and> reaches sample_hash MemStore sample_viem (sample_app l) ap' \<and>
     totalSupply 0 (l_ram (led_of ap')) = int (\<Sum>x | length x = 20. a_bal (labs (\<lambda>b. b) (led_of ap')) 0 x)"
proof (rule genesis_ledger)
  fix l
  assume l: "at_genesis l" "ledger_inv (\<lambda>b. b) mem_ok sample_hash l" "snd (jst l) = []" "l_ram l = new_ram" "labs (\<lambda>b. b) l = empty_abs"
  have "totalSupply tid (l_ram (led_of (sample_app l))) = int (circulating (labs (\<lambda>b. b) (led_of (sample_app l))) tid)" for tid
    using l(4,5) by (simp add: totalSupply_def new_ram_def circulating_def empty_abs_def)
  from supply_is_sum_of_balances [OF mstore.byte_store_axioms sample_digest sample_viem_ok sample_ready [OF l(2,3)] sample_reaches this]
    l(1) sample_reaches [of l]
  show ?thesis by blast
qed

text \<open>C8. The two escrows never coexist: no reachable state has both a registered messaging pair and a registered ERC-20 portal.\<close>

theorem escrows_never_coexist:
  assumes "byte_store S contents ok" and "keccak_digest H" and "viem_ok V"
    and "ready contents ok H (escrow_kept contents ok H) ap" and "reaches H S V ap ap'"
    and "crossDomain (l_ram (led_of ap)) = None \<or> \<not> hasErc20Portal (l_ram (led_of ap))"
  shows "crossDomain (l_ram (led_of ap')) = None \<or> \<not> hasErc20Portal (l_ram (led_of ap'))"
  using input_client.reaches_ready [OF byte_store.escrow_input [OF assms(1,2)] assms(5,2,3,4)] assms(4,6)
  by (auto simp: escrow_kept_def escrow_ok_def ready_def)

theorem escrows_never_coexist_witness:
  "\<exists>l ap'. at_genesis l \<and> reaches sample_hash MemStore sample_viem (sample_app l) ap' \<and>
     (crossDomain (l_ram (led_of ap')) = None \<or> \<not> hasErc20Portal (l_ram (led_of ap')))"
proof (rule genesis_ledger)
  fix l
  assume l: "at_genesis l" "ledger_inv (\<lambda>b. b) mem_ok sample_hash l" "snd (jst l) = []" "l_ram l = new_ram"
  have "crossDomain (l_ram (led_of (sample_app l))) = None \<or> \<not> hasErc20Portal (l_ram (led_of (sample_app l)))"
    using l(4) by (simp add: new_ram_def crossDomain_def)
  from escrows_never_coexist [OF mstore.byte_store_axioms sample_digest sample_viem_ok sample_ready [OF l(2,3)] sample_reaches this] l(1)
    sample_reaches [of l]
  show ?thesis by blast
qed



text \<open>C10. A query never changes the ledger: \<^verbatim>\<open>EvmCall\<close> runs views only, and what \<^verbatim>\<open>EvmSimulate\<close> executes is rolled back before it
  answers.\<close>

theorem inspect_changes_nothing:
  assumes "byte_store S contents ok" and "keccak_digest H" and "viem_ok V"
    and "contracts_respect (keeps_since contents ok H) Rt" and "views_respect (reading contents ok H) Rt"
    and "ledger_inv contents ok H (w_led w)" and "router_inspect H S V Rt payload w = (Ok res, w')"
  shows "led_eq contents (w_led w) (w_led w')"
  using byte_store.inspect_runs [OF assms] by simp

theorem inspect_changes_nothing_witness:
  "\<exists>l w'. at_genesis l \<and>
     router_inspect sample_hash MemStore sample_viem sample_router [] (sample_world l) = (Ok (answered False TAG_REVERT []), w') \<and>
     led_eq (\<lambda>b. b) l (w_led w')"
proof (rule genesis_ledger)
  fix l
  assume l: "at_genesis l" "ledger_inv (\<lambda>b. b) mem_ok sample_hash l"
  have run: "router_inspect sample_hash MemStore sample_viem sample_router [] (sample_world l) =
      (Ok (answered False TAG_REVERT []), sample_world l)"
    by (simp add: router_inspect_def decodeEvmCall_def errorRevert_def sample_viem_def)
  from inspect_changes_nothing [OF mstore.byte_store_axioms sample_digest sample_viem_ok sample_respects(1,2) _ run] l
  have "led_eq (\<lambda>b. b) l (w_led (sample_world l))" by simp
  with run l(1) show ?thesis by blast
qed

end
